(* ===== verification/Md5.thy ===== *)
theory Md5
  imports Main "HOL-Library.Word"
begin

text \<open>
  The MD5 digest of Go's \<open>crypto/md5\<close> over 32-bit words, and its hexadecimal form as
  \<open>fmt.Sprintf("%x", ...)\<close> prints it. The controller takes the first eight digits of it as the
  suffix of a shortened name (\<open>internal/cloudfront/oac.go\<close>).
\<close>

unbundle bit_operations_syntax

section \<open>The digest\<close>

type_synonym w32 = "32 word"

record md5_state =
  md5_a :: w32
  md5_b :: w32
  md5_c :: w32
  md5_d :: w32

definition md5_init :: md5_state where
  "md5_init = \<lparr>md5_a = 0x67452301, md5_b = 0xefcdab89, md5_c = 0x98badcfe, md5_d = 0x10325476\<rparr>"

definition md5_table :: "w32 list" where
  "md5_table = [
   0xd76aa478, 0xe8c7b756, 0x242070db, 0xc1bdceee,
   0xf57c0faf, 0x4787c62a, 0xa8304613, 0xfd469501,
   0x698098d8, 0x8b44f7af, 0xffff5bb1, 0x895cd7be,
   0x6b901122, 0xfd987193, 0xa679438e, 0x49b40821,
   0xf61e2562, 0xc040b340, 0x265e5a51, 0xe9b6c7aa,
   0xd62f105d, 0x02441453, 0xd8a1e681, 0xe7d3fbc8,
   0x21e1cde6, 0xc33707d6, 0xf4d50d87, 0x455a14ed,
   0xa9e3e905, 0xfcefa3f8, 0x676f02d9, 0x8d2a4c8a,
   0xfffa3942, 0x8771f681, 0x6d9d6122, 0xfde5380c,
   0xa4beea44, 0x4bdecfa9, 0xf6bb4b60, 0xbebfbc70,
   0x289b7ec6, 0xeaa127fa, 0xd4ef3085, 0x04881d05,
   0xd9d4d039, 0xe6db99e5, 0x1fa27cf8, 0xc4ac5665,
   0xf4292244, 0x432aff97, 0xab9423a7, 0xfc93a039,
   0x655b59c3, 0x8f0ccc92, 0xffeff47d, 0x85845dd1,
   0x6fa87e4f, 0xfe2ce6e0, 0xa3014314, 0x4e0811a1,
   0xf7537e82, 0xbd3af235, 0x2ad7d2bb, 0xeb86d391]"

definition md5_shifts :: "nat list" where
  "md5_shifts = concat (map (\<lambda>r. concat (replicate 4 r))
     [[7, 12, 17, 22], [5, 9, 14, 20], [4, 11, 16, 23], [6, 10, 15, 21]])"

definition md5_mix :: "nat \<Rightarrow> w32 \<Rightarrow> w32 \<Rightarrow> w32 \<Rightarrow> w32 \<times> nat" where
  "md5_mix i b c d =
     (if i < 16 then ((b AND c) OR (NOT b AND d), i)
      else if i < 32 then ((d AND b) OR (NOT d AND c), (5 * i + 1) mod 16)
      else if i < 48 then (b XOR c XOR d, (3 * i + 5) mod 16)
      else (c XOR (b OR NOT d), (7 * i) mod 16))"

definition md5_round :: "w32 list \<Rightarrow> nat \<Rightarrow> md5_state \<Rightarrow> md5_state" where
  "md5_round ws i s =
     (let (f, g) = md5_mix i (md5_b s) (md5_c s) (md5_d s);
          x = f + md5_a s + md5_table ! i + ws ! g in
      \<lparr>md5_a = md5_d s, md5_b = md5_b s + word_rotl (md5_shifts ! i) x,
       md5_c = md5_b s, md5_d = md5_c s\<rparr>)"

definition md5_block :: "w32 list \<Rightarrow> md5_state \<Rightarrow> md5_state" where
  "md5_block ws s =
     (let r = fold (md5_round ws) [0..<64] s in
      \<lparr>md5_a = md5_a s + md5_a r, md5_b = md5_b s + md5_b r,
       md5_c = md5_c s + md5_c r, md5_d = md5_d s + md5_d r\<rparr>)"

text \<open>A number as \<open>n\<close> little-endian bytes, and bytes as little-endian words.\<close>

primrec le_bytes :: "nat \<Rightarrow> nat \<Rightarrow> nat list" where
  "le_bytes 0 v = []"
| "le_bytes (Suc n) v = v mod 256 # le_bytes n (v div 256)"

fun le_words :: "nat list \<Rightarrow> w32 list" where
  "le_words (a # b # c # d # r) = of_nat (a + 256 * (b + 256 * (c + 256 * d))) # le_words r"
| "le_words _ = []"

definition md5_pad :: "nat list \<Rightarrow> nat list" where
  "md5_pad bs = bs @ [128] @ replicate ((119 - length bs mod 64) mod 64) 0 @
     le_bytes 8 (8 * length bs)"

fun md5_blocks :: "nat \<Rightarrow> w32 list \<Rightarrow> md5_state \<Rightarrow> md5_state" where
  "md5_blocks 0 ws s = s"
| "md5_blocks (Suc n) ws s = md5_blocks n (drop 16 ws) (md5_block (take 16 ws) s)"

definition md5_sum :: "nat list \<Rightarrow> nat list" where
  "md5_sum bs =
     (let padded = md5_pad bs;
          s = md5_blocks (length padded div 64) (le_words padded) md5_init in
      concat (map (\<lambda>w. le_bytes 4 (unat w)) [md5_a s, md5_b s, md5_c s, md5_d s]))"

definition hex_digit :: "nat \<Rightarrow> char" where
  "hex_digit n = ''0123456789abcdef'' ! n"

definition hex_string :: "nat list \<Rightarrow> string" where
  "hex_string bs = concat (map (\<lambda>b. [hex_digit (b div 16), hex_digit (b mod 16)]) bs)"

section \<open>Shape of the digest\<close>

text \<open>The padding fills the last block, as the block loop assumes.\<close>

lemma length_le_bytes [simp]: "length (le_bytes n v) = n"
  by (induction n arbitrary: v) auto

lemma le_bytes_bound: "b \<in> set (le_bytes n v) \<Longrightarrow> b < 256"
  by (induction n arbitrary: v) auto

lemma length_md5_pad: "64 dvd length (md5_pad bs)"
proof -
  define r where "r = length bs mod 64"
  have "r < 64" by (simp add: r_def)
  then have "(r + 9 + (119 - r) mod 64) mod 64 = 0"
  proof (cases "r \<le> 55")
    case True
    then have "(119 - r) mod 64 = 55 - r"
      by (subst mod_if) (simp add: mod_if)
    with True show ?thesis by simp
  next
    case False
    with \<open>r < 64\<close> have "(119 - r) mod 64 = 119 - r" by simp
    with False \<open>r < 64\<close> show ?thesis by simp
  qed
  then have "(length bs + (9 + (119 - r) mod 64)) mod 64 = 0"
    unfolding r_def by (metis add.assoc mod_add_left_eq)
  moreover have "length (md5_pad bs) = length bs + (9 + (119 - r) mod 64)"
    unfolding md5_pad_def r_def by simp
  ultimately show ?thesis by (simp add: dvd_eq_mod_eq_0)
qed

lemma length_md5_sum [simp]: "length (md5_sum bs) = 16"
  by (simp add: md5_sum_def Let_def)

lemma md5_sum_bound: "b \<in> set (md5_sum bs) \<Longrightarrow> b < 256"
  by (auto simp: md5_sum_def Let_def dest: le_bytes_bound)

lemma length_hex_string [simp]: "length (hex_string bs) = 2 * length bs"
  by (induction bs) (simp_all add: hex_string_def)

lemma hex_digit_in: "n < 16 \<Longrightarrow> hex_digit n \<in> set ''0123456789abcdef''"
  unfolding hex_digit_def by (intro nth_mem) simp

lemma set_hex_string:
  "(\<And>b. b \<in> set bs \<Longrightarrow> b < 256) \<Longrightarrow> set (hex_string bs) \<subseteq> set ''0123456789abcdef''"
proof (induction bs)
  case (Cons b bs)
  have "b < 256" using Cons.prems by simp
  then have "b div 16 < 16" and "b mod 16 < 16" by auto
  then have "hex_digit (b div 16) \<in> set ''0123456789abcdef''"
    "hex_digit (b mod 16) \<in> set ''0123456789abcdef''" by (blast intro: hex_digit_in)+
  moreover have "set (hex_string bs) \<subseteq> set ''0123456789abcdef''"
    using Cons by simp
  moreover have "hex_string (b # bs) = [hex_digit (b div 16), hex_digit (b mod 16)] @ hex_string bs"
    by (simp add: hex_string_def)
  ultimately show ?case by simp
qed (simp add: hex_string_def)

end
