(* ===== verification/Go_Prelude.thy ===== *)
theory Go_Prelude
  imports Main "HOL-Library.AList" "HOL-Library.Multiset"
begin

text \<open>
  Prelude of the development: what the Go language gives every component of the controller.
  It holds the error values, the outcome of a call (value, error or run-time panic), the
  effect type of code that calls external services (a trace of calls with the responses left
  to the environment), Go maps with their unspecified iteration order, and the lemma
  collections the component theories extend.
\<close>

section \<open>Lemma collections\<close>

named_theorems go_simps \<open>evaluation of Go library operations\<close>
named_theorems emits_intros \<open>which external calls a computation can make\<close>
named_theorems io_simps \<open>evaluation of effectful computations\<close>

section \<open>Errors\<close>

text \<open>
  A Go error is an interface value. What the code observes of it is its identity
  (\<open>errors.Is\<close> against the sentinels), the AWS error code (\<open>errors.As\<close> with
  \<open>awserr.Error\<close>), whether it is a Kubernetes not-found error, and its message. Formatting with
  the verb v keeps the message of the operand only; formatting with the verb w keeps the operand
  reachable for \<open>errors.Is\<close> and \<open>errors.As\<close>.
\<close>

datatype go_error =
    ErrDistNotFound
  | ErrNoSuchOAC
  | ErrNoMatchingCert
  | ErrFindCert
  | ErrConflictingACL
  | ErrConflictingPaths
  | ErrDeadlineExceeded
  | AwsError (aws_code: string) (aws_message: string)
  | K8sNotFound
  | K8sError string
  | LibError string
  | Errorf string "string list"
  | ErrorfV string go_error
  | ErrorfW string go_error
  | ErrorfWV go_error go_error
  | MultiError "go_error list"

text \<open>The chain of errors that \<open>errors.Is\<close> and \<open>errors.As\<close> walk.\<close>

fun error_chain :: "go_error \<Rightarrow> go_error list" where
  "error_chain (ErrorfW m e) = ErrorfW m e # error_chain e"
| "error_chain (ErrorfWV e d) = ErrorfWV e d # error_chain e"
| "error_chain e = [e]"

definition errors_Is :: "go_error \<Rightarrow> go_error \<Rightarrow> bool" where
  "errors_Is e target \<longleftrightarrow> target \<in> set (error_chain e)"

definition errors_As_aws :: "go_error \<Rightarrow> string option" where
  "errors_As_aws e = (case filter (\<lambda>x. case x of AwsError _ _ \<Rightarrow> True | _ \<Rightarrow> False) (error_chain e) of
     AwsError c _ # _ \<Rightarrow> Some c | _ \<Rightarrow> None)"

section \<open>Outcomes\<close>

text \<open>A call returns a value, returns an error, or panics.\<close>

datatype 'a outcome = Ok (the_ok: 'a) | Err (the_err: go_error) | Panic

fun out_bind :: "'a outcome \<Rightarrow> ('a \<Rightarrow> 'b outcome) \<Rightarrow> 'b outcome" where
  "out_bind (Ok x) f = f x"
| "out_bind (Err e) f = Err e"
| "out_bind Panic f = Panic"

fun out_wrap :: "(go_error \<Rightarrow> go_error) \<Rightarrow> 'a outcome \<Rightarrow> 'a outcome" where
  "out_wrap w (Ok x) = Ok x"
| "out_wrap w (Err e) = Err (w e)"
| "out_wrap w Panic = Panic"

fun out_mapM :: "('a \<Rightarrow> 'b outcome) \<Rightarrow> 'a list \<Rightarrow> 'b list outcome" where
  "out_mapM f [] = Ok []"
| "out_mapM f (x # xs) = out_bind (f x) (\<lambda>y. out_bind (out_mapM f xs) (\<lambda>ys. Ok (y # ys)))"

fun out_foldM :: "('s \<Rightarrow> 'a \<Rightarrow> 's outcome) \<Rightarrow> 's \<Rightarrow> 'a list \<Rightarrow> 's outcome" where
  "out_foldM f s [] = Ok s"
| "out_foldM f s (x # xs) = out_bind (f s x) (\<lambda>s'. out_foldM f s' xs)"

text \<open>Dereferencing a pointer: nil panics.\<close>

definition deref :: "'a option \<Rightarrow> 'a outcome" where
  "deref p = (case p of None \<Rightarrow> Panic | Some x \<Rightarrow> Ok x)"

text \<open>Indexing a slice: out of range panics.\<close>

definition index :: "'a list \<Rightarrow> nat \<Rightarrow> 'a outcome" where
  "index xs i = (if i < length xs then Ok (xs ! i) else Panic)"

text \<open>The response of a library call as an outcome.\<close>

fun of_sum :: "go_error + 'a \<Rightarrow> 'a outcome" where
  "of_sum (Inl e) = Err e"
| "of_sum (Inr x) = Ok x"

lemma of_sum_iffs [simp]:
  "of_sum r = Ok x \<longleftrightarrow> r = Inr x" "of_sum r = Err e \<longleftrightarrow> r = Inl e" "of_sum r \<noteq> Panic"
  by (cases r; simp)+

lemma deref_simps [simp]: "deref None = Panic" "deref (Some x) = Ok x"
  by (simp_all add: deref_def)

lemma index_Ok [simp]: "i < length xs \<Longrightarrow> index xs i = Ok (xs ! i)"
  by (simp add: index_def)

lemma index_Panic [simp]: "length xs \<le> i \<Longrightarrow> index xs i = Panic"
  by (simp add: index_def)

lemma out_bind_Ok_right [simp]: "out_bind m Ok = m"
  by (cases m) auto

lemma out_bind_Ok_iff: "out_bind m f = Ok y \<longleftrightarrow> (\<exists>x. m = Ok x \<and> f x = Ok y)"
  by (cases m) auto

lemma out_bind_Err_iff: "out_bind m f = Err e \<longleftrightarrow> m = Err e \<or> (\<exists>x. m = Ok x \<and> f x = Err e)"
  by (cases m) auto

lemma out_bind_Panic_iff: "out_bind m f = Panic \<longleftrightarrow> m = Panic \<or> (\<exists>x. m = Ok x \<and> f x = Panic)"
  by (cases m) auto

lemma out_wrap_Ok_iff [simp]: "out_wrap w m = Ok y \<longleftrightarrow> m = Ok y"
  by (cases m) auto

lemma out_wrap_Err_iff: "out_wrap w m = Err e \<longleftrightarrow> (\<exists>d. m = Err d \<and> e = w d)"
  by (cases m) auto

lemma out_wrap_Panic_iff [simp]: "out_wrap w m = Panic \<longleftrightarrow> m = Panic"
  by (cases m) auto

lemmas out_iffs = out_bind_Ok_iff out_bind_Err_iff out_bind_Panic_iff out_wrap_Err_iff

lemma out_foldM_append:
  "out_foldM f s (xs @ ys) = out_bind (out_foldM f s xs) (\<lambda>s'. out_foldM f s' ys)"
proof (induction xs arbitrary: s)
  case (Cons x xs)
  then show ?case by (cases "f s x") auto
qed simp

lemma out_foldM_no_panic: "(\<And>s x. f s x \<noteq> Panic) \<Longrightarrow> out_foldM f s xs \<noteq> Panic"
  by (induction xs arbitrary: s) (auto simp: out_bind_Panic_iff)

lemma out_mapM_Ok_all2: "out_mapM f xs = Ok ys \<Longrightarrow> list_all2 (\<lambda>x y. f x = Ok y) xs ys"
  by (induction xs arbitrary: ys) (auto simp: out_bind_Ok_iff)

lemma out_mapM_total: "(\<And>x. x \<in> set xs \<Longrightarrow> f x = Ok (g x)) \<Longrightarrow> out_mapM f xs = Ok (map g xs)"
  by (induction xs) auto

section \<open>Effects: a trace of external calls\<close>

text \<open>
  Code that talks to AWS or to the Kubernetes API is a function of the trace of the calls made
  so far. A call appends itself to the trace; its response is an arbitrary function of the
  whole trace, so that an environment may answer differently every time. \<open>'c\<close> is the type of
  calls.
\<close>

type_synonym ('c, 'a) io = "'c list \<Rightarrow> 'a outcome \<times> 'c list"

definition io_return :: "'a \<Rightarrow> ('c, 'a) io" where
  "io_return x = (\<lambda>t. (Ok x, t))"

definition io_fail :: "go_error \<Rightarrow> ('c, 'a) io" where
  "io_fail e = (\<lambda>t. (Err e, t))"

definition io_lift :: "'a outcome \<Rightarrow> ('c, 'a) io" where
  "io_lift r = (\<lambda>t. (r, t))"

definition io_bind :: "('c, 'a) io \<Rightarrow> ('a \<Rightarrow> ('c, 'b) io) \<Rightarrow> ('c, 'b) io" where
  "io_bind m f = (\<lambda>t. case m t of
     (Ok x, t') \<Rightarrow> f x t'
   | (Err e, t') \<Rightarrow> (Err e, t')
   | (Panic, t') \<Rightarrow> (Panic, t'))"

text \<open>The Go idiom \<open>x, err := m\<close>: the error becomes a value; a panic stays a panic.\<close>

definition io_try :: "('c, 'a) io \<Rightarrow> ('c, go_error + 'a) io" where
  "io_try m = (\<lambda>t. case m t of
     (Ok x, t') \<Rightarrow> (Ok (Inr x), t')
   | (Err e, t') \<Rightarrow> (Ok (Inl e), t')
   | (Panic, t') \<Rightarrow> (Panic, t'))"

text \<open>\<open>if err != nil \{ return fmt.Errorf(..., err) \}\<close>\<close>

definition io_wrap :: "(go_error \<Rightarrow> go_error) \<Rightarrow> ('c, 'a) io \<Rightarrow> ('c, 'a) io" where
  "io_wrap w m = (\<lambda>t. case m t of (r, t') \<Rightarrow> (out_wrap w r, t'))"

definition io_call :: "'c \<Rightarrow> ('c list \<Rightarrow> go_error + 'a) \<Rightarrow> ('c, 'a) io" where
  "io_call c resp = (\<lambda>t. (case resp (t @ [c]) of Inl e \<Rightarrow> Err e | Inr x \<Rightarrow> Ok x, t @ [c]))"

fun io_mapM :: "('a \<Rightarrow> ('c, 'b) io) \<Rightarrow> 'a list \<Rightarrow> ('c, 'b list) io" where
  "io_mapM f [] = io_return []"
| "io_mapM f (x # xs) = io_bind (f x) (\<lambda>y. io_bind (io_mapM f xs) (\<lambda>ys. io_return (y # ys)))"

fun io_foldM :: "('s \<Rightarrow> 'a \<Rightarrow> ('c, 's) io) \<Rightarrow> 's \<Rightarrow> 'a list \<Rightarrow> ('c, 's) io" where
  "io_foldM f s [] = io_return s"
| "io_foldM f s (x # xs) = io_bind (f s x) (\<lambda>s'. io_foldM f s' xs)"

definition run_result :: "('c, 'a) io \<Rightarrow> 'a outcome" where
  "run_result m = fst (m [])"

definition run_calls :: "('c, 'a) io \<Rightarrow> 'c list" where
  "run_calls m = snd (m [])"

lemma io_return_apply [io_simps]: "io_return x t = (Ok x, t)"
  by (simp add: io_return_def)

lemma io_fail_apply [io_simps]: "io_fail e t = (Err e, t)"
  by (simp add: io_fail_def)

lemma io_lift_apply [io_simps]: "io_lift r t = (r, t)"
  by (simp add: io_lift_def)

lemma io_bind_apply [io_simps]:
  "m t = (Ok x, t') \<Longrightarrow> io_bind m f t = f x t'"
  "m t = (Err e, t') \<Longrightarrow> io_bind m f t = (Err e, t')"
  "m t = (Panic, t') \<Longrightarrow> io_bind m f t = (Panic, t')"
  by (simp_all add: io_bind_def)

lemma io_try_apply [io_simps]:
  "m t = (Ok x, t') \<Longrightarrow> io_try m t = (Ok (Inr x), t')"
  "m t = (Err e, t') \<Longrightarrow> io_try m t = (Ok (Inl e), t')"
  "m t = (Panic, t') \<Longrightarrow> io_try m t = (Panic, t')"
  by (simp_all add: io_try_def)

lemma io_wrap_apply [io_simps]: "m t = (r, t') \<Longrightarrow> io_wrap w m t = (out_wrap w r, t')"
  by (simp add: io_wrap_def)

lemma io_bind_return [simp]: "io_bind (io_return x) f = f x"
  by (simp add: io_bind_def io_return_def)

lemma io_bind_fail [simp]: "io_bind (io_fail e) f = io_fail e"
  by (simp add: io_bind_def io_fail_def)

lemma io_bind_try:
  "io_bind (io_try m) f t = (case m t of
     (Ok x, t') \<Rightarrow> f (Inr x) t' | (Err e, t') \<Rightarrow> f (Inl e) t' | (Panic, t') \<Rightarrow> (Panic, t'))"
  by (simp add: io_bind_def io_try_def split: prod.split outcome.split)

lemma io_bind_call:
  "io_bind (io_call c resp) f t =
     (case resp (t @ [c]) of Inl e \<Rightarrow> (Err e, t @ [c]) | Inr x \<Rightarrow> f x (t @ [c]))"
  by (simp add: io_bind_def io_call_def split: sum.split)

lemma io_bind_try_call:
  "io_bind (io_try (io_call c resp)) f t = f (resp (t @ [c])) (t @ [c])"
  by (simp add: io_bind_def io_try_def io_call_def split: sum.split)

lemma io_bind_assoc: "io_bind (io_bind m f) g = io_bind m (\<lambda>x. io_bind (f x) g)"
  by (rule ext) (simp add: io_bind_def split: prod.splits outcome.splits)

lemma io_bind_Ok_iff:
  "io_bind m f t = (Ok y, t') \<longleftrightarrow> (\<exists>x t1. m t = (Ok x, t1) \<and> f x t1 = (Ok y, t'))"
  by (auto simp: io_bind_def split: prod.split outcome.split)

lemma io_wrap_Ok_iff [simp]: "io_wrap w m t = (Ok y, t') \<longleftrightarrow> m t = (Ok y, t')"
  by (auto simp: io_wrap_def split: prod.split)

lemma io_return_iff [simp]: "io_return x t = (Ok y, t') \<longleftrightarrow> x = y \<and> t = t'"
  by (auto simp: io_return_def)

lemma io_call_Ok_iff: "io_call c resp t = (Ok x, t') \<longleftrightarrow> t' = t @ [c] \<and> resp t' = Inr x"
  by (auto simp: io_call_def split: sum.split)

lemma io_lift_Ok_iff: "io_lift r t = (Ok x, t') \<longleftrightarrow> r = Ok x \<and> t' = t"
  by (auto simp: io_lift_def)

lemma io_mapM_Ok:
  "io_mapM f xs t = (Ok ys, t') \<Longrightarrow> list_all2 (\<lambda>x y. \<exists>t t'. f x t = (Ok y, t')) xs ys"
proof (induction xs arbitrary: ys t)
  case (Cons x xs)
  then show ?case by (fastforce simp: io_bind_Ok_iff)
qed simp

subsection \<open>Which calls a computation makes\<close>

text \<open>
  \<open>emits P m\<close>: whatever happened before and whatever the environment answers, \<open>m\<close> only
  extends the trace, and every call it adds satisfies \<open>P\<close>.
\<close>

definition emits :: "('c \<Rightarrow> bool) \<Rightarrow> ('c, 'a) io \<Rightarrow> bool" where
  "emits P m \<longleftrightarrow> (\<forall>t. \<exists>s. snd (m t) = t @ s \<and> list_all P s)"

lemma emitsI: "(\<And>t. \<exists>s. snd (m t) = t @ s \<and> list_all P s) \<Longrightarrow> emits P m"
  by (simp add: emits_def)

lemma emitsE:
  assumes "emits P m"
  obtains s where "snd (m t) = t @ s" and "list_all P s"
  using assms by (auto simp: emits_def)

lemma emits_mono: "emits P m \<Longrightarrow> (\<And>c. P c \<Longrightarrow> Q c) \<Longrightarrow> emits Q m"
  unfolding emits_def by (metis (mono_tags, lifting) list_all_iff)

lemma emits_return [emits_intros]: "emits P (io_return x)"
  by (simp add: emits_def io_return_def)

lemma emits_fail [emits_intros]: "emits P (io_fail e)"
  by (simp add: emits_def io_fail_def)

lemma emits_lift [emits_intros]: "emits P (io_lift r)"
  by (simp add: emits_def io_lift_def)

lemma emits_call [emits_intros]: "P c \<Longrightarrow> emits P (io_call c resp)"
  by (simp add: emits_def io_call_def)

lemma emits_bind_Ok:
  assumes m: "emits P m" and f: "\<And>x t t'. m t = (Ok x, t') \<Longrightarrow> emits P (f x)"
  shows "emits P (io_bind m f)"
proof (rule emitsI)
  fix t
  obtain r t' where mt: "m t = (r, t')" by (cases "m t")
  from m obtain s where s: "t' = t @ s" "list_all P s"
    by (rule emitsE [where t = t]) (simp add: mt)
  show "\<exists>s. snd (io_bind m f t) = t @ s \<and> list_all P s"
  proof (cases r)
    case (Ok x)
    from f [of t x t'] mt Ok have "emits P (f x)" by simp
    then obtain s' where "snd (f x t') = t' @ s'" "list_all P s'"
      by (rule emitsE [where t = t'])
    with s mt Ok show ?thesis by (intro exI [of _ "s @ s'"]) (simp add: io_bind_def)
  qed (use s mt in \<open>simp_all add: io_bind_def\<close>)
qed

lemma emits_bind [emits_intros]: "emits P m \<Longrightarrow> (\<And>x. emits P (f x)) \<Longrightarrow> emits P (io_bind m f)"
  by (rule emits_bind_Ok)

lemma emits_try [emits_intros]: "emits P m \<Longrightarrow> emits P (io_try m)"
  unfolding emits_def io_try_def by (auto split: prod.splits outcome.splits) (metis snd_conv)+

lemma emits_wrap [emits_intros]: "emits P m \<Longrightarrow> emits P (io_wrap w m)"
  unfolding emits_def io_wrap_def by (auto split: prod.splits) (metis snd_conv)

lemma emits_mapM [emits_intros]:
  "(\<And>x. x \<in> set xs \<Longrightarrow> emits P (f x)) \<Longrightarrow> emits P (io_mapM f xs)"
  by (induction xs) (auto intro!: emits_intros)

lemma emits_foldM [emits_intros]:
  "(\<And>s x. x \<in> set xs \<Longrightarrow> emits P (f s x)) \<Longrightarrow> emits P (io_foldM f s xs)"
  by (induction xs arbitrary: s) (auto intro!: emits_intros)

lemma emits_if [emits_intros]:
  "(b \<Longrightarrow> emits P m) \<Longrightarrow> (\<not> b \<Longrightarrow> emits P n) \<Longrightarrow> emits P (if b then m else n)"
  by simp

lemma emits_option [emits_intros]:
  "(x = None \<Longrightarrow> emits P m) \<Longrightarrow> (\<And>y. x = Some y \<Longrightarrow> emits P (f y)) \<Longrightarrow>
   emits P (case x of None \<Rightarrow> m | Some y \<Rightarrow> f y)"
  by (cases x) auto

lemma emits_sum [emits_intros]:
  "(\<And>e. x = Inl e \<Longrightarrow> emits P (f e)) \<Longrightarrow> (\<And>y. x = Inr y \<Longrightarrow> emits P (g y)) \<Longrightarrow>
   emits P (case x of Inl e \<Rightarrow> f e | Inr y \<Rightarrow> g y)"
  by (cases x) auto

lemma emits_prod [emits_intros]:
  "(\<And>a b. x = (a, b) \<Longrightarrow> emits P (f a b)) \<Longrightarrow> emits P (case x of (a, b) \<Rightarrow> f a b)"
  by (cases x) auto

lemma emits_run: "emits P m \<Longrightarrow> list_all P (run_calls m)"
  unfolding run_calls_def by (erule emitsE [where t = "[]"]) simp

section \<open>Computations in phases\<close>

text \<open>
  \<open>phased P C R m t\<close>: run from the trace \<open>t\<close>, \<open>m\<close> adds requests that satisfy \<open>P\<close>, up to a single
  request that satisfies \<open>C\<close> at its point of the trace, after which all satisfy \<open>R\<close>.
\<close>

definition phased ::
    "('c \<Rightarrow> bool) \<Rightarrow> ('c list \<Rightarrow> 'c \<Rightarrow> bool) \<Rightarrow> ('c \<Rightarrow> bool) \<Rightarrow> ('c, 'a) io \<Rightarrow> 'c list \<Rightarrow> bool" where
  "phased P C R m t \<longleftrightarrow> (\<exists>pre post. snd (m t) = t @ pre @ post \<and> list_all P pre \<and>
     (post = [] \<or> (\<exists>c s. post = c # s \<and> C (t @ pre) c \<and> list_all R s)))"

lemma phased_emits: "emits P m \<Longrightarrow> phased P C R m t"
  unfolding phased_def emits_def by (metis append_Nil2)

lemma phased_bind:
  assumes m: "emits P m" and f: "\<And>x t'. m t = (Ok x, t') \<Longrightarrow> phased P C R (f x) t'"
  shows "phased P C R (io_bind m f) t"
proof -
  obtain r t' where mt: "m t = (r, t')" by (cases "m t")
  from m obtain s where s: "t' = t @ s" "list_all P s"
    by (rule emitsE [where t = t]) (simp add: mt)
  show ?thesis
  proof (cases r)
    case (Ok x)
    from f [of x t'] mt Ok obtain pre post where p: "snd (f x t') = t' @ pre @ post" "list_all P pre"
      "post = [] \<or> (\<exists>c s. post = c # s \<and> C (t' @ pre) c \<and> list_all R s)"
      unfolding phased_def by blast
    have "snd (io_bind m f t) = t @ (s @ pre) @ post"
      using p(1) s(1) mt Ok by (simp add: io_bind_def)
    moreover have "list_all P (s @ pre)" using s p by simp
    moreover have "t @ (s @ pre) = t' @ pre" using s by simp
    ultimately show ?thesis using p(3) unfolding phased_def by metis
  next
    case (Err e)
    with s mt show ?thesis
      unfolding phased_def by (intro exI [of _ s] exI [of _ "[]"]) (simp add: io_bind_def)
  next
    case Panic
    with s mt show ?thesis
      unfolding phased_def by (intro exI [of _ s] exI [of _ "[]"]) (simp add: io_bind_def)
  qed
qed

text \<open>The request that separates the phases.\<close>

lemma phased_single:
  assumes m: "snd (m t) = t @ [c]" and c: "C t c" and f: "\<And>x. emits R (f x)"
  shows "phased P C R (io_bind m f) t"
proof -
  obtain r where mt: "m t = (r, t @ [c])" using m by (cases "m t") simp
  show ?thesis
  proof (cases r)
    case (Ok x)
    from f [of x] obtain s where "snd (f x (t @ [c])) = (t @ [c]) @ s" "list_all R s"
      by (rule emitsE [where t = "t @ [c]"])
    with c mt Ok show ?thesis
      unfolding phased_def by (intro exI [of _ "[]"] exI [of _ "c # s"]) (simp add: io_bind_def)
  next
    case (Err e)
    with c mt show ?thesis
      unfolding phased_def by (intro exI [of _ "[]"] exI [of _ "[c]"]) (simp add: io_bind_def)
  next
    case Panic
    with c mt show ?thesis
      unfolding phased_def by (intro exI [of _ "[]"] exI [of _ "[c]"]) (simp add: io_bind_def)
  qed
qed

lemma snd_call [simp]:
  "snd (io_call c resp t) = t @ [c]" "snd (io_try m t) = snd (m t)" "snd (io_wrap w m t) = snd (m t)"
  by (simp_all add: io_call_def io_try_def io_wrap_def split: prod.split outcome.split)

section \<open>Go maps\<close>

text \<open>
  A Go map is an association list with distinct keys; \<open>map_of\<close> reads it, \<open>AList.update\<close>
  assigns, \<open>AList.delete\<close> removes. Iterating over a map visits every key exactly once in an
  unspecified order: the order is an argument of every definition whose result could depend on
  it, and the properties hold for each order (\<open>is_order\<close>).
\<close>

type_synonym ('k, 'v) gomap = "('k \<times> 'v) list"

type_synonym 'k order = "'k list \<Rightarrow> 'k list"

definition is_order :: "'k order \<Rightarrow> bool" where
  "is_order ord \<longleftrightarrow> (\<forall>xs. mset (ord xs) = mset xs)"

abbreviation keys :: "('k, 'v) gomap \<Rightarrow> 'k list" where
  "keys m \<equiv> map fst m"

definition wf_map :: "('k, 'v) gomap \<Rightarrow> bool" where
  "wf_map m \<longleftrightarrow> distinct (keys m)"

definition map_get :: "('k, 'v) gomap \<Rightarrow> 'k \<Rightarrow> 'v \<Rightarrow> 'v" where
  "map_get m k d = (case map_of m k of None \<Rightarrow> d | Some v \<Rightarrow> v)"

definition map_range :: "'k order \<Rightarrow> ('k, 'v) gomap \<Rightarrow> ('k \<times> 'v) list" where
  "map_range ord m = map (\<lambda>k. (k, the (map_of m k))) (ord (keys m))"

definition map_eq :: "('k, 'v) gomap \<Rightarrow> ('k, 'v) gomap \<Rightarrow> bool" where
  "map_eq m n \<longleftrightarrow> list_all (\<lambda>k. map_of m k = map_of n k) (keys m @ keys n)"

lemma is_order_id [simp]: "is_order (\<lambda>xs. xs)"
  by (simp add: is_order_def)

lemma is_order_rev [simp]: "is_order rev"
  by (simp add: is_order_def)

lemma order_set: "is_order ord \<Longrightarrow> set (ord xs) = set xs"
  by (metis is_order_def mset_eq_setD)

lemma order_distinct: "is_order ord \<Longrightarrow> distinct (ord xs) = distinct xs"
  by (metis is_order_def mset_eq_imp_distinct_iff)

lemma order_length: "is_order ord \<Longrightarrow> length (ord xs) = length xs"
  by (metis is_order_def mset_eq_length)

lemma map_eq_iff: "map_eq m n \<longleftrightarrow> map_of m = map_of n"
proof
  assume eq: "map_eq m n"
  show "map_of m = map_of n"
  proof (rule ext)
    fix k
    show "map_of m k = map_of n k"
    proof (cases "k \<in> set (keys m @ keys n)")
      case True with eq show ?thesis by (auto simp: map_eq_def list_all_iff)
    next
      case False
      then have "map_of m k = None" "map_of n k = None" by (auto simp: map_of_eq_None_iff)
      then show ?thesis by simp
    qed
  qed
qed (simp add: map_eq_def list_all_iff)

lemma update_fresh: "k \<notin> set (keys m) \<Longrightarrow> AList.update k v m = m @ [(k, v)]"
  by (induction m) auto

lemma wf_map_Nil [simp]: "wf_map []"
  by (simp add: wf_map_def)

lemma wf_map_update [simp]: "wf_map m \<Longrightarrow> wf_map (AList.update k v m)"
  by (simp add: wf_map_def distinct_update)

lemma wf_map_delete [simp]: "wf_map m \<Longrightarrow> wf_map (AList.delete k m)"
  by (simp add: wf_map_def distinct_delete)

lemma wf_map_fold_update:
  "wf_map m \<Longrightarrow> wf_map (fold (\<lambda>(k, v) m. AList.update k v m) kvs m)"
  by (induction kvs arbitrary: m) (auto split: prod.splits)

lemma map_of_fold_update:
  "map_of (fold (\<lambda>(k, v) m. AList.update k v m) kvs m) = map_of m ++ map_of (rev kvs)"
  by (induction kvs arbitrary: m)
     (auto simp: update_conv' map_add_def fun_eq_iff split: prod.splits option.splits)

lemma map_of_rev_wf: "wf_map m \<Longrightarrow> map_of (rev m) = map_of m"
  unfolding wf_map_def by (rule map_of_inject_set [THEN iffD2]) (simp_all flip: rev_map)

lemma map_range_keys: "map fst (map_range ord m) = ord (keys m)"
  by (simp add: map_range_def comp_def)

lemma mset_map_range:
  assumes "is_order ord" and "wf_map m"
  shows "mset (map_range ord m) = mset m"
proof -
  have "mset (map_range ord m) = image_mset (\<lambda>k. (k, the (map_of m k))) (mset (keys m))"
    using assms(1) by (simp add: map_range_def is_order_def)
  also have "\<dots> = mset (map (\<lambda>p. (fst p, the (map_of m (fst p)))) m)"
    by (simp add: multiset.map_comp comp_def)
  also have "map (\<lambda>p. (fst p, the (map_of m (fst p)))) m = m"
    using assms(2) by (intro map_idI) (auto simp: wf_map_def)
  finally show ?thesis .
qed

lemma set_map_range: "is_order ord \<Longrightarrow> wf_map m \<Longrightarrow> set (map_range ord m) = set m"
  by (metis mset_map_range set_mset_mset)

lemma length_map_range: "is_order ord \<Longrightarrow> length (map_range ord m) = length m"
  by (simp add: map_range_def order_length)

lemma distinct_map_range:
  "is_order ord \<Longrightarrow> wf_map m \<Longrightarrow> distinct (map fst (map_range ord m))"
  by (simp add: map_range_keys order_distinct wf_map_def)

lemma map_of_map_range:
  assumes "is_order ord" and "wf_map m"
  shows "map_of (map_range ord m) = map_of m"
  using assms by (intro map_of_inject_set [THEN iffD2])
    (auto simp: distinct_map_range set_map_range wf_map_def)

section \<open>Slices\<close>

text \<open>The accumulation idiom \<open>if !Contains(xs, x) \{ xs = append(xs, x) \}\<close>.\<close>

definition add_if_absent :: "'a list \<Rightarrow> 'a \<Rightarrow> 'a list" where
  "add_if_absent xs x = (if x \<in> set xs then xs else xs @ [x])"

definition add_all_absent :: "'a list \<Rightarrow> 'a list \<Rightarrow> 'a list" where
  "add_all_absent xs ys = foldl add_if_absent xs ys"

lemma set_add_if_absent [simp]: "set (add_if_absent xs x) = insert x (set xs)"
  by (auto simp: add_if_absent_def)

lemma distinct_add_if_absent [simp]: "distinct (add_if_absent xs x) = distinct xs"
  by (auto simp: add_if_absent_def)

lemma set_add_all_absent [simp]: "set (add_all_absent xs ys) = set xs \<union> set ys"
  unfolding add_all_absent_def by (induction ys arbitrary: xs) auto

lemma distinct_add_all_absent [simp]: "distinct (add_all_absent xs ys) = distinct xs"
  unfolding add_all_absent_def by (induction ys arbitrary: xs) auto

lemma add_all_absent_Nil [simp]: "add_all_absent xs [] = xs"
  by (simp add: add_all_absent_def)

lemma add_all_absent_subset: "set ys \<subseteq> set xs \<Longrightarrow> add_all_absent xs ys = xs"
  unfolding add_all_absent_def by (induction ys arbitrary: xs) (auto simp: add_if_absent_def)

end
