(* ===== verification/Go_Strings.thy ===== *)
theory Go_Strings
  imports Go_Prelude "HOL-Library.Sublist" "HOL-Library.Char_ord" "HOL-Library.List_Lexorder"
begin

text \<open>
  The parts of the Go standard library for strings that the controller uses: \<open>strings.Split\<close>,
  \<open>strings.Join\<close>, \<open>strings.ReplaceAll\<close>, prefixes and suffixes, iteration over a string with
  \<open>range\<close> (by UTF-8 rune), and \<open>strconv.ParseInt\<close>. A Go string is a sequence of bytes, here a
  list of characters of eight bits each; comparison of strings is lexicographic on the bytes,
  the order of \<open>List_Lexorder\<close> over \<open>Char_ord\<close>.
\<close>

section \<open>Splitting and joining\<close>

text \<open>\<open>strings.Split(s, sep)\<close> for a separator of one byte, the only kind the code uses.\<close>

fun go_split :: "char \<Rightarrow> string \<Rightarrow> string list" where
  "go_split c [] = [[]]"
| "go_split c (x # xs) =
     (if x = c then [] # go_split c xs
      else (case go_split c xs of [] \<Rightarrow> [[x]] | p # ps \<Rightarrow> (x # p) # ps))"

fun go_join :: "string \<Rightarrow> string list \<Rightarrow> string" where
  "go_join sep [] = []"
| "go_join sep [p] = p"
| "go_join sep (p # q # ps) = p @ sep @ go_join sep (q # ps)"

lemma go_split_not_Nil [simp]: "go_split c s \<noteq> []"
  by (cases s) (auto split: list.splits)

lemma go_split_no_sep [go_simps]: "c \<notin> set s \<Longrightarrow> go_split c s = [s]"
  by (induction s) auto

lemma go_split_append [go_simps]:
  "c \<notin> set p \<Longrightarrow> go_split c (p @ c # s) = p # go_split c s"
  by (induction p) auto

lemma go_join_Cons_Cons [simp]: "go_join sep ((x # p) # ps) = x # go_join sep (p # ps)"
  by (cases ps) auto

lemma go_join_split: "go_join [c] (go_split c s) = s"
proof (induction s)
  case (Cons x xs)
  then show ?case by (cases "go_split c xs") auto
qed simp

lemma go_split_parts: "p \<in> set (go_split c s) \<Longrightarrow> c \<notin> set p"
proof (induction s arbitrary: p)
  case (Cons x xs)
  then show ?case
    by (cases "go_split c xs") (auto split: if_splits)
qed simp

lemma go_split_join:
  "ps \<noteq> [] \<Longrightarrow> (\<And>p. p \<in> set ps \<Longrightarrow> c \<notin> set p) \<Longrightarrow> go_split c (go_join [c] ps) = ps"
  by (induction "[c]" ps rule: go_join.induct) (auto simp: go_simps)

lemma length_go_split: "length (go_split c s) = Suc (count_list s c)"
proof (induction s)
  case (Cons x xs)
  then show ?case by (cases "go_split c xs") auto
qed simp

lemma go_split_hd_length: "length (hd (go_split c s)) \<le> length s"
proof (induction s)
  case (Cons x xs)
  then show ?case by (cases "go_split c xs") auto
qed simp

lemma go_split_nth1_ok: "c \<in> set s \<Longrightarrow> 1 < length (go_split c s)"
  by (simp add: length_go_split count_list_0_iff flip: neq0_conv)

lemma go_split_single: "c \<notin> set s \<Longrightarrow> length (go_split c s) = 1"
  by (simp add: go_split_no_sep)

section \<open>Prefixes, suffixes, replacement\<close>

definition has_prefix :: "string \<Rightarrow> string \<Rightarrow> bool" where
  "has_prefix s p = prefix p s"

definition has_suffix :: "string \<Rightarrow> string \<Rightarrow> bool" where
  "has_suffix s p = suffix p s"

definition str_contains :: "string \<Rightarrow> string \<Rightarrow> bool" where
  "str_contains s sub = sublist sub s"

definition trim_suffix :: "string \<Rightarrow> string \<Rightarrow> string" where
  "trim_suffix s p = (if has_suffix s p then take (length s - length p) s else s)"

text \<open>
  \<open>strings.ReplaceAll(s, old, new)\<close>: non-overlapping occurrences from the left. Every call of
  the code has a non-empty constant \<open>old\<close>; the empty one is not modelled.
\<close>

function replace_all :: "string \<Rightarrow> string \<Rightarrow> string \<Rightarrow> string" where
  "replace_all s old new =
     (if old = [] \<or> s = [] then s
      else if prefix old s then new @ replace_all (drop (length old) s) old new
      else hd s # replace_all (tl s) old new)"
  by pat_completeness auto
termination
  by (relation "measure (\<lambda>(s, old, new). length s)") auto

declare replace_all.simps [simp del]

lemma replace_all_Nil [simp]: "replace_all [] old new = []"
  by (simp add: replace_all.simps)

lemma replace_all_step [go_simps]:
  "replace_all (x # s) (c # old) new =
     (if prefix (c # old) (x # s) then new @ replace_all (drop (length old) s) (c # old) new
      else x # replace_all s (c # old) new)"
  by (simp add: replace_all.simps [of "x # s"])

lemma replace_all_absent: "\<not> sublist old s \<Longrightarrow> replace_all s old new = s"
proof (induction s)
  case (Cons x s)
  then have "\<not> prefix old (x # s)" "\<not> sublist old s"
    by (auto simp: sublist_Cons_right)
  with Cons.IH show ?case by (simp add: replace_all.simps [of "x # s"])
qed simp

lemma replace_all_same [simp]: "old \<noteq> [] \<Longrightarrow> replace_all old old new = new"
  by (simp add: replace_all.simps [of old])

lemma trim_suffix_append [simp]: "trim_suffix (s @ p) p = s"
  by (simp add: trim_suffix_def has_suffix_def suffix_def)

lemma trim_suffix_id: "\<not> has_suffix s p \<Longrightarrow> trim_suffix s p = s"
  by (simp add: trim_suffix_def)

lemma has_suffix_snoc [go_simps]: "has_suffix (s @ [x]) [y] \<longleftrightarrow> x = y"
  by (auto simp: has_suffix_def)

lemma has_suffix_single: "has_suffix s [y] \<longleftrightarrow> s \<noteq> [] \<and> last s = y"
  by (cases s rule: rev_cases) (auto simp: has_suffix_def)

section \<open>Iteration over a string\<close>

text \<open>
  \<open>for idx := range s\<close> visits the byte offsets at which a rune starts. A byte that does not
  start a valid UTF-8 sequence is a rune of width one.
\<close>

definition byte_at :: "string \<Rightarrow> nat \<Rightarrow> nat" where
  "byte_at s i = (if i < length s then of_char (s ! i) else 0)"

definition cont_byte :: "string \<Rightarrow> nat \<Rightarrow> bool" where
  "cont_byte s i \<longleftrightarrow> 128 \<le> byte_at s i \<and> byte_at s i \<le> 191"

definition rune_width :: "string \<Rightarrow> nat" where
  "rune_width s =
     (let b = byte_at s 0; c = byte_at s 1 in
      if 194 \<le> b \<and> b \<le> 223 \<and> cont_byte s 1 then 2
      else if b = 224 \<and> 160 \<le> c \<and> c \<le> 191 \<and> cont_byte s 2 then 3
      else if b = 237 \<and> 128 \<le> c \<and> c \<le> 159 \<and> cont_byte s 2 then 3
      else if 225 \<le> b \<and> b \<le> 239 \<and> b \<noteq> 237 \<and> cont_byte s 1 \<and> cont_byte s 2 then 3
      else if b = 240 \<and> 144 \<le> c \<and> c \<le> 191 \<and> cont_byte s 2 \<and> cont_byte s 3 then 4
      else if 241 \<le> b \<and> b \<le> 243 \<and> cont_byte s 1 \<and> cont_byte s 2 \<and> cont_byte s 3 then 4
      else if b = 244 \<and> 128 \<le> c \<and> c \<le> 143 \<and> cont_byte s 2 \<and> cont_byte s 3 then 4
      else 1)"

lemma rune_width_pos: "0 < rune_width s"
  by (simp add: rune_width_def Let_def)

function rune_starts_from :: "nat \<Rightarrow> string \<Rightarrow> nat list" where
  "rune_starts_from k s =
     (if s = [] then [] else k # rune_starts_from (k + rune_width s) (drop (rune_width s) s))"
  by pat_completeness auto
termination
  by (relation "measure (\<lambda>(k, s). length s)") (auto simp: rune_width_pos)

declare rune_starts_from.simps [simp del]

definition rune_starts :: "string \<Rightarrow> nat list" where
  "rune_starts s = rune_starts_from 0 s"

definition ascii :: "string \<Rightarrow> bool" where
  "ascii s \<longleftrightarrow> list_all (\<lambda>c. of_char c < (128 :: nat)) s"

lemma ascii_simps [simp]: "ascii []" "ascii (x # s) \<longleftrightarrow> of_char x < (128 :: nat) \<and> ascii s"
  by (simp_all add: ascii_def)

lemma rune_width_ascii: "s \<noteq> [] \<Longrightarrow> ascii s \<Longrightarrow> rune_width s = 1"
  by (cases s) (auto simp: rune_width_def byte_at_def Let_def)

lemma rune_starts_from_ascii: "ascii s \<Longrightarrow> rune_starts_from k s = [k..<k + length s]"
proof (induction s arbitrary: k)
  case Nil
  then show ?case by (simp add: rune_starts_from.simps)
next
  case (Cons x s)
  then show ?case
    by (simp add: rune_starts_from.simps [of k "x # s"] rune_width_ascii upt_conv_Cons
        del: upt_Suc)
qed

lemma rune_starts_ascii: "ascii s \<Longrightarrow> rune_starts s = [0..<length s]"
  by (simp add: rune_starts_def rune_starts_from_ascii)

lemma rune_starts_from_bound: "i \<in> set (rune_starts_from k s) \<Longrightarrow> k \<le> i \<and> i < k + length s"
proof (induction k s rule: rune_starts_from.induct)
  case (1 k s)
  show ?case
  proof (cases "s = []")
    case True
    with "1.prems" show ?thesis by (simp add: rune_starts_from.simps)
  next
    case False
    with "1.prems" consider "i = k"
      | "i \<in> set (rune_starts_from (k + rune_width s) (drop (rune_width s) s))"
      by (auto simp: rune_starts_from.simps [of k s])
    then show ?thesis
      using "1.IH" [OF False] False rune_width_pos [of s] by cases fastforce+
  qed
qed

lemma rune_starts_bound: "i \<in> set (rune_starts s) \<Longrightarrow> i < length s"
  using rune_starts_from_bound [of i 0 s] by (simp add: rune_starts_def)

section \<open>Parsing integers\<close>

text \<open>
  The value part of \<open>strconv.ParseInt(s, 10, 64)\<close> with the error dropped: 0 on a syntax error,
  the nearest bound of the 64-bit range when the number does not fit.
\<close>

definition max_int64 :: int where "max_int64 = 2 ^ 63 - 1"
definition min_int64 :: int where "min_int64 = - (2 ^ 63)"

definition is_digit :: "char \<Rightarrow> bool" where
  "is_digit c \<longleftrightarrow> 48 \<le> (of_char c :: nat) \<and> (of_char c :: nat) \<le> 57"

definition digit_val :: "char \<Rightarrow> int" where
  "digit_val c = of_char c - 48"

definition decimal_val :: "string \<Rightarrow> int" where
  "decimal_val ds = foldl (\<lambda>n d. 10 * n + digit_val d) 0 ds"

definition parse_int64 :: "string \<Rightarrow> int" where
  "parse_int64 s =
     (let (neg, ds) = (case s of
          [] \<Rightarrow> (False, [])
        | c # cs \<Rightarrow> if c = CHR ''-'' then (True, cs) else if c = CHR ''+'' then (False, cs) else (False, s))
      in if ds = [] \<or> \<not> list_all is_digit ds then 0
         else if neg then max min_int64 (- decimal_val ds)
         else min max_int64 (decimal_val ds))"

lemma decimal_val_nonneg: "list_all is_digit ds \<Longrightarrow> 0 \<le> decimal_val ds"
proof (induction ds rule: rev_induct)
  case (snoc d ds)
  moreover from snoc.prems have "48 \<le> (of_char d :: nat)" by (simp add: is_digit_def)
  then have "0 \<le> digit_val d"
    unfolding digit_val_def by (metis diff_ge_0_iff_ge of_nat_le_iff of_nat_numeral of_nat_of_char)
  ultimately show ?case by (simp add: decimal_val_def)
qed (simp add: decimal_val_def)

lemma parse_int64_bounds: "min_int64 \<le> parse_int64 s \<and> parse_int64 s \<le> max_int64"
proof -
  have "min_int64 \<le> 0" "0 \<le> max_int64"
    by (simp_all add: min_int64_def max_int64_def)
  then show ?thesis
    unfolding parse_int64_def
    by (auto simp: Let_def split: prod.split dest!: decimal_val_nonneg)
qed

end
