(* ===== verification/Function_Assoc.thy ===== *)
theory Function_Assoc
  imports Go_Strings
begin

text \<open>
  \<open>internal/k8s/function_association.go\<close>: the CloudFront and Lambda@Edge functions a user
  associates with a path, their validation, and the merge of the associations that several
  Ingresses declare for the same path. Pointers that may be nil are options; the YAML parser is
  an argument of the functions that call it (see \<open>Ingress_Model\<close>).
\<close>

section \<open>Data\<close>

type_synonym function_type = string

definition FunctionTypeEdge :: function_type where "FunctionTypeEdge = ''edge''"
definition FunctionTypeCloudfront :: function_type where "FunctionTypeCloudfront = ''cloudfront''"

record viewer_function =
  vf_arn :: string
  vf_type :: function_type

record viewer_request_function =
  vrf_fn :: viewer_function
  vrf_include_body :: bool

record origin_function =
  orf_arn :: string

record origin_request_function =
  oqf_fn :: origin_function
  oqf_include_body :: bool

record function_associations =
  fa_viewer_request :: "viewer_request_function option"
  fa_viewer_response :: "viewer_function option"
  fa_origin_request :: "origin_request_function option"
  fa_origin_response :: "origin_function option"

definition empty_fa :: function_associations where
  "empty_fa = \<lparr>fa_viewer_request = None, fa_viewer_response = None,
     fa_origin_request = None, fa_origin_response = None\<rparr>"

section \<open>Validation\<close>

definition ViewerFunction_validate :: "viewer_function option \<Rightarrow> go_error option" where
  "ViewerFunction_validate f = (case f of
     None \<Rightarrow> None
   | Some f \<Rightarrow>
       if length (vf_arn f) = 0 then Some (Errorf ''function arn must be informed'' [])
       else if vf_type f \<noteq> FunctionTypeEdge \<and> vf_type f \<noteq> FunctionTypeCloudfront
       then Some (Errorf ''invalid function type'' [vf_type f])
       else None)"

definition ViewerRequestFunction_validate :: "viewer_request_function option \<Rightarrow> go_error option" where
  "ViewerRequestFunction_validate f = (case f of
     None \<Rightarrow> None
   | Some f \<Rightarrow>
       (case ViewerFunction_validate (Some (vrf_fn f)) of
          Some err \<Rightarrow> Some err
        | None \<Rightarrow>
            if vf_type (vrf_fn f) = FunctionTypeCloudfront \<and> vrf_include_body f
            then Some (Errorf ''includeBody is only supported for functionType'' [FunctionTypeEdge])
            else None))"

definition isCompatibleWith :: "viewer_request_function option \<Rightarrow> viewer_function option \<Rightarrow> bool" where
  "isCompatibleWith f response = (case (f, response) of
     (Some f, Some r) \<Rightarrow> vf_type (vrf_fn f) = vf_type r
   | _ \<Rightarrow> True)"

definition OriginFunction_validate :: "origin_function option \<Rightarrow> go_error option" where
  "OriginFunction_validate f = (case f of
     None \<Rightarrow> None
   | Some f \<Rightarrow> if length (orf_arn f) = 0 then Some (Errorf ''function arn must be informed'' []) else None)"

definition OriginRequestFunction_validate :: "origin_request_function option \<Rightarrow> go_error option" where
  "OriginRequestFunction_validate f = (case f of
     None \<Rightarrow> None
   | Some f \<Rightarrow> OriginFunction_validate (Some (oqf_fn f)))"

definition FA_Validate :: "function_associations \<Rightarrow> go_error option" where
  "FA_Validate fa =
     (case ViewerRequestFunction_validate (fa_viewer_request fa) of
        Some err \<Rightarrow> Some (ErrorfV ''invalid viewerRequest'' err)
      | None \<Rightarrow>
     (case ViewerFunction_validate (fa_viewer_response fa) of
        Some err \<Rightarrow> Some (ErrorfV ''invalid viewerResponse'' err)
      | None \<Rightarrow>
     (case OriginRequestFunction_validate (fa_origin_request fa) of
        Some err \<Rightarrow> Some (ErrorfV ''invalid originRequest'' err)
      | None \<Rightarrow>
     (case OriginFunction_validate (fa_origin_response fa) of
        Some err \<Rightarrow> Some (ErrorfV ''invalid originResponse'' err)
      | None \<Rightarrow>
          if \<not> isCompatibleWith (fa_viewer_request fa) (fa_viewer_response fa)
          then Some (Errorf ''different function types informed for viewerResponse and viewerRequest''
                       [FunctionTypeCloudfront, FunctionTypeEdge])
          else None))))"

section \<open>Merging\<close>

definition deepCopy :: "function_associations \<Rightarrow> function_associations" where
  "deepCopy fa =
     \<lparr>fa_viewer_request = (case fa_viewer_request fa of None \<Rightarrow> None | Some v \<Rightarrow>
         Some \<lparr>vrf_fn = \<lparr>vf_arn = vf_arn (vrf_fn v), vf_type = vf_type (vrf_fn v)\<rparr>,
               vrf_include_body = vrf_include_body v\<rparr>),
      fa_viewer_response = (case fa_viewer_response fa of None \<Rightarrow> None | Some v \<Rightarrow>
         Some \<lparr>vf_arn = vf_arn v, vf_type = vf_type v\<rparr>),
      fa_origin_request = (case fa_origin_request fa of None \<Rightarrow> None | Some v \<Rightarrow>
         Some \<lparr>oqf_fn = \<lparr>orf_arn = orf_arn (oqf_fn v)\<rparr>, oqf_include_body = oqf_include_body v\<rparr>),
      fa_origin_response = (case fa_origin_response fa of None \<Rightarrow> None | Some v \<Rightarrow>
         Some \<lparr>orf_arn = orf_arn v\<rparr>)\<rparr>"

definition merge_viewer_request ::
    "viewer_request_function option \<Rightarrow> viewer_request_function option \<Rightarrow>
     viewer_request_function option outcome" where
  "merge_viewer_request a b = (case (a, b) of
     (Some f, Some g) \<Rightarrow>
       if vf_arn (vrf_fn f) \<noteq> vf_arn (vrf_fn g)
       then Err (Errorf ''viewer request function informed twice with different ARNs'' [])
       else if vf_type (vrf_fn f) \<noteq> vf_type (vrf_fn g)
       then Err (Errorf ''viewer request function informed twice with different function types'' [])
       else if vrf_include_body f \<noteq> vrf_include_body g
       then Err (Errorf ''viewer request function informed twice with different body inclusion configuration'' [])
       else Ok a
   | (None, Some g) \<Rightarrow> Ok b
   | _ \<Rightarrow> Ok a)"

definition merge_viewer_response ::
    "viewer_function option \<Rightarrow> viewer_function option \<Rightarrow> viewer_function option outcome" where
  "merge_viewer_response a b = (case (a, b) of
     (Some f, Some g) \<Rightarrow>
       if vf_arn f \<noteq> vf_arn g
       then Err (Errorf ''viewer response function informed twice with different ARNs'' [])
       else if vf_type f \<noteq> vf_type g
       then Err (Errorf ''viewer response function informed twice with different function types'' [])
       else Ok a
   | (None, Some g) \<Rightarrow> Ok b
   | _ \<Rightarrow> Ok a)"

definition merge_origin_request ::
    "origin_request_function option \<Rightarrow> origin_request_function option \<Rightarrow>
     origin_request_function option outcome" where
  "merge_origin_request a b = (case (a, b) of
     (Some f, Some g) \<Rightarrow>
       if orf_arn (oqf_fn f) \<noteq> orf_arn (oqf_fn g)
       then Err (Errorf ''origin request function informed twice with different ARNs'' [])
       else if oqf_include_body f \<noteq> oqf_include_body g
       then Err (Errorf ''origin request function informed twice with different body inclusion configuration'' [])
       else Ok a
   | (None, Some g) \<Rightarrow> Ok b
   | _ \<Rightarrow> Ok a)"

definition merge_origin_response ::
    "origin_function option \<Rightarrow> origin_function option \<Rightarrow> origin_function option outcome" where
  "merge_origin_response a b = (case (a, b) of
     (Some f, Some g) \<Rightarrow>
       if orf_arn f \<noteq> orf_arn g
       then Err (Errorf ''origin response function informed twice with different ARNs'' [])
       else Ok a
   | (None, Some g) \<Rightarrow> Ok b
   | _ \<Rightarrow> Ok a)"

definition FA_Merge ::
    "function_associations \<Rightarrow> function_associations \<Rightarrow> function_associations outcome" where
  "FA_Merge fa other =
     (let merged = deepCopy fa; other = deepCopy other in
      out_bind (merge_viewer_request (fa_viewer_request merged) (fa_viewer_request other)) (\<lambda>vq.
      out_bind (merge_viewer_response (fa_viewer_response merged) (fa_viewer_response other)) (\<lambda>vr.
      out_bind (merge_origin_request (fa_origin_request merged) (fa_origin_request other)) (\<lambda>oq.
      out_bind (merge_origin_response (fa_origin_response merged) (fa_origin_response other)) (\<lambda>or.
      Ok (merged\<lparr>fa_viewer_request := vq, fa_viewer_response := vr,
                 fa_origin_request := oq, fa_origin_response := or\<rparr>))))))"

definition FA_IsEmpty :: "function_associations \<Rightarrow> bool" where
  "FA_IsEmpty fa \<longleftrightarrow> fa_viewer_request fa = None \<and> fa_viewer_response fa = None \<and>
     fa_origin_request fa = None \<and> fa_origin_response fa = None"

definition newFAFromViewerFunctionARN :: "string \<Rightarrow> function_associations" where
  "newFAFromViewerFunctionARN arn =
     empty_fa\<lparr>fa_viewer_request :=
       Some \<lparr>vrf_fn = \<lparr>vf_arn = arn, vf_type = FunctionTypeCloudfront\<rparr>, vrf_include_body = False\<rparr>\<rparr>"

section \<open>The merge as a partial join\<close>

text \<open>
  The specification of the merge: two declarations agree when no function is declared by both
  with different parameters, and their join declares what either declares.
\<close>

definition agree :: "'a option \<Rightarrow> 'a option \<Rightarrow> bool" where
  "agree a b \<longleftrightarrow> (a \<noteq> None \<and> b \<noteq> None \<longrightarrow> a = b)"

definition join :: "'a option \<Rightarrow> 'a option \<Rightarrow> 'a option" where
  "join a b = (if a = None then b else a)"

definition fa_agree :: "function_associations \<Rightarrow> function_associations \<Rightarrow> bool" where
  "fa_agree a b \<longleftrightarrow> agree (fa_viewer_request a) (fa_viewer_request b) \<and>
     agree (fa_viewer_response a) (fa_viewer_response b) \<and>
     agree (fa_origin_request a) (fa_origin_request b) \<and>
     agree (fa_origin_response a) (fa_origin_response b)"

definition fa_join :: "function_associations \<Rightarrow> function_associations \<Rightarrow> function_associations" where
  "fa_join a b = \<lparr>fa_viewer_request = join (fa_viewer_request a) (fa_viewer_request b),
     fa_viewer_response = join (fa_viewer_response a) (fa_viewer_response b),
     fa_origin_request = join (fa_origin_request a) (fa_origin_request b),
     fa_origin_response = join (fa_origin_response a) (fa_origin_response b)\<rparr>"

definition ok_part :: "'a outcome \<Rightarrow> 'a option" where
  "ok_part r = (case r of Ok x \<Rightarrow> Some x | _ \<Rightarrow> None)"

lemma ok_part_simps [simp]: "ok_part (Ok x) = Some x" "ok_part (Err e) = None" "ok_part Panic = None"
  by (simp_all add: ok_part_def)

lemma ok_part_Some_iff: "ok_part r = Some x \<longleftrightarrow> r = Ok x"
  by (cases r) auto

lemma deepCopy_id [simp]: "deepCopy fa = fa"
  by (simp add: deepCopy_def split: option.splits)

lemma merge_slot_ok [simp]:
  "ok_part (merge_viewer_request a b) = (if agree a b then Some (join a b) else None)"
  "ok_part (merge_viewer_response c d) = (if agree c d then Some (join c d) else None)"
  "ok_part (merge_origin_request e f) = (if agree e f then Some (join e f) else None)"
  "ok_part (merge_origin_response g h) = (if agree g h then Some (join g h) else None)"
  by (auto simp: merge_viewer_request_def merge_viewer_response_def merge_origin_request_def
      merge_origin_response_def agree_def join_def split: option.splits)

lemma ok_part_bind: "ok_part (out_bind m f) = Option.bind (ok_part m) (\<lambda>x. ok_part (f x))"
  by (cases m) auto

lemma FA_Merge_ok: "ok_part (FA_Merge a b) = (if fa_agree a b then Some (fa_join a b) else None)"
  by (auto simp: FA_Merge_def ok_part_bind fa_agree_def fa_join_def Let_def)

lemma merge_slot_no_panic [simp]:
  "merge_viewer_request a b \<noteq> Panic" "merge_viewer_response c d \<noteq> Panic"
  "merge_origin_request e f \<noteq> Panic" "merge_origin_response g h \<noteq> Panic"
  by (auto simp: merge_viewer_request_def merge_viewer_response_def merge_origin_request_def
      merge_origin_response_def split: option.splits)

lemma FA_Merge_no_panic [simp]: "FA_Merge a b \<noteq> Panic"
  by (simp add: FA_Merge_def out_bind_Panic_iff Let_def)

text \<open>
  A partial operation that is commutative and associative where it succeeds: folding it over a
  list succeeds, and with the same result, for every order of the list.
\<close>

locale partial_join =
  fixes merge :: "'a \<Rightarrow> 'a \<Rightarrow> 'a outcome"
  assumes comm: "ok_part (merge a b) = ok_part (merge b a)"
    and assoc: "ok_part (out_bind (merge a b) (\<lambda>x. merge x c)) = ok_part (out_bind (merge b c) (\<lambda>x. merge a x))"
    and idem: "merge a a = Ok a"
begin

definition step :: "'a \<Rightarrow> 'a option \<Rightarrow> 'a option" where
  "step x r = Option.bind r (\<lambda>a. ok_part (merge a x))"

lemma step_simps [simp]: "step x None = None" "step x (Some a) = ok_part (merge a x)"
  by (simp_all add: step_def)

lemma fold_step_None: "fold step xs None = None"
  by (induction xs) auto

lemma fold_step: "ok_part (out_foldM merge a xs) = fold step xs (Some a)"
proof (induction xs arbitrary: a)
  case (Cons x xs)
  then show ?case by (cases "merge a x") (auto simp: fold_step_None)
qed simp

lemma step_commute: "step x \<circ> step y = step y \<circ> step x"
proof (rule ext)
  fix r
  have "ok_part (out_bind (merge a x) (\<lambda>z. merge z y)) = ok_part (out_bind (merge a y) (\<lambda>z. merge z x))" for a
    using assoc [of a x y] assoc [of a y x] comm [of x y] by (simp add: ok_part_bind)
  then show "(step x \<circ> step y) r = (step y \<circ> step x) r"
    by (cases r) (simp_all add: step_def ok_part_bind)
qed

lemma fold_order_irrelevant:
  "mset xs = mset ys \<Longrightarrow> ok_part (out_foldM merge a xs) = ok_part (out_foldM merge a ys)"
  unfolding fold_step by (rule fold_multiset_equiv [THEN fun_cong]) (auto simp: step_commute)

lemma merge_absorb: "merge a b = Ok c \<Longrightarrow> merge c b = Ok c"
  using assoc [of a b b] by (simp add: idem ok_part_Some_iff)

lemma fold_absorbs:
  assumes "out_foldM merge a xs = Ok r" and "x \<in> set xs"
  shows "merge r x = Ok r"
proof -
  have "mset xs = mset (remove1 x xs @ [x])" using assms(2) by simp
  then have "ok_part (out_foldM merge a (remove1 x xs @ [x])) = Some r"
    using fold_order_irrelevant assms(1) by (metis ok_part_simps(1))
  then obtain s where "merge s x = Ok r"
    by (auto simp: ok_part_Some_iff out_foldM_append out_bind_Ok_iff)
  then show ?thesis by (rule merge_absorb)
qed

end

lemma agree_join:
  "agree a b \<Longrightarrow> agree (join a b) c \<longleftrightarrow> agree a c \<and> agree b c"
  "agree b c \<Longrightarrow> agree a (join b c) \<longleftrightarrow> agree a b \<and> agree a c"
  by (auto simp: agree_def join_def)

lemma join_assoc: "join (join a b) c = join a (join b c)"
  by (cases a) (simp_all add: join_def)

lemma agree_comm: "agree a b = agree b a"
  by (cases a; cases b) (auto simp: agree_def)

lemma join_comm: "agree a b \<Longrightarrow> join a b = join b a"
  by (cases a; cases b) (auto simp: agree_def join_def)

lemma fa_agree_join:
  "fa_agree a b \<Longrightarrow> fa_agree (fa_join a b) c \<longleftrightarrow> fa_agree a c \<and> fa_agree b c"
  "fa_agree b c \<Longrightarrow> fa_agree a (fa_join b c) \<longleftrightarrow> fa_agree a b \<and> fa_agree a c"
  by (auto simp: fa_agree_def fa_join_def agree_join)

lemma fa_join_assoc: "fa_join (fa_join a b) c = fa_join a (fa_join b c)"
  by (simp add: fa_join_def join_assoc)

lemma fa_agree_comm: "fa_agree a b = fa_agree b a"
  by (simp add: fa_agree_def agree_comm)

lemma fa_join_comm: "fa_agree a b \<Longrightarrow> fa_join a b = fa_join b a"
  by (auto simp: fa_agree_def fa_join_def intro: join_comm)

lemma fa_idem [simp]: "fa_agree a a" "fa_join a a = a"
  by (simp_all add: fa_agree_def fa_join_def agree_def join_def)

interpretation fa: partial_join FA_Merge
proof unfold_locales
  fix a b c
  show "ok_part (FA_Merge a b) = ok_part (FA_Merge b a)"
    by (simp add: FA_Merge_ok fa_agree_comm [of b a] fa_join_comm)
  show "ok_part (out_bind (FA_Merge a b) (\<lambda>x. FA_Merge x c)) =
        ok_part (out_bind (FA_Merge b c) (\<lambda>x. FA_Merge a x))"
    by (auto simp: ok_part_bind FA_Merge_ok fa_agree_join fa_join_assoc)
  show "FA_Merge a a = Ok a"
    using FA_Merge_ok [of a a] by (simp add: ok_part_Some_iff)
qed

lemma FA_Merge_Ok_iff: "FA_Merge a b = Ok c \<longleftrightarrow> fa_agree a b \<and> c = fa_join a b"
  using FA_Merge_ok [of a b] by (auto simp: ok_part_Some_iff split: if_splits)

lemma FA_Merge_Err_iff: "(\<exists>e. FA_Merge a b = Err e) \<longleftrightarrow> \<not> fa_agree a b"
  using FA_Merge_Ok_iff [of a b] FA_Merge_no_panic [of a b] by (cases "FA_Merge a b") auto

lemma FA_Merge_empty [simp]: "FA_Merge empty_fa b = Ok b" "FA_Merge b empty_fa = Ok b"
  by (simp_all add: FA_Merge_Ok_iff fa_agree_def fa_join_def agree_def join_def empty_fa_def)

end
