(* ===== verification/Cf_Function.thy ===== *)
theory Cf_Function
  imports Function_Assoc
begin

text \<open>
  \<open>internal/cloudfront/function.go\<close>: the functions of a behavior, one constructor per Go type
  that implements the interface \<open>Function\<close>, and their construction from the function
  associations of a path.
\<close>

section \<open>Data\<close>

definition EventTypeViewerRequest :: string where "EventTypeViewerRequest = ''viewer-request''"
definition EventTypeViewerResponse :: string where "EventTypeViewerResponse = ''viewer-response''"
definition EventTypeOriginRequest :: string where "EventTypeOriginRequest = ''origin-request''"
definition EventTypeOriginResponse :: string where "EventTypeOriginResponse = ''origin-response''"

lemmas event_types = EventTypeViewerRequest_def EventTypeViewerResponse_def
  EventTypeOriginRequest_def EventTypeOriginResponse_def

datatype cf_function =
    RequestCloudfrontFunction string string
  | RequestEdgeFunction string string bool
  | ResponseCloudfrontFunction string string
  | ResponseEdgeFunction string string

text \<open>The methods of the interface; \<open>IncludeBody\<close> exists for \<open>BodyIncluderFunction\<close> only.\<close>

fun Function_ARN :: "cf_function \<Rightarrow> string" where
  "Function_ARN (RequestCloudfrontFunction arn _) = arn"
| "Function_ARN (RequestEdgeFunction arn _ _) = arn"
| "Function_ARN (ResponseCloudfrontFunction arn _) = arn"
| "Function_ARN (ResponseEdgeFunction arn _) = arn"

fun Function_EventType :: "cf_function \<Rightarrow> string" where
  "Function_EventType (RequestCloudfrontFunction _ et) = et"
| "Function_EventType (RequestEdgeFunction _ et _) = et"
| "Function_EventType (ResponseCloudfrontFunction _ et) = et"
| "Function_EventType (ResponseEdgeFunction _ et) = et"

fun Function_Type :: "cf_function \<Rightarrow> function_type" where
  "Function_Type (RequestCloudfrontFunction _ _) = FunctionTypeCloudfront"
| "Function_Type (RequestEdgeFunction _ _ _) = FunctionTypeEdge"
| "Function_Type (ResponseCloudfrontFunction _ _) = FunctionTypeCloudfront"
| "Function_Type (ResponseEdgeFunction _ _) = FunctionTypeEdge"

fun Function_IncludeBody :: "cf_function \<Rightarrow> bool option" where
  "Function_IncludeBody (RequestEdgeFunction _ _ b) = Some b"
| "Function_IncludeBody _ = None"

section \<open>Construction\<close>

definition newViewerRequestFn :: "viewer_request_function \<Rightarrow> cf_function" where
  "newViewerRequestFn f =
     (if vf_type (vrf_fn f) = FunctionTypeEdge
      then RequestEdgeFunction (vf_arn (vrf_fn f)) EventTypeViewerRequest (vrf_include_body f)
      else RequestCloudfrontFunction (vf_arn (vrf_fn f)) EventTypeViewerRequest)"

definition newViewerResponseFn :: "viewer_function \<Rightarrow> cf_function" where
  "newViewerResponseFn f =
     (if vf_type f = FunctionTypeEdge
      then ResponseEdgeFunction (vf_arn f) EventTypeViewerResponse
      else ResponseCloudfrontFunction (vf_arn f) EventTypeViewerResponse)"

definition newOriginRequestFn :: "origin_request_function \<Rightarrow> cf_function" where
  "newOriginRequestFn f =
     RequestEdgeFunction (orf_arn (oqf_fn f)) EventTypeOriginRequest (oqf_include_body f)"

definition newOriginResponseFn :: "origin_function \<Rightarrow> cf_function" where
  "newOriginResponseFn f = ResponseEdgeFunction (orf_arn f) EventTypeOriginResponse"

definition opt_fn :: "('a \<Rightarrow> cf_function) \<Rightarrow> 'a option \<Rightarrow> cf_function list" where
  "opt_fn mk f = (case f of None \<Rightarrow> [] | Some f \<Rightarrow> [mk f])"

definition NewFunctions :: "function_associations \<Rightarrow> cf_function list" where
  "NewFunctions fa = opt_fn newViewerRequestFn (fa_viewer_request fa) @
     opt_fn newViewerResponseFn (fa_viewer_response fa) @
     opt_fn newOriginRequestFn (fa_origin_request fa) @
     opt_fn newOriginResponseFn (fa_origin_response fa)"

lemma opt_fn_simps [simp]: "opt_fn mk None = []" "opt_fn mk (Some f) = [mk f]"
  by (simp_all add: opt_fn_def)

lemma event_of_constructors [simp]:
  "Function_EventType (newViewerRequestFn vq) = EventTypeViewerRequest"
  "Function_EventType (newViewerResponseFn vr) = EventTypeViewerResponse"
  "Function_EventType (newOriginRequestFn oq) = EventTypeOriginRequest"
  "Function_EventType (newOriginResponseFn orr) = EventTypeOriginResponse"
  by (simp_all add: newViewerRequestFn_def newViewerResponseFn_def newOriginRequestFn_def
      newOriginResponseFn_def)

lemma arn_of_constructors [simp]:
  "Function_ARN (newViewerRequestFn vq) = vf_arn (vrf_fn vq)"
  "Function_ARN (newViewerResponseFn vr) = vf_arn vr"
  "Function_ARN (newOriginRequestFn oq) = orf_arn (oqf_fn oq)"
  "Function_ARN (newOriginResponseFn orr) = orf_arn orr"
  by (simp_all add: newViewerRequestFn_def newViewerResponseFn_def newOriginRequestFn_def
      newOriginResponseFn_def)

text \<open>A behavior built from one association has at most one function per event type.\<close>

lemma NewFunctions_event_types_distinct: "distinct (map Function_EventType (NewFunctions fa))"
  by (cases "fa_viewer_request fa"; cases "fa_viewer_response fa"; cases "fa_origin_request fa";
      cases "fa_origin_response fa") (simp_all add: NewFunctions_def event_types)

lemma NewFunctions_empty_iff: "NewFunctions fa = [] \<longleftrightarrow> FA_IsEmpty fa"
  by (auto simp: NewFunctions_def FA_IsEmpty_def opt_fn_def split: option.splits)

lemma newViewerRequestFn_type:
  "Function_Type (newViewerRequestFn f) =
     (if vf_type (vrf_fn f) = FunctionTypeEdge then FunctionTypeEdge else FunctionTypeCloudfront)"
  by (simp add: newViewerRequestFn_def)

lemma newViewerResponseFn_type:
  "Function_Type (newViewerResponseFn f) =
     (if vf_type f = FunctionTypeEdge then FunctionTypeEdge else FunctionTypeCloudfront)"
  by (simp add: newViewerResponseFn_def)

text \<open>The functions determine the association, once the association has passed validation.\<close>

definition functions_to_fa :: "cf_function list \<Rightarrow> function_associations" where
  "functions_to_fa fs =
     \<lparr>fa_viewer_request = map_option (\<lambda>f. \<lparr>vrf_fn = \<lparr>vf_arn = Function_ARN f, vf_type = Function_Type f\<rparr>,
        vrf_include_body = (Function_IncludeBody f = Some True)\<rparr>)
        (find (\<lambda>f. Function_EventType f = EventTypeViewerRequest) fs),
      fa_viewer_response = map_option (\<lambda>f. \<lparr>vf_arn = Function_ARN f, vf_type = Function_Type f\<rparr>)
        (find (\<lambda>f. Function_EventType f = EventTypeViewerResponse) fs),
      fa_origin_request = map_option (\<lambda>f. \<lparr>oqf_fn = \<lparr>orf_arn = Function_ARN f\<rparr>,
        oqf_include_body = (Function_IncludeBody f = Some True)\<rparr>)
        (find (\<lambda>f. Function_EventType f = EventTypeOriginRequest) fs),
      fa_origin_response = map_option (\<lambda>f. \<lparr>orf_arn = Function_ARN f\<rparr>)
        (find (\<lambda>f. Function_EventType f = EventTypeOriginResponse) fs)\<rparr>"

end
