(* ===== verification/Path_Order.thy ===== *)
theory Path_Order
  imports Go_Strings
begin

text \<open>
  \<open>internal/cloudfront/sort.go\<close>: the order of cache behaviours by path and the order of tags by
  key, with the sorting of the standard library. \<open>sort.Sort\<close> is modelled by its insertion sort
  (the algorithm it runs up to twelve elements); since the library promises no more than an
  ordered permutation, the properties are stated for every ordered permutation as well.
\<close>

section \<open>Sorting\<close>

text \<open>
  \<open>for i := a + 1; i < b; i++ \{ for j := i; j > a && data.Less(j, j-1); j-- \{ data.Swap(j, j-1) \} \}\<close>:
  the sorted prefix is kept in reverse, \<open>sift\<close> moves the next element down.
\<close>

fun sift :: "('a \<Rightarrow> 'a \<Rightarrow> bool) \<Rightarrow> 'a \<Rightarrow> 'a list \<Rightarrow> 'a list" where
  "sift lt x [] = [x]"
| "sift lt x (y # ys) = (if lt x y then y # sift lt x ys else x # y # ys)"

definition go_sort :: "('a \<Rightarrow> 'a \<Rightarrow> bool) \<Rightarrow> 'a list \<Rightarrow> 'a list" where
  "go_sort lt xs = rev (foldl (\<lambda>acc x. sift lt x acc) [] xs)"

text \<open>What a comparison function says of two elements in order: not strictly inverted.\<close>

definition in_order :: "('a \<Rightarrow> 'a \<Rightarrow> bool) \<Rightarrow> 'a \<Rightarrow> 'a \<Rightarrow> bool" where
  "in_order lt a b \<longleftrightarrow> lt a b \<or> \<not> lt b a"

lemma mset_sift [simp]: "mset (sift lt x ys) = add_mset x (mset ys)"
  by (induction ys) auto

lemma set_sift [simp]: "set (sift lt x ys) = insert x (set ys)"
  by (induction ys) auto

lemma mset_go_sort [simp]: "mset (go_sort lt xs) = mset xs"
proof -
  have "mset (foldl (\<lambda>acc x. sift lt x acc) acc xs) = mset acc + mset xs" for acc
    by (induction xs arbitrary: acc) auto
  then show ?thesis by (simp add: go_sort_def)
qed

lemma set_go_sort [simp]: "set (go_sort lt xs) = set xs"
  by (metis mset_go_sort set_mset_mset)

lemma length_go_sort [simp]: "length (go_sort lt xs) = length xs"
  by (metis mset_go_sort size_mset)

lemma go_sort_Nil [simp]: "go_sort lt [] = []"
  by (simp add: go_sort_def)

lemma map_sift: "map k (sift (\<lambda>a b. lt (k a) (k b)) x ys) = sift lt (k x) (map k ys)"
  by (induction ys) auto

lemma map_go_sort: "map k (go_sort (\<lambda>a b. lt (k a) (k b)) xs) = go_sort lt (map k xs)"
proof -
  have "map k (foldl (\<lambda>acc x. sift (\<lambda>a b. lt (k a) (k b)) x acc) acc xs) =
        foldl (\<lambda>acc x. sift lt x acc) (map k acc) (map k xs)" for acc
    by (induction xs arbitrary: acc) (auto simp: map_sift)
  from this [of "[]"] show ?thesis by (simp add: go_sort_def flip: rev_map)
qed

text \<open>
  The contract of a comparison function: on the elements of interest its order is transitive.
  With antisymmetry the sorted list is unique.
\<close>

locale go_less =
  fixes lt :: "'a \<Rightarrow> 'a \<Rightarrow> bool"
    and dom :: "'a \<Rightarrow> bool"
  assumes trans: "dom a \<Longrightarrow> dom b \<Longrightarrow> dom c \<Longrightarrow> in_order lt a b \<Longrightarrow> in_order lt b c \<Longrightarrow> in_order lt a c"
begin

lemma sift_sorted:
  "dom x \<Longrightarrow> list_all dom ys \<Longrightarrow> sorted_wrt (\<lambda>y z. in_order lt z y) ys \<Longrightarrow>
   sorted_wrt (\<lambda>y z. in_order lt z y) (sift lt x ys)"
proof (induction ys)
  case (Cons y ys)
  show ?case
  proof (cases "lt x y")
    case True
    with Cons show ?thesis by (auto simp: in_order_def)
  next
    case False
    then have xy: "in_order lt y x" by (simp add: in_order_def)
    moreover have "in_order lt z x" if "z \<in> set ys" for z
      using Cons.prems that xy trans [of z y x] by (auto simp: list_all_iff)
    ultimately show ?thesis using Cons.prems False by simp
  qed
qed simp

lemma sorted_go_sort: "list_all dom xs \<Longrightarrow> sorted_wrt (in_order lt) (go_sort lt xs)"
proof -
  have "list_all dom acc \<Longrightarrow> list_all dom xs \<Longrightarrow> sorted_wrt (\<lambda>y z. in_order lt z y) acc \<Longrightarrow>
    sorted_wrt (\<lambda>y z. in_order lt z y) (foldl (\<lambda>acc x. sift lt x acc) acc xs)" for acc
  proof (induction xs arbitrary: acc)
    case (Cons x xs)
    then show ?case
      using sift_sorted [of x acc] Cons.IH [of "sift lt x acc"] by (simp add: list_all_iff)
  qed simp
  from this [of "[]"] show "list_all dom xs \<Longrightarrow> ?thesis"
    by (simp add: go_sort_def sorted_wrt_rev)
qed

end

locale go_less_antisym = go_less +
  assumes antisym: "dom a \<Longrightarrow> dom b \<Longrightarrow> in_order lt a b \<Longrightarrow> in_order lt b a \<Longrightarrow> a = b"
begin

lemma sorted_unique:
  "mset xs = mset ys \<Longrightarrow> list_all dom xs \<Longrightarrow> sorted_wrt (in_order lt) xs \<Longrightarrow>
   sorted_wrt (in_order lt) ys \<Longrightarrow> xs = ys"
proof (induction xs arbitrary: ys)
  case Nil
  then show ?case by simp
next
  case (Cons x xs)
  then obtain y ys' where ys: "ys = y # ys'" by (cases ys) auto
  have "set (x # xs) = set (y # ys')"
    using Cons.prems(1) unfolding ys by (rule mset_eq_setD)
  then have "y \<in> set (x # xs)" "x \<in> set (y # ys')" by auto
  moreover from this Cons.prems(2) have dom: "dom x" "dom y" by (auto simp: list_all_iff)
  ultimately have "x = y" using Cons.prems(3,4) ys antisym by auto
  with Cons ys show ?case by simp
qed

lemma sort_canonical:
  assumes "list_all dom xs" and "mset ys = mset xs" and "sorted_wrt (in_order lt) ys"
  shows "ys = go_sort lt xs"
  using assms sorted_go_sort [OF assms(1)]
  by (intro sorted_unique) (auto simp: list_all_iff dest: mset_eq_setD)

end

text \<open>A weaker guarantee that needs no transitivity of the comparison itself.\<close>

lemma sift_measure:
  fixes f :: "'a \<Rightarrow> nat"
  assumes "\<And>a b. lt a b \<Longrightarrow> f b \<le> f a" and "\<And>a b. \<not> lt a b \<Longrightarrow> f a \<le> f b"
  shows "sorted_wrt (\<lambda>y z. f y \<le> f z) ys \<Longrightarrow> sorted_wrt (\<lambda>y z. f y \<le> f z) (sift lt x ys)"
  using assms by (induction ys) (auto, meson order_trans)

lemma go_sort_measure:
  fixes f :: "'a \<Rightarrow> nat"
  assumes "\<And>a b. lt a b \<Longrightarrow> f b \<le> f a" and "\<And>a b. \<not> lt a b \<Longrightarrow> f a \<le> f b"
  shows "sorted_wrt (\<lambda>a b. f b \<le> f a) (go_sort lt xs)"
proof -
  have "sorted_wrt (\<lambda>y z. f y \<le> f z) acc \<Longrightarrow>
      sorted_wrt (\<lambda>y z. f y \<le> f z) (foldl (\<lambda>acc x. sift lt x acc) acc xs)" for acc
  proof (induction xs arbitrary: acc)
    case (Cons x xs)
    then show ?case
      using sift_measure [of lt f acc x] assms Cons.IH [of "sift lt x acc"] by simp
  qed simp
  from this [of "[]"] show ?thesis by (simp add: go_sort_def sorted_wrt_rev)
qed

section \<open>The order of behaviours\<close>

text \<open>The loop over \<open>range i\<close>; the byte offsets still to visit are the last argument.\<close>

fun compare_from :: "string \<Rightarrow> string \<Rightarrow> nat list \<Rightarrow> bool" where
  "compare_from i j [] = True"
| "compare_from i j (idx # rest) =
     (let iChar = i ! idx; jChar = j ! idx in
      if iChar = jChar then compare_from i j rest
      else if iChar = CHR ''*'' then False
      else if iChar = CHR ''?'' then jChar = CHR ''*''
      else if jChar = CHR ''*'' \<or> jChar = CHR ''?'' then True
      else iChar < jChar)"

definition isInMostSpecificOrder :: "string \<Rightarrow> string \<Rightarrow> bool" where
  "isInMostSpecificOrder i j =
     (if length i \<noteq> length j then length i > length j
      else compare_from i j (rune_starts i))"

text \<open>
  The documented order: longer first; equal lengths compare lexicographically with the two
  wildcards after every other character, the question mark before the star.
\<close>

definition path_rank :: "char \<Rightarrow> nat" where
  "path_rank c = (if c = CHR ''*'' then 257 else if c = CHR ''?'' then 256 else of_char c)"

definition spec_order :: "string \<Rightarrow> string \<Rightarrow> bool" where
  "spec_order i j \<longleftrightarrow> length i > length j \<or>
     length i = length j \<and> map path_rank i \<le> map path_rank j"

lemma of_char_less_256: "of_char c < (256 :: nat)"
  using of_char_mod_256 [of c, where 'a = nat] by (metis mod_less_divisor zero_less_numeral)

lemma of_char_bounds [simp]:
  "(of_char c :: nat) \<noteq> 256" "(of_char c :: nat) \<noteq> 257" "(of_char c :: nat) < 257"
  "\<not> 256 < (of_char c :: nat)" "\<not> 257 < (of_char c :: nat)"
  "256 \<noteq> (of_char c :: nat)" "257 \<noteq> (of_char c :: nat)"
  using of_char_less_256 [of c] by linarith+

lemma path_rank_inj: "path_rank a = path_rank b \<longleftrightarrow> a = b"
  by (auto simp: path_rank_def)

lemma path_rank_less:
  "a \<noteq> b \<Longrightarrow> path_rank a < path_rank b \<longleftrightarrow>
     (if a = CHR ''*'' then False else if a = CHR ''?'' then b = CHR ''*''
      else if b = CHR ''*'' \<or> b = CHR ''?'' then True else a < b)"
  by (auto simp: path_rank_def less_char_def of_char_less_256)

lemma map_path_rank_inj: "map path_rank i = map path_rank j \<longleftrightarrow> i = j"
  by (simp add: inj_def path_rank_inj inj_map_eq_map)

lemma compare_from_Suc: "compare_from (x # i) (y # j) (map Suc ks) = compare_from i j ks"
  by (induction ks) (auto simp: Let_def)

lemma compare_from_upt:
  "length i = length j \<Longrightarrow> compare_from i j [0..<length i] \<longleftrightarrow> map path_rank i \<le> map path_rank j"
proof (induction i j rule: list_induct2)
  case (Cons x i y j)
  have "compare_from (x # i) (y # j) [0..<length (x # i)] \<longleftrightarrow>
     (if x = y then compare_from i j [0..<length i] else path_rank x < path_rank y)"
    by (simp add: upt_conv_Cons map_Suc_upt [symmetric] compare_from_Suc path_rank_less
        del: upt_Suc)
  with Cons.IH show ?case by (auto simp: path_rank_inj)
qed simp

lemma isInMostSpecificOrder_ascii:
  "ascii i \<Longrightarrow> isInMostSpecificOrder i j \<longleftrightarrow> spec_order i j"
  using compare_from_upt [of i j]
  by (auto simp: isInMostSpecificOrder_def spec_order_def rune_starts_ascii)

lemma spec_order_total: "spec_order i j \<or> spec_order j i"
  by (auto simp: spec_order_def)

lemma spec_order_trans: "spec_order i j \<Longrightarrow> spec_order j k \<Longrightarrow> spec_order i k"
  by (auto simp: spec_order_def)

lemma spec_order_antisym: "spec_order i j \<Longrightarrow> spec_order j i \<Longrightarrow> i = j"
  by (auto simp: spec_order_def map_path_rank_inj dest: antisym)

lemma in_order_path_ascii:
  "ascii i \<Longrightarrow> ascii j \<Longrightarrow> in_order isInMostSpecificOrder i j \<longleftrightarrow> spec_order i j"
  using spec_order_total [of i j] by (auto simp: in_order_def isInMostSpecificOrder_ascii)

interpretation path_order: go_less_antisym isInMostSpecificOrder ascii
  by unfold_locales
     (auto simp: in_order_path_ascii intro: spec_order_trans dest: spec_order_antisym)

interpretation tag_order: go_less_antisym "(<) :: string \<Rightarrow> string \<Rightarrow> bool" "\<lambda>_. True"
  by unfold_locales (auto simp: in_order_def)

end
