(* ===== verification/Str_Helper.thy ===== *)
theory Str_Helper
  imports Go_Strings
begin

text \<open>
  \<open>internal/strhelper/strings.go\<close>: the string set, membership and filtering of slices, the
  merge of two string maps, and the emptiness test of an optional string.
\<close>

section \<open>The string set\<close>

type_synonym str_set = "(string, bool) gomap"

definition NewSet :: str_set where
  "NewSet = []"

definition Set_Add :: "str_set \<Rightarrow> string \<Rightarrow> str_set" where
  "Set_Add ss s = AList.update s True ss"

definition Set_Contains :: "str_set \<Rightarrow> string \<Rightarrow> bool" where
  "Set_Contains ss s = map_get ss s False"

definition Set_ToSlice :: "string order \<Rightarrow> str_set \<Rightarrow> string list" where
  "Set_ToSlice ord ss = map fst (map_range ord ss)"

text \<open>The interface of a set of elements, and what a client of it may rely on.\<close>

locale element_set =
  fixes empty :: "'s"
    and add :: "'s \<Rightarrow> 'e \<Rightarrow> 's"
    and member :: "'s \<Rightarrow> 'e \<Rightarrow> bool"
    and invar :: "'s \<Rightarrow> bool"
  assumes invar_empty: "invar empty"
    and invar_add: "invar s \<Longrightarrow> invar (add s x)"
    and member_empty: "\<not> member empty x"
    and member_add: "invar s \<Longrightarrow> member (add s x) y \<longleftrightarrow> y = x \<or> member s y"
begin

lemma invar_foldl: "invar s \<Longrightarrow> invar (foldl add s xs)"
  by (induction xs arbitrary: s) (auto simp: invar_add)

lemma member_foldl: "invar s \<Longrightarrow> member (foldl add s xs) y \<longleftrightarrow> y \<in> set xs \<or> member s y"
  by (induction xs arbitrary: s) (auto simp: invar_add member_add)

lemma member_of_list: "member (foldl add empty xs) y \<longleftrightarrow> y \<in> set xs"
  by (simp add: member_foldl invar_empty member_empty)

end

definition wf_str_set :: "str_set \<Rightarrow> bool" where
  "wf_str_set ss \<longleftrightarrow> wf_map ss \<and> list_all snd ss"

lemma Set_Contains_iff: "wf_str_set ss \<Longrightarrow> Set_Contains ss s \<longleftrightarrow> s \<in> set (keys ss)"
  unfolding Set_Contains_def map_get_def wf_str_set_def
  by (force split: option.splits simp: map_of_eq_None_iff list_all_iff dest!: map_of_SomeD)

lemma snd_update_subset: "set (map snd (AList.update k v m)) \<subseteq> insert v (set (map snd m))"
  by (induction m) auto

interpretation strset: element_set NewSet Set_Add Set_Contains wf_str_set
proof unfold_locales
  fix ss :: str_set and x y
  assume wf: "wf_str_set ss"
  then show wf': "wf_str_set (Set_Add ss x)"
    using snd_update_subset [of x True ss]
    by (auto simp: wf_str_set_def Set_Add_def list_all_iff subset_iff)
  show "Set_Contains (Set_Add ss x) y \<longleftrightarrow> y = x \<or> Set_Contains ss y"
    by (auto simp: Set_Contains_def Set_Add_def map_get_def update_conv')
qed (simp_all add: wf_str_set_def NewSet_def Set_Contains_def map_get_def)

lemma Set_ToSlice_set:
  "is_order ord \<Longrightarrow> set (Set_ToSlice ord ss) = set (keys ss)"
  by (simp add: Set_ToSlice_def map_range_keys order_set)

section \<open>Slices of strings\<close>

fun contains :: "string list \<Rightarrow> string \<Rightarrow> bool" where
  "contains [] e = False"
| "contains (a # as) e = (if a = e then True else contains as e)"

fun filter_strs :: "(string \<Rightarrow> bool) \<Rightarrow> string list \<Rightarrow> string list" where
  "filter_strs p [] = []"
| "filter_strs p (it # its) = (if p it then it # filter_strs p its else filter_strs p its)"

lemma contains_iff [simp]: "contains xs e \<longleftrightarrow> e \<in> set xs"
  by (induction xs) auto

lemma filter_strs_eq [simp]: "filter_strs p xs = filter p xs"
  by (induction xs) auto

section \<open>Maps and pointers\<close>

definition MergeMapString ::
    "(string, string) gomap \<Rightarrow> (string, string) gomap \<Rightarrow> (string, string) gomap" where
  "MergeMapString m1 m2 =
     fold (\<lambda>(k, v) nm. AList.update k v nm) m2 (fold (\<lambda>(k, v) nm. AList.update k v nm) m1 [])"

fun IsEmptyOrNil :: "string option \<Rightarrow> bool" where
  "IsEmptyOrNil None = True"
| "IsEmptyOrNil (Some s) = (s = [])"

lemma wf_MergeMapString [simp]: "wf_map (MergeMapString m1 m2)"
  by (simp add: MergeMapString_def wf_map_fold_update)

lemma map_of_MergeMapString:
  "wf_map m1 \<Longrightarrow> wf_map m2 \<Longrightarrow> map_of (MergeMapString m1 m2) = map_of m1 ++ map_of m2"
  by (simp add: MergeMapString_def map_of_fold_update map_of_rev_wf)

end
