(* ===== verification/Cdn_Config.thy ===== *)
theory Cdn_Config
  imports Str_Helper
begin

text \<open>
  \<open>internal/config/config.go\<close>: the controller's configuration and its parser. The viper library,
  which reads the environment variables and applies the defaults, is the argument \<open>viper\<close> of
  the parser; \<open>initDefaults\<close> is the table of defaults the code registers with it.
\<close>

section \<open>The configuration\<close>

record namespaced_name =
  nn_namespace :: string
  nn_name :: string

record config =
  LogLevel :: string
  DevMode :: bool
  DeletionEnabled :: bool
  DefaultOriginDomain :: string
  CloudFrontPriceClass :: string
  CloudFrontSecurityPolicy :: string
  CloudFrontEnableLogging :: bool
  CloudFrontS3BucketLog :: string
  CloudFrontS3BucketLogPrefix :: string
  CloudFrontEnableIPV6 :: bool
  CloudFrontDescriptionTemplate :: string
  CloudFrontCustomTags :: "(string, string) gomap"
  CloudFrontDefaultCachingPolicyID :: string
  CloudFrontDefaultCacheRequestPolicyID :: string
  CloudFrontDefaultPublicOriginAccessRequestPolicyID :: string
  CloudFrontDefaultBucketOriginAccessRequestPolicyID :: string
  IsCreateBlocked :: bool
  CreateAllowList :: "namespaced_name list"

definition TLSIsEnabled :: "config \<Rightarrow> bool" where
  "TLSIsEnabled c \<longleftrightarrow> length (CloudFrontSecurityPolicy c) > 0"

definition IsCreationAllowed :: "config \<Rightarrow> string \<Rightarrow> string \<Rightarrow> bool" where
  "IsCreationAllowed c namespace name =
     (if \<not> IsCreateBlocked c then True
      else list_ex (\<lambda>candidate. candidate = \<lparr>nn_namespace = namespace, nn_name = name\<rparr>) (CreateAllowList c))"

section \<open>Parsing\<close>

definition removeTrailingSlash :: "string \<Rightarrow> string" where
  "removeTrailingSlash s = (if has_suffix s ''/'' then take (length s - 1) s else s)"

definition nsName :: "string \<Rightarrow> namespaced_name outcome" where
  "nsName name =
     (let parts = go_split CHR ''/'' name in
      if length parts \<noteq> 2 \<or> parts ! 0 = [] \<or> parts ! 1 = []
      then Err (Errorf ''namespaced name is not in namespace/name format'' [name])
      else Ok \<lparr>nn_namespace = parts ! 0, nn_name = parts ! 1\<rparr>)"

definition parseNamespacedNames :: "string list \<Rightarrow> namespaced_name list outcome" where
  "parseNamespacedNames names =
     out_mapM (\<lambda>n. out_wrap (ErrorfV ''parsing namespaced name'') (nsName n)) names"

definition parseList :: "string \<Rightarrow> string list" where
  "parseList l = (if l = [] then [] else go_split CHR '','' l)"

text \<open>\<open>m[tag[0]] = tag[1]\<close> panics when a pair has no equals sign.\<close>

definition extractTags :: "string \<Rightarrow> (string, string) gomap outcome" where
  "extractTags customTags =
     (if length customTags = 0 then Ok []
      else out_foldM (\<lambda>m pair.
             let tag = go_split CHR ''='' pair in
             out_bind (index tag 1) (\<lambda>v. out_bind (index tag 0) (\<lambda>k. Ok (AList.update k v m))))
           [] (go_split CHR '','' customTags))"

record viper =
  GetBool :: "string \<Rightarrow> bool"
  GetString :: "string \<Rightarrow> string"

definition parse_config :: "viper \<Rightarrow> config outcome" where
  "parse_config v =
     (let devMode = GetBool v ''dev_mode'';
          logLvl = (if devMode then ''debug'' else GetString v ''log_level'') in
      out_bind (out_wrap (ErrorfV ''invalid block_creation_allow_list'')
          (parseNamespacedNames (parseList (GetString v ''block_creation_allow_list'')))) (\<lambda>createAllowList.
      out_bind (extractTags (GetString v ''cf_custom_tags'')) (\<lambda>tags.
      Ok \<lparr>LogLevel = logLvl,
          DevMode = devMode,
          DeletionEnabled = GetBool v ''enable_deletion'',
          DefaultOriginDomain = GetString v ''cf_default_origin_domain'',
          CloudFrontPriceClass = GetString v ''cf_price_class'',
          CloudFrontSecurityPolicy = GetString v ''cf_security_policy'',
          CloudFrontEnableLogging = GetBool v ''cf_enable_logging'',
          CloudFrontS3BucketLog = GetString v ''cf_s3_bucket_log'',
          CloudFrontS3BucketLogPrefix = removeTrailingSlash (GetString v ''cf_s3_bucket_log_prefix''),
          CloudFrontEnableIPV6 = GetBool v ''cf_enable_ipv6'',
          CloudFrontDescriptionTemplate = GetString v ''cf_description_template'',
          CloudFrontCustomTags = tags,
          CloudFrontDefaultCachingPolicyID = GetString v ''cf_default_caching_policy_id'',
          CloudFrontDefaultCacheRequestPolicyID = GetString v ''cf_default_cache_request_policy_id'',
          CloudFrontDefaultPublicOriginAccessRequestPolicyID =
            GetString v ''cf_default_public_origin_access_request_policy_id'',
          CloudFrontDefaultBucketOriginAccessRequestPolicyID =
            GetString v ''cf_default_bucket_origin_access_request_policy_id'',
          IsCreateBlocked = GetBool v ''block_creation'',
          CreateAllowList = createAllowList\<rparr>)))"

datatype viper_value = VString string | VBool bool

definition initDefaults :: "(string \<times> viper_value) list" where
  "initDefaults =
    [(''log_level'', VString ''info''),
     (''dev_mode'', VString ''false''),
     (''enable_deletion'', VString ''false''),
     (''cf_default_origin_domain'', VString ''''),
     (''cf_price_class'', VString ''PriceClass_All''),
     (''cf_security_policy'', VString ''''),
     (''cf_enable_logging'', VString ''false''),
     (''cf_s3_bucket_log'', VString ''''),
     (''cf_s3_bucket_log_prefix'', VString ''''),
     (''cf_enable_ipv6'', VString ''true''),
     (''cf_description_template'', VString ''Serve contents for {{group}} group.''),
     (''cf_custom_tags'', VString ''''),
     (''cf_default_caching_policy_id'', VString ''4135ea2d-6df8-44a3-9df3-4b5a84be39ad''),
     (''cf_default_cache_request_policy_id'', VString ''216adef6-5c7f-47e4-b989-5492eafa07d3''),
     (''cf_default_public_origin_access_request_policy_id'',
        VString ''216adef6-5c7f-47e4-b989-5492eafa07d3''),
     (''cf_default_bucket_origin_access_request_policy_id'',
        VString ''88a5eaf4-2fd4-4709-b370-b4c650ea3fcf''),
     (''block_creation'', VBool False)]"

section \<open>Facts\<close>

lemma IsCreationAllowed_iff:
  "IsCreationAllowed c ns n \<longleftrightarrow>
     (IsCreateBlocked c \<longrightarrow> \<lparr>nn_namespace = ns, nn_name = n\<rparr> \<in> set (CreateAllowList c))"
  by (auto simp: IsCreationAllowed_def list_ex_iff)

lemma split2E:
  assumes "length (go_split c s) = 2"
  obtains p q where "go_split c s = [p, q]" "s = p @ c # q" "c \<notin> set p" "c \<notin> set q"
proof -
  from assms obtain p q where pq: "go_split c s = [p, q]"
    by (auto simp: length_Suc_conv numeral_2_eq_2)
  moreover have "s = p @ c # q" using go_join_split [of c s] pq by simp
  moreover have "c \<notin> set p" "c \<notin> set q" using go_split_parts [of _ c s] pq by auto
  ultimately show thesis by (rule that)
qed

lemma nsName_Ok_iff:
  "nsName s = Ok nn \<longleftrightarrow>
     s = nn_namespace nn @ ''/'' @ nn_name nn \<and> nn_namespace nn \<noteq> [] \<and> nn_name nn \<noteq> [] \<and>
     CHR ''/'' \<notin> set (nn_namespace nn) \<and> CHR ''/'' \<notin> set (nn_name nn)"
proof
  assume ok: "nsName s = Ok nn"
  then have "length (go_split CHR ''/'' s) = 2"
    by (auto simp: nsName_def Let_def split: if_splits)
  then obtain p q where "go_split CHR ''/'' s = [p, q]" "s = p @ CHR ''/'' # q"
    "CHR ''/'' \<notin> set p" "CHR ''/'' \<notin> set q"
    by (rule split2E)
  with ok show "s = nn_namespace nn @ ''/'' @ nn_name nn \<and> nn_namespace nn \<noteq> [] \<and> nn_name nn \<noteq> [] \<and>
      CHR ''/'' \<notin> set (nn_namespace nn) \<and> CHR ''/'' \<notin> set (nn_name nn)"
    by (auto simp: nsName_def Let_def split: if_splits)
qed (auto simp: nsName_def go_simps)

lemma nsName_no_panic: "nsName s \<noteq> Panic"
  by (simp add: nsName_def Let_def)

lemma parseNamespacedNames_no_panic: "parseNamespacedNames ns \<noteq> Panic"
  unfolding parseNamespacedNames_def
  by (induction ns) (auto simp: out_iffs nsName_no_panic)

lemma extractTags_fold_panic_iff:
  "out_foldM (\<lambda>m pair. let tag = go_split CHR ''='' pair in
      out_bind (index tag 1) (\<lambda>v. out_bind (index tag 0) (\<lambda>k. Ok (AList.update k v m)))) m ps = Panic
   \<longleftrightarrow> (\<exists>p \<in> set ps. CHR ''='' \<notin> set p)"
proof (induction ps arbitrary: m)
  case (Cons p ps)
  show ?case
  proof (cases "CHR ''='' \<in> set p")
    case True
    then have "Suc 0 < length (go_split CHR ''='' p)" using go_split_nth1_ok by fastforce
    then have "0 < length (go_split CHR ''='' p)" by linarith
    with True \<open>Suc 0 < _\<close> Cons.IH show ?thesis by (simp add: Let_def)
  qed (simp add: Let_def go_split_no_sep)
qed simp

lemma extractTags_panic_iff:
  "extractTags s = Panic \<longleftrightarrow> s \<noteq> [] \<and> (\<exists>p \<in> set (go_split CHR '','' s). CHR ''='' \<notin> set p)"
  unfolding extractTags_def using extractTags_fold_panic_iff [of "[]" "go_split CHR '','' s"] by simp

lemma extractTags_no_err: "extractTags s \<noteq> Err e"
proof -
  have "out_foldM (\<lambda>m pair. let tag = go_split CHR ''='' pair in
      out_bind (index tag 1) (\<lambda>v. out_bind (index tag 0) (\<lambda>k. Ok (AList.update k v m)))) m ps \<noteq> Err e" for m ps
    by (induction ps arbitrary: m) (auto simp: Let_def out_iffs index_def split: if_splits)
  then show ?thesis by (simp add: extractTags_def)
qed

end
