(* ===== verification/Ingress_Model.thy ===== *)
theory Ingress_Model
  imports Function_Assoc Str_Helper
begin

text \<open>
  \<open>internal/k8s\<close> without its calls to the API server: the Kubernetes objects the controller
  reads, its annotations and finalizer (\<open>helpers.go\<close>, \<open>deprecated.go\<close>), the CDN class, the
  translation of an Ingress and of its user-supplied origins into the domain object
  \<open>CDNIngress\<close> (\<open>ingress.go\<close>, \<open>user_origin.go\<close>), and the validation of its function
  associations (\<open>validation.go\<close>). The YAML parser, the defaults library and the finalizer
  helpers of controller-runtime are the fields of \<open>k8s_libs\<close>.
\<close>

section \<open>Kubernetes objects\<close>

record object_meta =
  om_namespace :: string
  om_name :: string
  om_annotations :: "(string, string) gomap"
  om_finalizers :: "string list"
  om_deletion :: "string option"

record http_path =
  hp_path :: string
  hp_type :: "string option"

text \<open>A rule without an HTTP section is \<open>None\<close>; \<open>ing_rest\<close> is everything the code never reads.\<close>

record ingress = object_meta +
  ing_rules :: "http_path list option list"
  ing_lb :: "string list"
  ing_rest :: string

datatype client_object = ObjIngress ingress | ObjOther object_meta

fun obj_meta :: "client_object \<Rightarrow> object_meta" where
  "obj_meta (ObjIngress i) = object_meta.truncate i"
| "obj_meta (ObjOther m) = m"

definition CDNGroupAnnotation :: string where
  "CDNGroupAnnotation = ''cdn-origin-controller.gympass.com/cdn.group''"
definition CDNClassAnnotation :: string where
  "CDNClassAnnotation = ''cdn-origin-controller.gympass.com/cdn.class''"
definition CDNFinalizer :: string where
  "CDNFinalizer = ''cdn-origin-controller.gympass.com/finalizer''"
definition cfViewerFnAnnotation :: string where
  "cfViewerFnAnnotation = ''cdn-origin-controller.gympass.com/cf.viewer-function-arn''"
definition cfOrigReqPolicyAnnotation :: string where
  "cfOrigReqPolicyAnnotation = ''cdn-origin-controller.gympass.com/cf.origin-request-policy''"
definition cfCachePolicyAnnotation :: string where
  "cfCachePolicyAnnotation = ''cdn-origin-controller.gympass.com/cf.cache-policy''"
definition cfResponsePolicyAnnotation :: string where
  "cfResponsePolicyAnnotation = ''cdn-origin-controller.gympass.com/cf.response-policy''"
definition cfOrigRespTimeoutAnnotation :: string where
  "cfOrigRespTimeoutAnnotation = ''cdn-origin-controller.gympass.com/cf.origin-response-timeout''"
definition cfAlternateDomainNamesAnnotation :: string where
  "cfAlternateDomainNamesAnnotation = ''cdn-origin-controller.gympass.com/cf.alternate-domain-names''"
definition cfWebACLARNAnnotation :: string where
  "cfWebACLARNAnnotation = ''cdn-origin-controller.gympass.com/cf.web-acl-arn''"
definition cfTagsAnnotation :: string where
  "cfTagsAnnotation = ''cdn-origin-controller.gympass.com/cf.tags''"
definition cfOrigHeadersAnnotation :: string where
  "cfOrigHeadersAnnotation = ''cdn-origin-controller.gympass.com/cf.origin-headers''"
definition cfFunctionAssociationsAnnotation :: string where
  "cfFunctionAssociationsAnnotation = ''cdn-origin-controller.gympass.com/cf.function-associations''"
definition cfUserOriginsAnnotation :: string where
  "cfUserOriginsAnnotation = ''cdn-origin-controller.gympass.com/cf.user-origins''"

abbreviation annotation :: "'a object_meta_scheme \<Rightarrow> string \<Rightarrow> string option" where
  "annotation obj k \<equiv> map_of (om_annotations obj) k"

abbreviation annotation_value :: "'a object_meta_scheme \<Rightarrow> string \<Rightarrow> string" where
  "annotation_value obj k \<equiv> map_get (om_annotations obj) k []"

section \<open>The CDN class, paths and CDN Ingresses\<close>

record cdn_class =
  HostedZoneID :: string
  CreateAlias :: bool
  TXTOwnerValue :: string

definition zero_class :: cdn_class where
  "zero_class = \<lparr>HostedZoneID = [], CreateAlias = False, TXTOwnerValue = []\<rparr>"

record path =
  PathPattern :: string
  PathType :: string
  path_fa :: function_associations

record cdn_ingress =
  ci_namespace :: string
  ci_name :: string
  OriginHost :: string
  Group :: string
  UnmergedPaths :: "path list"
  OriginReqPolicy :: string
  OriginHeaders :: "(string, string) gomap option"
  CachePolicy :: string
  ResponsePolicy :: string
  OriginRespTimeout :: int
  AlternateDomainNames :: "string list"
  UnmergedWebACLARN :: string
  IsBeingRemoved :: bool
  OriginAccess :: string
  Class :: cdn_class
  Tags :: "(string, string) gomap"

definition CFUserOriginAccessPublic :: string where "CFUserOriginAccessPublic = ''Public''"
definition CFUserOriginAccessBucket :: string where "CFUserOriginAccessBucket = ''Bucket''"

record custom_origin_behavior =
  cob_path :: string
  cob_fa :: function_associations

record user_origin =
  uo_host :: string
  uo_headers :: "(string, string) gomap option"
  uo_response_timeout :: int
  uo_paths :: "string list"
  uo_behaviors :: "custom_origin_behavior list"
  uo_viewer_function_arn :: string
  uo_request_policy :: string
  uo_cache_policy :: string
  uo_response_policy :: string
  uo_web_acl_arn :: string
  uo_origin_access :: string

section \<open>Libraries\<close>

text \<open>
  Third-party code the package calls: \<open>yaml.Unmarshal\<close> into the three types it is used for,
  \<open>defaults.Set\<close>, and the finalizer helpers of controller-runtime.
\<close>

record k8s_libs =
  yaml_fa :: "string \<Rightarrow> go_error + (string, function_associations) gomap option"
  yaml_tags :: "string \<Rightarrow> go_error + (string, string) gomap"
  yaml_user_origins :: "string \<Rightarrow> go_error + user_origin list"
  defaults_Set :: "user_origin \<Rightarrow> go_error + user_origin"
  lib_AddFinalizer :: "string list \<Rightarrow> string \<Rightarrow> string list"
  lib_RemoveFinalizer :: "string list \<Rightarrow> string \<Rightarrow> string list"

section \<open>Helpers\<close>

definition CDNClassAnnotationValue :: "'a object_meta_scheme \<Rightarrow> string" where
  "CDNClassAnnotationValue obj = annotation_value obj CDNClassAnnotation"

definition CDNClassNotEmpty :: "string \<Rightarrow> bool" where
  "CDNClassNotEmpty candidate \<longleftrightarrow> length candidate > 0"

definition HasFinalizer :: "'a object_meta_scheme \<Rightarrow> bool" where
  "HasFinalizer obj = contains (om_finalizers obj) CDNFinalizer"

definition AddFinalizer :: "k8s_libs \<Rightarrow> 'a object_meta_scheme \<Rightarrow> 'a object_meta_scheme" where
  "AddFinalizer libs obj = obj\<lparr>om_finalizers := lib_AddFinalizer libs (om_finalizers obj) CDNFinalizer\<rparr>"

definition RemoveFinalizer :: "k8s_libs \<Rightarrow> 'a object_meta_scheme \<Rightarrow> 'a object_meta_scheme" where
  "RemoveFinalizer libs obj = obj\<lparr>om_finalizers := lib_RemoveFinalizer libs (om_finalizers obj) CDNFinalizer\<rparr>"

definition HasGroupAnnotation :: "'a object_meta_scheme \<Rightarrow> bool" where
  "HasGroupAnnotation obj \<longleftrightarrow> length (annotation_value obj CDNGroupAnnotation) > 0"

fun HasLoadBalancer :: "client_object \<Rightarrow> bool" where
  "HasLoadBalancer (ObjIngress ing) \<longleftrightarrow> length (ing_lb ing) > 0 \<and> length (ing_lb ing ! 0) > 0"
| "HasLoadBalancer (ObjOther m) = False"

definition IsBeingRemovedFromDesiredState :: "'a object_meta_scheme \<Rightarrow> bool" where
  "IsBeingRemovedFromDesiredState obj \<longleftrightarrow>
     om_deletion obj \<noteq> None \<or> (\<not> HasGroupAnnotation obj \<and> HasFinalizer obj)"

definition UsedDeprecatedFields :: "'a object_meta_scheme \<Rightarrow> string list" where
  "UsedDeprecatedFields ing =
     (case annotation ing cfViewerFnAnnotation of Some _ \<Rightarrow> [cfViewerFnAnnotation] | None \<Rightarrow> [])"

section \<open>Reading annotations\<close>

definition functionAssociations ::
    "k8s_libs \<Rightarrow> 'a object_meta_scheme \<Rightarrow> (string, function_associations) gomap option outcome" where
  "functionAssociations libs obj =
     (case annotation obj cfFunctionAssociationsAnnotation of
        None \<Rightarrow> Ok None
      | Some faYAML \<Rightarrow> out_wrap (ErrorfV ''unmarshalling YAML'') (of_sum (yaml_fa libs faYAML)))"

definition viewerFnARN :: "'a object_meta_scheme \<Rightarrow> string" where
  "viewerFnARN obj = annotation_value obj cfViewerFnAnnotation"

definition originRespTimeout :: "'a object_meta_scheme \<Rightarrow> int" where
  "originRespTimeout obj = parse_int64 (annotation_value obj cfOrigRespTimeoutAnnotation)"

definition originReqPolicy :: "'a object_meta_scheme \<Rightarrow> string" where
  "originReqPolicy obj = annotation_value obj cfOrigReqPolicyAnnotation"

definition cachePolicy :: "'a object_meta_scheme \<Rightarrow> string" where
  "cachePolicy obj = annotation_value obj cfCachePolicyAnnotation"

definition responsePolicy :: "'a object_meta_scheme \<Rightarrow> string" where
  "responsePolicy obj = annotation_value obj cfResponsePolicyAnnotation"

definition groupAnnotationValue :: "'a object_meta_scheme \<Rightarrow> string" where
  "groupAnnotationValue obj = annotation_value obj CDNGroupAnnotation"

definition tagsAnnotationValue ::
    "k8s_libs \<Rightarrow> 'a object_meta_scheme \<Rightarrow> (string, string) gomap outcome" where
  "tagsAnnotationValue libs obj =
     (case annotation obj cfTagsAnnotation of
        None \<Rightarrow> Ok []
      | Some tagsData \<Rightarrow>
          out_wrap (ErrorfV ''invalid custom tags configuration'') (of_sum (yaml_tags libs tagsData)))"

definition alternateDomainNames :: "'a object_meta_scheme \<Rightarrow> string list" where
  "alternateDomainNames obj =
     (let annValue = annotation_value obj cfAlternateDomainNamesAnnotation in
      if length annValue > 0
      then foldl (\<lambda>domainNames d. if \<not> contains domainNames d then domainNames @ [d] else domainNames)
             [] (go_split CHR '','' annValue)
      else [])"

definition webACLARN :: "'a object_meta_scheme \<Rightarrow> string" where
  "webACLARN obj = annotation_value obj cfWebACLARNAnnotation"

definition parseOriginHeaders :: "string \<Rightarrow> (string, string) gomap option outcome" where
  "parseOriginHeaders rawHeaders =
     (if length rawHeaders = 0 then Ok None
      else out_bind (out_foldM (\<lambda>result kv.
             let kvParts = go_split CHR ''='' kv in
             if length kvParts \<noteq> 2 \<or> kvParts ! 0 = [] \<or> kvParts ! 1 = []
             then Err (Errorf ''informed origin header does not follow key=value format'' [kv])
             else Ok (AList.update (kvParts ! 0) (kvParts ! 1) result))
           [] (go_split CHR '','' rawHeaders)) (\<lambda>result. Ok (Some result)))"

text \<open>The message names the annotation of the viewer function, as the code does.\<close>

definition headersV1 :: "'a object_meta_scheme \<Rightarrow> (string, string) gomap option outcome" where
  "headersV1 ing =
     (case annotation ing cfOrigHeadersAnnotation of
        None \<Rightarrow> Ok None
      | Some val \<Rightarrow>
          out_wrap (ErrorfV (''parsing origin headers from annotation '' @ cfViewerFnAnnotation))
            (parseOriginHeaders val))"

section \<open>Paths of an Ingress\<close>

definition spec_paths :: "ingress \<Rightarrow> http_path list" where
  "spec_paths ing = concat (map (\<lambda>rule. case rule of None \<Rightarrow> [] | Some ps \<Rightarrow> ps) (ing_rules ing))"

definition ingressPaths :: "ingress \<Rightarrow> string list" where
  "ingressPaths ing = map hp_path (spec_paths ing)"

definition pathsForViewerFunction :: "ingress \<Rightarrow> string \<Rightarrow> path list outcome" where
  "pathsForViewerFunction ing fnARN =
     out_mapM (\<lambda>p. out_bind (deref (hp_type p)) (\<lambda>ty.
       Ok \<lparr>PathPattern = hp_path p, PathType = ty, path_fa = newFAFromViewerFunctionARN fnARN\<rparr>))
     (spec_paths ing)"

definition pathsForFunctionAssociations ::
    "ingress \<Rightarrow> (string, function_associations) gomap option \<Rightarrow> path list outcome" where
  "pathsForFunctionAssociations ing fa =
     out_mapM (\<lambda>p. out_bind (deref (hp_type p)) (\<lambda>ty.
       let f = map_get (case fa of None \<Rightarrow> [] | Some m \<Rightarrow> m) (hp_path p) empty_fa;
           newPath = \<lparr>PathPattern = hp_path p, PathType = ty, path_fa = empty_fa\<rparr> in
       (case FA_Validate f of
          Some err \<Rightarrow> Ok newPath
        | None \<Rightarrow> Ok (newPath\<lparr>path_fa := f\<rparr>))))
     (spec_paths ing)"

definition pathsV1 :: "k8s_libs \<Rightarrow> ingress \<Rightarrow> path list outcome" where
  "pathsV1 libs ing =
     out_bind (out_wrap (ErrorfV ''parsing function associations from annotation'')
        (functionAssociations libs ing)) (\<lambda>fa.
     let viewerFn = viewerFnARN ing in
     if length viewerFn > 0 \<and> length (case fa of None \<Rightarrow> [] | Some m \<Rightarrow> m) > 0
     then Err (Errorf ''can't use both annotations at the same time''
                 [cfViewerFnAnnotation, cfFunctionAssociationsAnnotation])
     else if length viewerFn > 0 then pathsForViewerFunction ing viewerFn
     else pathsForFunctionAssociations ing fa)"

definition NewCDNIngressFromV1 :: "k8s_libs \<Rightarrow> ingress \<Rightarrow> cdn_class \<Rightarrow> cdn_ingress outcome" where
  "NewCDNIngressFromV1 libs ing class =
     out_bind (tagsAnnotationValue libs ing) (\<lambda>tags.
     out_bind (pathsV1 libs ing) (\<lambda>paths.
     out_bind (headersV1 ing) (\<lambda>headers.
     Ok \<lparr>ci_namespace = om_namespace ing,
         ci_name = om_name ing,
         OriginHost = (if length (ing_lb ing) > 0 then ing_lb ing ! 0 else []),
         Group = groupAnnotationValue ing,
         UnmergedPaths = paths,
         OriginReqPolicy = originReqPolicy ing,
         OriginHeaders = headers,
         CachePolicy = cachePolicy ing,
         ResponsePolicy = responsePolicy ing,
         OriginRespTimeout = originRespTimeout ing,
         AlternateDomainNames = alternateDomainNames ing,
         UnmergedWebACLARN = webACLARN ing,
         IsBeingRemoved = IsBeingRemovedFromDesiredState ing,
         OriginAccess = CFUserOriginAccessPublic,
         Class = class,
         Tags = tags\<rparr>)))"

definition ValidateIngressFunctionAssociations ::
    "k8s_libs \<Rightarrow> string order \<Rightarrow> ingress \<Rightarrow> unit outcome" where
  "ValidateIngressFunctionAssociations libs ord ing =
     out_bind (out_wrap (ErrorfV ''parsing function associations'') (functionAssociations libs ing)) (\<lambda>allFAs.
     case allFAs of
       None \<Rightarrow> Ok ()
     | Some m \<Rightarrow>
         if length (viewerFnARN ing) > 0
         then Err (Errorf ''can't use both annotations at the same time''
                     [cfViewerFnAnnotation, cfFunctionAssociationsAnnotation])
         else out_bind (out_mapM (\<lambda>(faPath, fa).
                case FA_Validate fa of
                  Some err \<Rightarrow> Err (ErrorfV ''invalid function association at path'' err)
                | None \<Rightarrow>
                    if \<not> contains (ingressPaths ing) faPath
                    then Err (Errorf ''function associations references a path that is not part of the Ingress'' [faPath])
                    else Ok ()) (map_range ord m)) (\<lambda>_. Ok ()))"

section \<open>User-supplied origins\<close>

definition userOrigin_paths :: "user_origin \<Rightarrow> path list" where
  "userOrigin_paths orig =
     map (\<lambda>p. let path = \<lparr>PathPattern = p, PathType = [], path_fa = empty_fa\<rparr> in
              if length (uo_viewer_function_arn orig) > 0
              then path\<lparr>path_fa := newFAFromViewerFunctionARN (uo_viewer_function_arn orig)\<rparr>
              else path) (uo_paths orig) @
     map (\<lambda>b. \<lparr>PathPattern = cob_path b, PathType = [], path_fa = cob_fa b\<rparr>) (uo_behaviors orig)"

fun validateBehaviors_loop :: "user_origin \<Rightarrow> custom_origin_behavior list \<Rightarrow> go_error option" where
  "validateBehaviors_loop orig [] = None"
| "validateBehaviors_loop orig (b # bs) =
     (case FA_Validate (cob_fa b) of
        Some err \<Rightarrow> Some (ErrorfV ''validating behavior function associations'' err)
      | None \<Rightarrow>
          if contains (uo_paths orig) (cob_path b)
          then Some (Errorf ''same path informed in paths (deprecated) and behaviors'' [cob_path b])
          else if \<not> FA_IsEmpty (cob_fa b) \<and> length (uo_viewer_function_arn orig) > 0
          then Some (Errorf ''function associations declared in behaviors, but viewerFunctionArn is present'' [])
          else validateBehaviors_loop orig bs)"

definition validateBehaviors :: "user_origin \<Rightarrow> go_error option" where
  "validateBehaviors orig = validateBehaviors_loop orig (uo_behaviors orig)"

definition userOrigin_validate :: "user_origin \<Rightarrow> go_error option" where
  "userOrigin_validate orig =
     (case validateBehaviors orig of
        Some err \<Rightarrow> Some err
      | None \<Rightarrow>
          if length (uo_host orig) = 0 then Some (Errorf ''the origin must have a host'' [])
          else if length (uo_paths orig) = 0 \<and> length (uo_behaviors orig) = 0
          then Some (Errorf ''the origin must have at least one path or behavior'' [])
          else if uo_origin_access orig \<noteq> CFUserOriginAccessPublic \<and>
                  uo_origin_access orig \<noteq> CFUserOriginAccessBucket
          then Some (Errorf ''the origin must specify a valid originAccess''
                       [CFUserOriginAccessPublic, CFUserOriginAccessBucket])
          else None)"

definition userOriginsFromYAML :: "k8s_libs \<Rightarrow> string \<Rightarrow> user_origin list outcome" where
  "userOriginsFromYAML libs originsData =
     out_bind (of_sum (yaml_user_origins libs originsData)) (\<lambda>origins.
     out_mapM (\<lambda>orig. out_bind (of_sum (defaults_Set libs orig)) (\<lambda>orig.
       case userOrigin_validate orig of
         Some err \<Rightarrow> Err (ErrorfV ''validating user origin'' err)
       | None \<Rightarrow> Ok orig)) origins)"

definition cdnIngressesForUserOrigins ::
    "k8s_libs \<Rightarrow> 'a object_meta_scheme \<Rightarrow> cdn_ingress list outcome" where
  "cdnIngressesForUserOrigins libs obj =
     (case annotation obj cfUserOriginsAnnotation of
        None \<Rightarrow> Ok []
      | Some userOriginsMarkup \<Rightarrow>
          out_bind (out_wrap (ErrorfV ''parsing user origins data from the annotation'')
            (userOriginsFromYAML libs userOriginsMarkup)) (\<lambda>origins.
          Ok (map (\<lambda>orig.
            \<lparr>ci_namespace = om_namespace obj,
             ci_name = om_name obj,
             OriginHost = uo_host orig,
             Group = groupAnnotationValue obj,
             UnmergedPaths = userOrigin_paths orig,
             OriginReqPolicy = uo_request_policy orig,
             OriginHeaders = uo_headers orig,
             CachePolicy = uo_cache_policy orig,
             ResponsePolicy = uo_response_policy orig,
             OriginRespTimeout = uo_response_timeout orig,
             AlternateDomainNames = [],
             UnmergedWebACLARN = uo_web_acl_arn orig,
             IsBeingRemoved = False,
             OriginAccess = uo_origin_access orig,
             Class = zero_class,
             Tags = []\<rparr>) origins)))"

end
