(* ===== verification/Ingress_Props.thy ===== *)
theory Ingress_Props
  imports Ingress_Model
begin

text \<open>
  What the translation of Ingresses guarantees to the rest of the controller: the paths of the
  Ingress are kept one for one, every function association that leaves the package is valid,
  and the comma-separated annotations are parsed as documented.
\<close>

section \<open>Validity of function associations\<close>

definition valid_path :: "path \<Rightarrow> bool" where
  "valid_path p \<longleftrightarrow> FA_Validate (path_fa p) = None"

lemma FA_Validate_empty [simp]: "FA_Validate empty_fa = None"
  by (simp add: FA_Validate_def empty_fa_def ViewerRequestFunction_validate_def
      ViewerFunction_validate_def OriginRequestFunction_validate_def OriginFunction_validate_def
      isCompatibleWith_def)

lemma FA_Validate_viewer_arn [simp]: "arn \<noteq> [] \<Longrightarrow> FA_Validate (newFAFromViewerFunctionARN arn) = None"
  by (simp add: FA_Validate_def newFAFromViewerFunctionARN_def empty_fa_def
      ViewerRequestFunction_validate_def ViewerFunction_validate_def
      OriginRequestFunction_validate_def OriginFunction_validate_def isCompatibleWith_def)

lemma FA_Validate_None_iff:
  "FA_Validate fa = None \<longleftrightarrow>
     ViewerRequestFunction_validate (fa_viewer_request fa) = None \<and>
     ViewerFunction_validate (fa_viewer_response fa) = None \<and>
     OriginRequestFunction_validate (fa_origin_request fa) = None \<and>
     OriginFunction_validate (fa_origin_response fa) = None \<and>
     isCompatibleWith (fa_viewer_request fa) (fa_viewer_response fa)"
  by (auto simp: FA_Validate_def split: option.splits)

section \<open>Paths\<close>

lemma out_mapM_all:
  assumes "out_mapM f xs = Ok ys" and "\<forall>x \<in> set xs. \<forall>y. f x = Ok y \<longrightarrow> Q y \<and> g y = h x"
  shows "list_all Q ys \<and> map g ys = map h xs"
  using assms by (induction xs arbitrary: ys) (auto simp: out_bind_Ok_iff)

lemma pathsForViewerFunction_Ok:
  assumes "pathsForViewerFunction ing arn = Ok ps" and "arn \<noteq> []"
  shows "list_all valid_path ps \<and> map PathPattern ps = ingressPaths ing"
  unfolding ingressPaths_def
  by (rule out_mapM_all [OF assms(1) [unfolded pathsForViewerFunction_def]])
     (use assms(2) in \<open>auto simp: valid_path_def out_bind_Ok_iff\<close>)

lemma pathsForFunctionAssociations_Ok:
  assumes "pathsForFunctionAssociations ing fa = Ok ps"
  shows "list_all valid_path ps \<and> map PathPattern ps = ingressPaths ing"
  unfolding ingressPaths_def
  by (rule out_mapM_all [OF assms [unfolded pathsForFunctionAssociations_def]])
     (auto simp: valid_path_def out_bind_Ok_iff Let_def split: option.splits)

lemma pathsV1_Ok:
  "pathsV1 libs ing = Ok ps \<Longrightarrow> list_all valid_path ps \<and> map PathPattern ps = ingressPaths ing"
  unfolding pathsV1_def
  by (auto simp: out_bind_Ok_iff Let_def split: if_splits
      dest: pathsForViewerFunction_Ok pathsForFunctionAssociations_Ok)


definition sample_libs :: k8s_libs where
  "sample_libs =
     \<lparr>yaml_fa = (\<lambda>s. if s = ''bad'' then Inl (LibError ''yaml'')
        else Inr (Some [(''/a'', newFAFromViewerFunctionARN ''fn'')])),
      yaml_tags = (\<lambda>s. Inr [(''team'', s)]),
      yaml_user_origins = (\<lambda>s. Inr [\<lparr>uo_host = ''bucket.s3'', uo_headers = None, uo_response_timeout = 0,
         uo_paths = [''/static''], uo_behaviors = [], uo_viewer_function_arn = s, uo_request_policy = [],
         uo_cache_policy = [], uo_response_policy = [], uo_web_acl_arn = [], uo_origin_access = []\<rparr>]),
      defaults_Set = (\<lambda>u. Inr (if uo_origin_access u = [] then u\<lparr>uo_origin_access := ''Public''\<rparr> else u)),
      lib_AddFinalizer = (\<lambda>fs f. if f \<in> set fs then fs else fs @ [f]),
      lib_RemoveFinalizer = (\<lambda>fs f. filter (\<lambda>x. x \<noteq> f) fs)\<rparr>"

definition sample_ingress :: ingress where
  "sample_ingress =
     \<lparr>om_namespace = ''prod'', om_name = ''web'',
      om_annotations = [(CDNGroupAnnotation, ''g''), (CDNClassAnnotation, ''c''),
        (cfFunctionAssociationsAnnotation, ''ok''), (cfUserOriginsAnnotation, ''arn'')],
      om_finalizers = [], om_deletion = None,
      ing_rules = [None, Some [\<lparr>hp_path = ''/a'', hp_type = Some ''Prefix''\<rparr>,
                               \<lparr>hp_path = ''/b'', hp_type = Some ''Exact''\<rparr>]],
      ing_lb = [''lb.example''], ing_rest = []\<rparr>"

lemmas annotation_keys = CDNGroupAnnotation_def CDNClassAnnotation_def cfViewerFnAnnotation_def
  cfOrigReqPolicyAnnotation_def cfCachePolicyAnnotation_def cfResponsePolicyAnnotation_def
  cfOrigRespTimeoutAnnotation_def cfAlternateDomainNamesAnnotation_def cfWebACLARNAnnotation_def
  cfTagsAnnotation_def cfOrigHeadersAnnotation_def cfFunctionAssociationsAnnotation_def
  cfUserOriginsAnnotation_def CDNFinalizer_def

lemmas translate_defs = NewCDNIngressFromV1_def tagsAnnotationValue_def pathsV1_def
  functionAssociations_def viewerFnARN_def map_get_def headersV1_def spec_paths_def
  pathsForFunctionAssociations_def originReqPolicy_def cachePolicy_def responsePolicy_def
  originRespTimeout_def alternateDomainNames_def webACLARN_def IsBeingRemovedFromDesiredState_def
  HasGroupAnnotation_def HasFinalizer_def groupAnnotationValue_def

lemma sample_ingress_ok: "\<exists>ci. NewCDNIngressFromV1 sample_libs sample_ingress zero_class = Ok ci"
  by (simp add: sample_libs_def sample_ingress_def annotation_keys translate_defs)


section \<open>User-supplied origins\<close>

lemma validateBehaviors_loop_None_iff:
  "validateBehaviors_loop orig bs = None \<longleftrightarrow>
     (\<forall>b \<in> set bs. FA_Validate (cob_fa b) = None \<and> cob_path b \<notin> set (uo_paths orig) \<and>
        (FA_IsEmpty (cob_fa b) \<or> uo_viewer_function_arn orig = []))"
  by (induction bs) (auto split: option.splits)

lemma userOrigin_validate_None_iff:
  "userOrigin_validate orig = None \<longleftrightarrow>
     (\<forall>b \<in> set (uo_behaviors orig). FA_Validate (cob_fa b) = None \<and>
        cob_path b \<notin> set (uo_paths orig) \<and>
        (FA_IsEmpty (cob_fa b) \<or> uo_viewer_function_arn orig = [])) \<and>
     uo_host orig \<noteq> [] \<and> (uo_paths orig \<noteq> [] \<or> uo_behaviors orig \<noteq> []) \<and>
     uo_origin_access orig \<in> {CFUserOriginAccessPublic, CFUserOriginAccessBucket}"
  unfolding userOrigin_validate_def validateBehaviors_def
  by (simp add: validateBehaviors_loop_None_iff [symmetric] split: option.splits)

lemma userOriginsFromYAML_Ok:
  "userOriginsFromYAML libs s = Ok origs \<Longrightarrow> \<forall>u \<in> set origs. userOrigin_validate u = None"
  unfolding userOriginsFromYAML_def
  by (auto simp: out_bind_Ok_iff list_all2_conv_all_nth in_set_conv_nth dest!: out_mapM_Ok_all2
      split: option.splits) (metis option.distinct(1) option.exhaust)

lemma userOrigin_paths_valid:
  "userOrigin_validate orig = None \<Longrightarrow>
   list_all valid_path (userOrigin_paths orig) \<and> userOrigin_paths orig \<noteq> []"
  by (auto simp: userOrigin_validate_None_iff userOrigin_paths_def list_all_iff valid_path_def Let_def)

text \<open>
  C38. Every origin that a user declares in the annotation and that the controller accepts has a
  host, at least one path, an access type it knows, only valid function associations, and
  belongs to the group of the Ingress that declares it.
\<close>

theorem user_origins_valid:
  assumes "cdnIngressesForUserOrigins libs obj = Ok cis" and "ci \<in> set cis"
  shows "OriginHost ci \<noteq> [] \<and> UnmergedPaths ci \<noteq> [] \<and> list_all valid_path (UnmergedPaths ci) \<and>
         OriginAccess ci \<in> {CFUserOriginAccessPublic, CFUserOriginAccessBucket} \<and>
         Group ci = groupAnnotationValue obj"
proof -
  from assms obtain s origs orig where "userOriginsFromYAML libs s = Ok origs" "orig \<in> set origs"
    and ci: "OriginHost ci = uo_host orig" "UnmergedPaths ci = userOrigin_paths orig"
      "OriginAccess ci = uo_origin_access orig" "Group ci = groupAnnotationValue obj"
    by (auto simp: cdnIngressesForUserOrigins_def out_bind_Ok_iff split: option.splits)
  then have "userOrigin_validate orig = None" using userOriginsFromYAML_Ok by blast
  with ci show ?thesis
    using userOrigin_paths_valid [of orig] by (simp add: userOrigin_validate_None_iff)
qed

lemma sample_user_origins:
  "\<exists>ci. cdnIngressesForUserOrigins sample_libs sample_ingress = Ok [ci]"
  by (simp add: cdnIngressesForUserOrigins_def sample_libs_def sample_ingress_def annotation_keys
      userOriginsFromYAML_def userOrigin_validate_def validateBehaviors_def
      CFUserOriginAccessPublic_def)

theorem user_origins_valid_witness:
  "\<exists>ci. cdnIngressesForUserOrigins sample_libs sample_ingress = Ok [ci] \<and> OriginHost ci \<noteq> [] \<and>
        list_all valid_path (UnmergedPaths ci)"
  using sample_user_origins user_origins_valid [of sample_libs sample_ingress] by fastforce

section \<open>Validation of the reconciled Ingress\<close>

lemma out_mapM_unit_Ok_iff:
  "(\<exists>us. out_mapM f xs = Ok (us :: unit list)) \<longleftrightarrow> (\<forall>x \<in> set xs. f x = Ok ())"
  by (induction xs) (auto simp: out_bind_Ok_iff)

text \<open>
  An Ingress passes the validation of its function associations exactly when its annotation
  is absent, or parses to associations that are all valid, all refer to paths of the Ingress,
  and are not combined with the deprecated annotation. The order in which the map is visited
  does not matter.
\<close>

theorem validate_function_associations_iff:
  assumes "is_order ord" and "\<And>s m. yaml_fa libs s = Inr (Some m) \<Longrightarrow> wf_map m"
  shows "ValidateIngressFunctionAssociations libs ord ing = Ok () \<longleftrightarrow>
     (case annotation ing cfFunctionAssociationsAnnotation of
        None \<Rightarrow> True
      | Some s \<Rightarrow> (case yaml_fa libs s of
           Inl e \<Rightarrow> False
         | Inr None \<Rightarrow> True
         | Inr (Some m) \<Rightarrow> viewerFnARN ing = [] \<and>
             (\<forall>(p, fa) \<in> set m. FA_Validate fa = None \<and> p \<in> set (ingressPaths ing))))"
proof -
  have "(case x of (faPath, fa) \<Rightarrow> case FA_Validate fa of
        Some err \<Rightarrow> Err (ErrorfV ''invalid function association at path'' err)
      | None \<Rightarrow> if \<not> contains (ingressPaths ing) faPath
          then Err (Errorf ''function associations references a path that is not part of the Ingress'' [faPath])
          else Ok ()) = Ok () \<longleftrightarrow>
      (case x of (p, fa) \<Rightarrow> FA_Validate fa = None \<and> p \<in> set (ingressPaths ing))" for x
    by (cases x) (simp split: option.split)
  note entry = this
  show ?thesis
  proof (cases "annotation ing cfFunctionAssociationsAnnotation")
    case (Some s)
    show ?thesis
    proof (cases "yaml_fa libs s")
      case (Inr mo)
      with Some show ?thesis
        using assms(2) [of s]
        by (cases mo) (simp_all add: ValidateIngressFunctionAssociations_def
            functionAssociations_def set_map_range [OF assms(1)] out_bind_Ok_iff out_mapM_unit_Ok_iff entry)
    qed (simp add: Some ValidateIngressFunctionAssociations_def functionAssociations_def)
  qed (simp add: ValidateIngressFunctionAssociations_def functionAssociations_def)
qed

theorem validate_function_associations_iff_witness:
  "ValidateIngressFunctionAssociations sample_libs rev sample_ingress = Ok ()"
proof -
  have wf: "\<And>s m. yaml_fa sample_libs s = Inr (Some m) \<Longrightarrow> wf_map m"
    by (auto simp: sample_libs_def wf_map_def split: if_splits)
  show ?thesis
    by (subst validate_function_associations_iff [OF is_order_rev wf])
       (simp_all add: sample_libs_def sample_ingress_def annotation_keys viewerFnARN_def map_get_def
          ingressPaths_def spec_paths_def)
qed

section \<open>Origin headers\<close>

definition header_token :: "string \<Rightarrow> bool" where
  "header_token s \<longleftrightarrow> s \<noteq> [] \<and> CHR ''='' \<notin> set s \<and> CHR '','' \<notin> set s"

definition render_headers :: "(string, string) gomap \<Rightarrow> string" where
  "render_headers m = go_join '','' (map (\<lambda>(k, v). k @ ''='' @ v) m)"

lemma go_split_header: "header_token k \<Longrightarrow> header_token v \<Longrightarrow> go_split CHR ''='' (k @ CHR ''='' # v) = [k, v]"
  by (simp add: header_token_def go_simps)

lemma parse_headers_fold:
  assumes "\<forall>(k, v) \<in> set m. header_token k \<and> header_token v"
  shows "out_foldM (\<lambda>result kv. let kvParts = go_split CHR ''='' kv in
             if length kvParts \<noteq> 2 \<or> kvParts ! 0 = [] \<or> kvParts ! 1 = []
             then Err (Errorf ''informed origin header does not follow key=value format'' [kv])
             else Ok (AList.update (kvParts ! 0) (kvParts ! 1) result)) acc
          (map (\<lambda>(k, v). k @ ''='' @ v) m) = Ok (fold (\<lambda>(k, v) r. AList.update k v r) m acc)"
  using assms
  by (induction m arbitrary: acc) (auto simp: go_split_header Let_def, auto simp: header_token_def)

lemma fold_update_fresh:
  "distinct (keys acc @ keys m) \<Longrightarrow> fold (\<lambda>(k, v) r. AList.update k v r) m acc = acc @ m"
proof (induction m arbitrary: acc)
  case (Cons kv m)
  obtain k v where kv: "kv = (k, v)" by fastforce
  have "AList.update k v acc = acc @ [(k, v)]"
    using Cons.prems kv by (intro update_fresh) auto
  with Cons kv show ?case by simp
qed simp

text \<open>
  C39. The header annotation is parsed as written: rendering any non-empty map of header names and
  values (non-empty, without comma or equals sign) as key=value pairs separated by commas and
  parsing it again gives back that map, in the same order.
\<close>

theorem origin_headers_roundtrip:
  assumes "m \<noteq> []" and "wf_map m" and "\<forall>(k, v) \<in> set m. header_token k \<and> header_token v"
  shows "parseOriginHeaders (render_headers m) = Ok (Some m)"
proof -
  let ?ps = "map (\<lambda>(k, v). k @ ''='' @ v) m"
  have "CHR '','' \<notin> set p" if "p \<in> set ?ps" for p
    using that assms(3) by (auto simp: header_token_def)
  then have "go_split CHR '','' (render_headers m) = ?ps"
    unfolding render_headers_def using assms(1) by (intro go_split_join) auto
  moreover have "render_headers m \<noteq> []"
    using assms(1,3) unfolding render_headers_def
    by (cases m; cases "tl m") auto
  moreover have "fold (\<lambda>(k, v) r. AList.update k v r) m [] = m"
    using fold_update_fresh [of "[]" m] assms(2) by (simp add: wf_map_def)
  ultimately show ?thesis
    unfolding parseOriginHeaders_def by (simp add: parse_headers_fold [OF assms(3), simplified])
qed

theorem origin_headers_roundtrip_witness:
  "parseOriginHeaders ''static=value,dynamic={{origin.host}}'' =
     Ok (Some [(''static'', ''value''), (''dynamic'', ''{{origin.host}}'')])"
  using origin_headers_roundtrip [of "[(''static'', ''value''), (''dynamic'', ''{{origin.host}}'')]"]
  by (simp add: render_headers_def wf_map_def header_token_def)

lemma parseOriginHeaders_no_panic: "parseOriginHeaders s \<noteq> Panic"
proof -
  have "out_foldM (\<lambda>result kv. let kvParts = go_split CHR ''='' kv in
             if length kvParts \<noteq> 2 \<or> kvParts ! 0 = [] \<or> kvParts ! 1 = []
             then Err (Errorf ''informed origin header does not follow key=value format'' [kv])
             else Ok (AList.update (kvParts ! 0) (kvParts ! 1) result)) acc xs \<noteq> Panic" for acc xs
    by (induction xs arbitrary: acc) (auto simp: Let_def)
  then show ?thesis by (simp add: parseOriginHeaders_def out_bind_Panic_iff)
qed

section \<open>Alternate domain names\<close>

lemma alternateDomainNames_distinct:
  "distinct (alternateDomainNames obj) \<and>
   set (alternateDomainNames obj) =
     (let v = annotation_value obj cfAlternateDomainNamesAnnotation in
      if v = [] then {} else set (go_split CHR '','' v))"
proof -
  have "foldl (\<lambda>domainNames d. if d \<notin> set domainNames then domainNames @ [d] else domainNames) xs ys =
     add_all_absent xs (ys :: string list)" for xs ys
    unfolding add_all_absent_def by (induction ys arbitrary: xs) (simp_all add: add_if_absent_def)
  then show ?thesis by (simp add: alternateDomainNames_def Let_def)
qed

end
