(* ===== verification/Shared_Params.thy ===== *)
theory Shared_Params
  imports Ingress_Props
begin

text \<open>
  The parameters that several Ingresses of a group share (\<open>internal/k8s/ingress.go\<close>): the Web
  ACL of the distribution and, per origin host, the paths with the function associations merged
  over all Ingresses.
\<close>

section \<open>Definitions\<close>

type_synonym path_key = "string \<times> string"

type_synonym merged_paths = "(string, (path_key, function_associations) gomap) gomap"

record shared_params =
  WebACLARN :: string
  sp_paths :: "(string, path list) gomap"

text \<open>\<open>sets.String\<close>: inserting, counting, and popping the element of a set of at most one.\<close>

definition mergedWebACL :: "cdn_ingress list \<Rightarrow> string outcome" where
  "mergedWebACL ingresses =
     (let webACLARNs = foldl (\<lambda>s ing. if length (UnmergedWebACLARN ing) > 0
            then add_if_absent s (UnmergedWebACLARN ing) else s) [] ingresses in
      if length webACLARNs > 1 then Err (Errorf ''more than one ACL specified'' webACLARNs)
      else Ok (case webACLARNs of [] \<Rightarrow> [] | arn # _ \<Rightarrow> arn))"

definition merge_path :: "string \<Rightarrow> merged_paths \<Rightarrow> path \<Rightarrow> merged_paths outcome" where
  "merge_path host merged p =
     (let inner = map_get merged host []; pKey = (PathPattern p, PathType p) in
      case map_of inner pKey of
        None \<Rightarrow> Ok (AList.update host (AList.update pKey (path_fa p) inner) merged)
      | Some existingFA \<Rightarrow>
          out_bind (out_wrap (ErrorfV ''conflicting function associations'')
            (FA_Merge existingFA (path_fa p))) (\<lambda>mergedFA.
          Ok (AList.update host (AList.update pKey mergedFA inner) merged)))"

definition merge_ingress :: "merged_paths \<Rightarrow> cdn_ingress \<Rightarrow> merged_paths outcome" where
  "merge_ingress merged ing =
     (let merged = (case map_of merged (OriginHost ing) of
          None \<Rightarrow> AList.update (OriginHost ing) [] merged | Some _ \<Rightarrow> merged) in
      out_foldM (merge_path (OriginHost ing)) merged (UnmergedPaths ing))"

definition merge_all_ingresses :: "cdn_ingress list \<Rightarrow> merged_paths outcome" where
  "merge_all_ingresses ingresses = out_foldM merge_ingress [] ingresses"

definition mapOfOriginHostToPath ::
    "string order \<Rightarrow> path_key order \<Rightarrow> merged_paths \<Rightarrow> (string, path list) gomap" where
  "mapOfOriginHostToPath ordh ordp m =
     fold (\<lambda>(originHost, pathsAndFAs) s.
       fold (\<lambda>((pattern, ty), fa) s.
         AList.update originHost
           (map_get s originHost [] @ [\<lparr>PathPattern = pattern, PathType = ty, path_fa = fa\<rparr>]) s)
       (map_range ordp pathsAndFAs) s)
     (map_range ordh m) []"

definition mergedPaths ::
    "string order \<Rightarrow> path_key order \<Rightarrow> cdn_ingress list \<Rightarrow> (string, path list) gomap outcome" where
  "mergedPaths ordh ordp ingresses =
     out_bind (merge_all_ingresses ingresses) (\<lambda>m. Ok (mapOfOriginHostToPath ordh ordp m))"

definition NewSharedIngressParams ::
    "string order \<Rightarrow> path_key order \<Rightarrow> cdn_ingress list \<Rightarrow> shared_params outcome" where
  "NewSharedIngressParams ordh ordp ingresses =
     out_bind (out_wrap (ErrorfWV ErrConflictingACL) (mergedWebACL ingresses)) (\<lambda>acl.
     out_bind (out_wrap (ErrorfWV ErrConflictingPaths) (mergedPaths ordh ordp ingresses)) (\<lambda>fa.
     Ok \<lparr>WebACLARN = acl, sp_paths = fa\<rparr>))"

definition PathsFromOrigin :: "shared_params \<Rightarrow> string \<Rightarrow> path list" where
  "PathsFromOrigin sp originHost = map_get (sp_paths sp) originHost []"

text \<open>A blank Ingress to build examples from.\<close>

definition blank_ing :: cdn_ingress where
  "blank_ing = \<lparr>ci_namespace = ''ns'', ci_name = ''ing'', OriginHost = [], Group = ''g'',
     UnmergedPaths = [], OriginReqPolicy = [], OriginHeaders = None, CachePolicy = [],
     ResponsePolicy = [], OriginRespTimeout = 30, AlternateDomainNames = [], UnmergedWebACLARN = [],
     IsBeingRemoved = False, OriginAccess = CFUserOriginAccessPublic, Class = zero_class, Tags = []\<rparr>"

section \<open>The Web ACL\<close>

definition declared_acls :: "cdn_ingress list \<Rightarrow> string set" where
  "declared_acls ings = {UnmergedWebACLARN ing | ing. ing \<in> set ings} - {[]}"

lemma acl_set_fold:
  "set (foldl (\<lambda>s ing. if length (UnmergedWebACLARN ing) > 0
      then add_if_absent s (UnmergedWebACLARN ing) else s) acc ings) = set acc \<union> declared_acls ings \<and>
   (distinct acc \<longrightarrow> distinct (foldl (\<lambda>s ing. if length (UnmergedWebACLARN ing) > 0
      then add_if_absent s (UnmergedWebACLARN ing) else s) acc ings))"
  by (induction ings arbitrary: acc) (auto simp: declared_acls_def)

text \<open>
  The Web ACL of a group: no error exactly when the Ingresses declare at most one ACL (empty
  declarations do not count), and then the result is that ACL, or empty when none is declared.
  The error carries every declared ACL.
\<close>

theorem merged_web_acl:
  "(mergedWebACL ings = Ok acl \<longleftrightarrow> declared_acls ings = (if acl = [] then {} else {acl})) \<and>
   (mergedWebACL ings = Err e \<longrightarrow> (\<exists>arns. e = Errorf ''more than one ACL specified'' arns \<and>
      set arns = declared_acls ings \<and> distinct arns \<and> 1 < length arns)) \<and>
   mergedWebACL ings \<noteq> Panic"
proof -
  define s where "s = foldl (\<lambda>s ing. if length (UnmergedWebACLARN ing) > 0
      then add_if_absent s (UnmergedWebACLARN ing) else s) [] ings"
  have s: "set s = declared_acls ings" "distinct s"
    using acl_set_fold [of "[]" ings] by (simp_all add: s_def)
  have m: "mergedWebACL ings = (if length s > 1 then Err (Errorf ''more than one ACL specified'' s)
      else Ok (case s of [] \<Rightarrow> [] | arn # _ \<Rightarrow> arn))"
    by (simp add: mergedWebACL_def s_def)
  have nonempty: "[] \<notin> declared_acls ings" by (simp add: declared_acls_def)
  consider "s = []" | a where "s = [a]" | a b r where "s = a # b # r"
    by (cases s; cases "tl s") auto
  then show ?thesis
  proof cases
    case 3
    with s(2) have "a \<noteq> b" by simp
    then show ?thesis using m s 3 by auto
  qed (use m s nonempty in auto)
qed

theorem merged_web_acl_witness:
  "\<exists>arns. Errorf ''more than one ACL specified'' [''a'', ''b''] = Errorf ''more than one ACL specified'' arns \<and>
     set arns = declared_acls [blank_ing\<lparr>UnmergedWebACLARN := ''a''\<rparr>, blank_ing\<lparr>UnmergedWebACLARN := ''b''\<rparr>] \<and>
     distinct arns \<and> 1 < length arns"
  using merged_web_acl [where e = "Errorf ''more than one ACL specified'' [''a'', ''b'']"
    and ings = "[blank_ing\<lparr>UnmergedWebACLARN := ''a''\<rparr>, blank_ing\<lparr>UnmergedWebACLARN := ''b''\<rparr>]"]
  by (simp add: mergedWebACL_def add_if_absent_def)

section \<open>The merge of paths\<close>

text \<open>What the Ingresses contribute to a host and path key, in order.\<close>

definition contribs :: "cdn_ingress list \<Rightarrow> (string \<times> path_key \<times> function_associations) list" where
  "contribs ings = concat (map (\<lambda>ing. map (\<lambda>p. (OriginHost ing, (PathPattern p, PathType p), path_fa p))
     (UnmergedPaths ing)) ings)"

definition fas_at ::
    "(string \<times> path_key \<times> function_associations) list \<Rightarrow> string \<Rightarrow> path_key \<Rightarrow> function_associations list" where
  "fas_at cs h k = map (snd \<circ> snd) (filter (\<lambda>(h', k', _). h' = h \<and> k' = k) cs)"

definition look :: "merged_paths \<Rightarrow> string \<Rightarrow> path_key \<Rightarrow> function_associations option" where
  "look m h k = map_of (map_get m h []) k"

text \<open>
  The merge of the contributions to one key; a list of contributions is consistent when no merge
  fails; a map represents a consistent list when it holds the merges.
\<close>

definition merge_at ::
    "(string \<times> path_key \<times> function_associations) list \<Rightarrow> string \<Rightarrow> path_key \<Rightarrow> function_associations outcome" where
  "merge_at cs h k = out_foldM FA_Merge empty_fa (fas_at cs h k)"

definition consistent :: "(string \<times> path_key \<times> function_associations) list \<Rightarrow> bool" where
  "consistent cs \<longleftrightarrow> (\<forall>h k. ok_part (merge_at cs h k) \<noteq> None)"

definition represents :: "merged_paths \<Rightarrow> (string \<times> path_key \<times> function_associations) list \<Rightarrow> bool" where
  "represents m cs \<longleftrightarrow> consistent cs \<and>
     (\<forall>h k. look m h k = (if fas_at cs h k = [] then None else ok_part (merge_at cs h k)))"

lemma fas_at_Nil [simp]: "fas_at [] h k = []"
  by (simp add: fas_at_def)

lemma fas_at_snoc [simp]:
  "fas_at (cs @ [(h', k', fa)]) h k = fas_at cs h k @ (if h' = h \<and> k' = k then [fa] else [])"
  by (simp add: fas_at_def)

lemma look_Nil [simp]: "look [] h k = None"
  by (simp add: look_def map_get_def)

lemma look_update: "look (AList.update h' (AList.update k' fa (map_get m h' [])) m) h k =
    (if h = h' \<and> k = k' then Some fa else look m h k)"
  by (simp add: look_def map_get_def update_conv')

lemma look_new_host:
  "look (case map_of m h' of None \<Rightarrow> AList.update h' [] m | Some _ \<Rightarrow> m) = look m"
  by (auto simp: fun_eq_iff look_def map_get_def update_conv' split: option.splits)

lemma fas_at_append: "fas_at (cs @ ds) h k = fas_at cs h k @ fas_at ds h k"
  by (simp add: fas_at_def)

lemma merge_at_snoc:
  "merge_at (cs @ [(h', k', fa)]) h k =
     (if h' = h \<and> k' = k then out_bind (merge_at cs h k) (\<lambda>a. FA_Merge a fa) else merge_at cs h k)"
  by (simp add: merge_at_def out_foldM_append)

lemma consistentI: "(\<And>h k. \<exists>a. merge_at cs h k = Ok a) \<Longrightarrow> consistent cs"
  unfolding consistent_def by (metis ok_part_Some_iff option.distinct(1))

lemma consistentD: "consistent cs \<Longrightarrow> \<exists>a. merge_at cs h k = Ok a"
  unfolding consistent_def by (metis ok_part_Some_iff option.exhaust)

lemma consistent_append: "consistent (cs @ ds) \<Longrightarrow> consistent cs"
proof (rule consistentI)
  fix h k
  assume "consistent (cs @ ds)"
  from consistentD [OF this, of h k] show "\<exists>a. merge_at cs h k = Ok a"
    by (auto simp: merge_at_def fas_at_append out_foldM_append out_bind_Ok_iff)
qed

lemma representsI:
  "consistent cs \<Longrightarrow>
   (\<And>h k. look m h k = (if fas_at cs h k = [] then None else ok_part (merge_at cs h k))) \<Longrightarrow>
   represents m cs"
  unfolding represents_def by blast

lemma represents_consistentD: "represents m cs \<Longrightarrow> consistent cs"
  unfolding represents_def by blast

lemma represents_lookD:
  "represents m cs \<Longrightarrow> look m h k = (if fas_at cs h k = [] then None else ok_part (merge_at cs h k))"
  unfolding represents_def by blast

lemma represents_merge_path:
  fixes h p
  assumes R: "represents m cs"
  defines "ds \<equiv> cs @ [(h, (PathPattern p, PathType p), path_fa p)]"
  shows "merge_path h m p = Ok m' \<Longrightarrow> represents m' ds"
    and "merge_path h m p = Err e \<Longrightarrow> \<not> consistent ds"
    and "merge_path h m p \<noteq> Panic"
proof -
  define k where "k = (PathPattern p, PathType p)"
  have mp: "merge_path h m p = (case look m h k of
        None \<Rightarrow> Ok (AList.update h (AList.update k (path_fa p) (map_get m h [])) m)
      | Some ex \<Rightarrow> out_bind (out_wrap (ErrorfV ''conflicting function associations'')
            (FA_Merge ex (path_fa p))) (\<lambda>fa. Ok (AList.update h (AList.update k fa (map_get m h [])) m)))"
    unfolding k_def by (simp add: merge_path_def look_def Let_def)
  have ds: "ds = cs @ [(h, k, path_fa p)]" by (simp add: ds_def k_def)
  have cons: "consistent cs"
    and lk: "\<And>h k. look m h k = (if fas_at cs h k = [] then None else ok_part (merge_at cs h k))"
    using represents_consistentD [OF R] represents_lookD [OF R] by blast+
  obtain a where a: "merge_at cs h k = Ok a"
    using consistentD [OF cons] by blast
  have new: "merge_at ds h k = FA_Merge a (path_fa p)" by (simp add: ds merge_at_snoc a)
  have a0: "a = empty_fa" if "fas_at cs h k = []" using a that by (simp add: merge_at_def)
  show "merge_path h m p \<noteq> Panic"
    by (simp add: mp out_bind_Panic_iff split: option.split)
  { assume ok: "merge_path h m p = Ok m'"
    have "\<exists>fa. FA_Merge a (path_fa p) = Ok fa \<and> m' = AList.update h (AList.update k fa (map_get m h [])) m"
      using ok a0 by (auto simp: mp lk a out_bind_Ok_iff split: if_splits)
    then obtain fa where fa: "FA_Merge a (path_fa p) = Ok fa"
      and m': "m' = AList.update h (AList.update k fa (map_get m h [])) m" by blast
    have at: "merge_at ds h' k' = (if h' = h \<and> k' = k then Ok fa else merge_at cs h' k')" for h' k'
      by (simp add: ds merge_at_snoc a fa)
    show "represents m' ds"
    proof (rule representsI)
      show "consistent ds"
        using consistentD [OF cons] by (intro consistentI) (simp add: at)
      show "look m' h' k' = (if fas_at ds h' k' = [] then None else ok_part (merge_at ds h' k'))" for h' k'
        unfolding at m' look_update lk by (simp add: ds)
    qed }
  assume err: "merge_path h m p = Err e"
  then have "\<exists>d. FA_Merge a (path_fa p) = Err d"
    by (auto simp: mp lk a out_bind_Err_iff out_wrap_Err_iff split: if_splits)
  with new show "\<not> consistent ds"
    using consistentD [of ds h k] by auto
qed

lemma merge_paths_fold:
  assumes "represents m cs"
  shows "(\<forall>m'. out_foldM (merge_path h) m ps = Ok m' \<longrightarrow>
            represents m' (cs @ map (\<lambda>p. (h, (PathPattern p, PathType p), path_fa p)) ps)) \<and>
     (\<forall>e. out_foldM (merge_path h) m ps = Err e \<longrightarrow>
            \<not> consistent (cs @ map (\<lambda>p. (h, (PathPattern p, PathType p), path_fa p)) ps)) \<and>
     out_foldM (merge_path h) m ps \<noteq> Panic"
  using assms
proof (induction ps arbitrary: m cs)
  case (Cons p ps)
  let ?cs = "cs @ [(h, (PathPattern p, PathType p), path_fa p)]"
  show ?case
  proof (cases "merge_path h m p")
    case (Ok m')
    from Cons.IH [OF represents_merge_path(1) [OF Cons.prems Ok]] Ok show ?thesis by simp
  next
    case (Err e)
    from represents_merge_path(2) [OF Cons.prems Err]
    have "\<not> consistent (?cs @ map (\<lambda>p. (h, (PathPattern p, PathType p), path_fa p)) ps)"
      using consistent_append by blast
    with Err show ?thesis by simp
  next
    case Panic
    with represents_merge_path(3) [OF Cons.prems] show ?thesis by blast
  qed
qed simp

lemma merge_ingress_step:
  assumes "represents m cs"
  shows "(\<forall>m'. merge_ingress m ing = Ok m' \<longrightarrow> represents m' (cs @ contribs [ing])) \<and>
     (\<forall>e. merge_ingress m ing = Err e \<longrightarrow> \<not> consistent (cs @ contribs [ing])) \<and>
     merge_ingress m ing \<noteq> Panic"
proof -
  let ?m = "case map_of m (OriginHost ing) of None \<Rightarrow> AList.update (OriginHost ing) [] m | Some _ \<Rightarrow> m"
  have "represents ?m cs"
    using represents_consistentD [OF assms] represents_lookD [OF assms]
    by (intro representsI) (simp_all add: look_new_host)
  from merge_paths_fold [OF this, of "OriginHost ing" "UnmergedPaths ing"]
  show ?thesis by (simp add: merge_ingress_def contribs_def Let_def)
qed

lemma merge_all_represents:
  assumes "represents m cs"
  shows "(\<forall>m'. out_foldM merge_ingress m ings = Ok m' \<longrightarrow> represents m' (cs @ contribs ings)) \<and>
     (\<forall>e. out_foldM merge_ingress m ings = Err e \<longrightarrow> \<not> consistent (cs @ contribs ings)) \<and>
     out_foldM merge_ingress m ings \<noteq> Panic"
  using assms
proof (induction ings arbitrary: m cs)
  case Nil
  then show ?case by (simp add: contribs_def)
next
  case (Cons ing ings)
  have split: "contribs (ing # ings) = contribs [ing] @ contribs ings" by (simp add: contribs_def)
  note step = merge_ingress_step [OF Cons.prems, of ing]
  show ?case
  proof (cases "merge_ingress m ing")
    case (Ok m')
    with step have "represents m' (cs @ contribs [ing])" by blast
    from Cons.IH [OF this] Ok show ?thesis by (simp add: split)
  next
    case (Err e)
    with step have "\<not> consistent ((cs @ contribs [ing]) @ contribs ings)"
      using consistent_append by blast
    with Err show ?thesis by (simp add: split)
  qed (use step in simp)
qed

lemma merge_all_ingresses_iff:
  "(\<exists>m. merge_all_ingresses ings = Ok m) \<longleftrightarrow> consistent (contribs ings)"
  "merge_all_ingresses ings = Ok m \<Longrightarrow> represents m (contribs ings)"
  "merge_all_ingresses ings \<noteq> Panic"
proof -
  have "represents [] []" by (intro representsI consistentI) (simp_all add: merge_at_def)
  note all = merge_all_represents [OF this, of ings, folded merge_all_ingresses_def, simplified]
  from all show "merge_all_ingresses ings = Ok m \<Longrightarrow> represents m (contribs ings)"
    and "merge_all_ingresses ings \<noteq> Panic" by blast+
  with all show "(\<exists>m. merge_all_ingresses ings = Ok m) \<longleftrightarrow> consistent (contribs ings)"
    by (cases "merge_all_ingresses ings") (auto dest: represents_consistentD)
qed

lemma represents_absorbs:
  assumes "represents m cs" and "fa \<in> set (fas_at cs h k)"
  shows "\<exists>r. look m h k = Some r \<and> FA_Merge r fa = Ok r"
proof -
  obtain r where r: "merge_at cs h k = Ok r"
    using consistentD [OF represents_consistentD [OF assms(1)]] by blast
  moreover have "fas_at cs h k \<noteq> []" using assms(2) by auto
  ultimately have "look m h k = Some r" by (simp add: represents_lookD [OF assms(1)])
  moreover have "FA_Merge r fa = Ok r"
    using fa.fold_absorbs [OF r [unfolded merge_at_def] assms(2)] .
  ultimately show ?thesis by blast
qed

lemma fas_at_contribs:
  "ing \<in> set ings \<Longrightarrow> p \<in> set (UnmergedPaths ing) \<Longrightarrow>
   path_fa p \<in> set (fas_at (contribs ings) (OriginHost ing) (PathPattern p, PathType p))"
  by (force simp: fas_at_def contribs_def)

lemma fas_at_contribsD:
  "fas_at (contribs ings) h (pat, ty) \<noteq> [] \<Longrightarrow>
   \<exists>ing \<in> set ings. OriginHost ing = h \<and> (\<exists>p \<in> set (UnmergedPaths ing). PathPattern p = pat \<and> PathType p = ty)"
  by (auto simp: fas_at_def contribs_def filter_empty_conv)

section \<open>The paths of a host\<close>

abbreviation path_at :: "path_key \<times> function_associations \<Rightarrow> path" where
  "path_at x \<equiv> \<lparr>PathPattern = fst (fst x), PathType = snd (fst x), path_fa = snd x\<rparr>"

lemma map_get_add_paths:
  "map_get (fold (\<lambda>((pattern, ty), fa) s. AList.update host
       (map_get s host [] @ [\<lparr>PathPattern = pattern, PathType = ty, path_fa = fa\<rparr>]) s) ys s) h [] =
   map_get s h [] @ (if h = host then map path_at ys else [])"
  by (induction ys arbitrary: s) (auto simp: map_get_def update_conv')

lemma map_get_add_hosts:
  "map_get (fold (\<lambda>(originHost, pathsAndFAs) s.
       fold (\<lambda>((pattern, ty), fa) s.
         AList.update originHost
           (map_get s originHost [] @ [\<lparr>PathPattern = pattern, PathType = ty, path_fa = fa\<rparr>]) s)
       (map_range ordp pathsAndFAs) s) xs s) h [] =
   map_get s h [] @ concat (map (\<lambda>x. if fst x = h then map path_at (map_range ordp (snd x)) else []) xs)"
  by (induction xs arbitrary: s) (auto simp: map_get_add_paths)

text \<open>The paths of a host are the entries of the merged map for it, for every order of iteration.\<close>

lemma mem_map_range:
  assumes "is_order ord"
  shows "x \<in> set (map_range ord m) \<longleftrightarrow> map_of m (fst x) = Some (snd x)"
proof -
  have "x \<in> set (map_range ord m) \<longleftrightarrow> fst x \<in> fst ` set m \<and> snd x = the (map_of m (fst x))"
    by (cases x) (auto simp: map_range_def order_set [OF assms])
  then show ?thesis
    by (cases "map_of m (fst x)") (auto simp: map_of_eq_None_iff dest: map_of_SomeD)
qed

lemma mem_concat_if:
  "x \<in> set (concat (map (\<lambda>y. if P y then f y else []) ys)) \<longleftrightarrow> (\<exists>y \<in> set ys. P y \<and> x \<in> set (f y))"
  by (induction ys) auto

lemma mem_path_at: "p \<in> path_at ` S \<longleftrightarrow> ((PathPattern p, PathType p), path_fa p) \<in> S"
proof
  assume "((PathPattern p, PathType p), path_fa p) \<in> S"
  then show "p \<in> path_at ` S" by (rule rev_image_eqI) simp
qed auto

lemma paths_of_host:
  assumes "is_order ordh" and "is_order ordp"
  shows "p \<in> set (map_get (mapOfOriginHostToPath ordh ordp m) h []) \<longleftrightarrow>
     look m h (PathPattern p, PathType p) = Some (path_fa p)"
proof -
  have "p \<in> set (map_get (mapOfOriginHostToPath ordh ordp m) h []) \<longleftrightarrow>
      (\<exists>x \<in> set (map_range ordh m). fst x = h \<and> p \<in> set (map path_at (map_range ordp (snd x))))"
    unfolding mapOfOriginHostToPath_def map_get_add_hosts set_append Un_iff mem_concat_if
    by (simp add: map_get_def)
  also have "\<dots> \<longleftrightarrow> (\<exists>inner. map_of m h = Some inner \<and> p \<in> path_at ` set (map_range ordp inner))"
    unfolding Bex_def mem_map_range [OF assms(1)] set_map split_paired_Ex fst_conv snd_conv by blast
  also have "\<dots> \<longleftrightarrow> (\<exists>inner. map_of m h = Some inner \<and> map_of inner (PathPattern p, PathType p) = Some (path_fa p))"
    unfolding mem_path_at mem_map_range [OF assms(2)] by simp
  also have "\<dots> \<longleftrightarrow> look m h (PathPattern p, PathType p) = Some (path_fa p)"
    by (auto simp: look_def map_get_def split: option.split)
  finally show ?thesis .
qed

text \<open>Every path an Ingress declares is there, and every path there is declared.\<close>

lemma shared_paths:
  assumes "is_order ordh" and "is_order ordp" and "NewSharedIngressParams ordh ordp ings = Ok shared"
  shows "(\<lambda>p. (PathPattern p, PathType p)) ` set (PathsFromOrigin shared h) =
     (\<lambda>p. (PathPattern p, PathType p)) ` (\<Union>ing \<in> {ing \<in> set ings. OriginHost ing = h}. set (UnmergedPaths ing))"
proof -
  from assms(3) obtain m where m: "merge_all_ingresses ings = Ok m"
    and sp: "sp_paths shared = mapOfOriginHostToPath ordh ordp m"
    by (auto simp: NewSharedIngressParams_def mergedPaths_def out_bind_Ok_iff)
  note R = merge_all_ingresses_iff(2) [OF m]
  have mem: "p \<in> set (PathsFromOrigin shared h) \<longleftrightarrow> look m h (PathPattern p, PathType p) = Some (path_fa p)" for p
    by (simp add: PathsFromOrigin_def sp paths_of_host [OF assms(1,2)])
  have declared: "\<exists>ing \<in> set ings. OriginHost ing = h \<and> (\<exists>p \<in> set (UnmergedPaths ing). PathPattern p = pat \<and> PathType p = ty)"
    if "look m h (pat, ty) = Some fa" for pat ty fa
    using that by (intro fas_at_contribsD) (simp add: represents_lookD [OF R] split: if_splits)
  show ?thesis
  proof (intro equalityI subsetI)
    fix x assume "x \<in> (\<lambda>p. (PathPattern p, PathType p)) ` set (PathsFromOrigin shared h)"
    then obtain p where p: "p \<in> set (PathsFromOrigin shared h)" "x = (PathPattern p, PathType p)" by blast
    from declared [OF p(1) [unfolded mem]] obtain ing q where "ing \<in> set ings" "OriginHost ing = h"
      "q \<in> set (UnmergedPaths ing)" "(PathPattern q, PathType q) = x"
      using p(2) by auto
    then show "x \<in> (\<lambda>p. (PathPattern p, PathType p)) ` (\<Union>ing \<in> {ing \<in> set ings. OriginHost ing = h}. set (UnmergedPaths ing))"
      by blast
  next
    fix x assume "x \<in> (\<lambda>p. (PathPattern p, PathType p)) ` (\<Union>ing \<in> {ing \<in> set ings. OriginHost ing = h}. set (UnmergedPaths ing))"
    then obtain ing p where p: "ing \<in> set ings" "OriginHost ing = h" "p \<in> set (UnmergedPaths ing)"
      and x: "x = (PathPattern p, PathType p)" by blast
    from represents_absorbs [OF R fas_at_contribs [OF p(1,3)]] p(2) obtain fa
      where "look m h (PathPattern p, PathType p) = Some fa" by blast
    then have "\<lparr>PathPattern = PathPattern p, PathType = PathType p, path_fa = fa\<rparr> \<in> set (PathsFromOrigin shared h)"
      by (simp add: mem)
    then show "x \<in> (\<lambda>p. (PathPattern p, PathType p)) ` set (PathsFromOrigin shared h)"
      by (rule rev_image_eqI) (simp add: x)
  qed
qed

text \<open>Two Ingresses of a group that share a path.\<close>

definition shared_ing1 :: cdn_ingress where
  "shared_ing1 = blank_ing\<lparr>OriginHost := ''host'', UnmergedPaths :=
     [\<lparr>PathPattern = ''/a'', PathType = ''Prefix'', path_fa = newFAFromViewerFunctionARN ''fn''\<rparr>]\<rparr>"

definition shared_ing2 :: cdn_ingress where
  "shared_ing2 = blank_ing\<lparr>OriginHost := ''host'', UnmergedPaths :=
     [\<lparr>PathPattern = ''/a'', PathType = ''Prefix'', path_fa = empty_fa\<rparr>,
      \<lparr>PathPattern = ''/b'', PathType = ''Exact'', path_fa = empty_fa\<rparr>]\<rparr>"



lemma fold_merge_agree:
  "(\<exists>r. out_foldM FA_Merge a xs = Ok r) \<longleftrightarrow>
   (\<forall>x \<in> set xs. fa_agree a x) \<and> (\<forall>x \<in> set xs. \<forall>y \<in> set xs. fa_agree x y)"
proof (induction xs arbitrary: a)
  case (Cons x xs)
  have "(\<exists>r. out_foldM FA_Merge a (x # xs) = Ok r) \<longleftrightarrow>
      fa_agree a x \<and> (\<exists>r. out_foldM FA_Merge (fa_join a x) xs = Ok r)"
    by (auto simp: out_bind_Ok_iff FA_Merge_Ok_iff)
  also have "\<dots> \<longleftrightarrow> fa_agree a x \<and> (\<forall>y \<in> set xs. fa_agree a y \<and> fa_agree x y) \<and>
      (\<forall>y \<in> set xs. \<forall>z \<in> set xs. fa_agree y z)"
    by (auto simp: Cons.IH fa_agree_join)
  finally show ?case using fa_agree_comm by auto
qed simp

lemma merge_at_Ok_iff:
  "(\<exists>r. merge_at cs h k = Ok r) \<longleftrightarrow>
   (\<forall>x \<in> set (fas_at cs h k). \<forall>y \<in> set (fas_at cs h k). fa_agree x y)"
proof -
  have "fa_agree empty_fa x" for x
    by (simp add: fa_agree_def agree_def empty_fa_def)
  then show ?thesis unfolding merge_at_def fold_merge_agree by blast
qed

lemma consistent_iff:
  "consistent cs \<longleftrightarrow>
   (\<forall>h k. \<forall>x \<in> set (fas_at cs h k). \<forall>y \<in> set (fas_at cs h k). fa_agree x y)"
  unfolding merge_at_Ok_iff [symmetric] using consistentD consistentI by metis

lemma mem_fas_at_contribs:
  "x \<in> set (fas_at (contribs ings) h (pat, ty)) \<longleftrightarrow>
   (\<exists>ing \<in> set ings. \<exists>p \<in> set (UnmergedPaths ing).
      OriginHost ing = h \<and> PathPattern p = pat \<and> PathType p = ty \<and> path_fa p = x)"
  by (force simp: fas_at_def contribs_def)

text \<open>
  C25. The merge fails exactly on a conflict: it succeeds if and only if any two declarations of
  the same path (pattern and type) for the same origin host agree, that is no function slot is
  declared by both with different parameters. It never panics.
\<close>

theorem merged_paths_conflict_iff:
  "((\<exists>m. merge_all_ingresses ings = Ok m) \<longleftrightarrow>
    (\<forall>ing \<in> set ings. \<forall>ing' \<in> set ings. \<forall>p \<in> set (UnmergedPaths ing). \<forall>p' \<in> set (UnmergedPaths ing').
       OriginHost ing = OriginHost ing' \<and> PathPattern p = PathPattern p' \<and> PathType p = PathType p' \<longrightarrow>
       fa_agree (path_fa p) (path_fa p'))) \<and>
   merge_all_ingresses ings \<noteq> Panic"
proof -
  have "consistent (contribs ings) \<longleftrightarrow>
      (\<forall>h pat ty. \<forall>x \<in> set (fas_at (contribs ings) h (pat, ty)).
         \<forall>y \<in> set (fas_at (contribs ings) h (pat, ty)). fa_agree x y)"
    unfolding consistent_iff split_paired_All by (rule refl)
  also have "\<dots> \<longleftrightarrow> (\<forall>ing \<in> set ings. \<forall>ing' \<in> set ings. \<forall>p \<in> set (UnmergedPaths ing).
      \<forall>p' \<in> set (UnmergedPaths ing').
       OriginHost ing = OriginHost ing' \<and> PathPattern p = PathPattern p' \<and> PathType p = PathType p' \<longrightarrow>
       fa_agree (path_fa p) (path_fa p'))"
    (is "?L \<longleftrightarrow> ?R")
  proof
    assume ?L
    then show ?R by (intro ballI impI) (metis mem_fas_at_contribs)
  next
    assume ?R
    then show ?L by (intro allI ballI) (auto simp: mem_fas_at_contribs)
  qed
  finally show ?thesis
    unfolding merge_all_ingresses_iff(1) using merge_all_ingresses_iff(3) by blast
qed

theorem merged_paths_conflict_iff_witness:
  "\<exists>e. merge_all_ingresses [shared_ing1, shared_ing1\<lparr>UnmergedPaths :=
      [\<lparr>PathPattern = ''/a'', PathType = ''Prefix'', path_fa = newFAFromViewerFunctionARN ''other''\<rparr>]\<rparr>] = Err e"
proof -
  let ?ing2 = "shared_ing1\<lparr>UnmergedPaths :=
      [\<lparr>PathPattern = ''/a'', PathType = ''Prefix'', path_fa = newFAFromViewerFunctionARN ''other''\<rparr>]\<rparr>"
  have "\<not> fa_agree (newFAFromViewerFunctionARN ''fn'') (newFAFromViewerFunctionARN ''other'')"
    by (simp add: fa_agree_def agree_def newFAFromViewerFunctionARN_def)
  then have "\<not> (\<exists>m. merge_all_ingresses [shared_ing1, ?ing2] = Ok m)"
    using merged_paths_conflict_iff [of "[shared_ing1, ?ing2]"] by (simp add: shared_ing1_def)
  moreover have "merge_all_ingresses [shared_ing1, ?ing2] \<noteq> Panic"
    using merged_paths_conflict_iff [of "[shared_ing1, ?ing2]"] by blast
  ultimately show ?thesis by (cases "merge_all_ingresses [shared_ing1, ?ing2]") auto
qed

lemma mset_contribs:
  "mset (contribs ings) = (\<Sum>ing \<in># mset ings. mset (contribs [ing]))"
proof (induction ings)
  case Nil
  then show ?case by (simp add: contribs_def)
next
  case (Cons ing ings)
  have "contribs (ing # ings) = contribs [ing] @ contribs ings" by (simp add: contribs_def)
  with Cons show ?case by simp
qed

lemma contribs_perm: "mset ings = mset ings' \<Longrightarrow> mset (contribs ings) = mset (contribs ings')"
  using mset_contribs [of ings] mset_contribs [of ings'] by metis

lemma fas_at_perm: "mset cs = mset ds \<Longrightarrow> mset (fas_at cs h k) = mset (fas_at ds h k)"
  unfolding fas_at_def by (simp only: mset_map mset_filter)

text \<open>
  C27. The order in which the API server lists the Ingresses of a group does not matter for the
  merge: for every permutation of the list it succeeds or fails alike, and when it succeeds it
  gives every host and path the same function associations.
\<close>

theorem merged_paths_order_irrelevant:
  assumes "mset ings = mset ings'"
  shows "(\<exists>m. merge_all_ingresses ings = Ok m) = (\<exists>m'. merge_all_ingresses ings' = Ok m') \<and>
         (\<forall>m m'. merge_all_ingresses ings = Ok m \<longrightarrow> merge_all_ingresses ings' = Ok m' \<longrightarrow> look m = look m')"
proof -
  have eq: "ok_part (merge_at (contribs ings) h k) = ok_part (merge_at (contribs ings') h k)" for h k
    unfolding merge_at_def using assms by (intro fa.fold_order_irrelevant fas_at_perm contribs_perm)
  have nil: "fas_at (contribs ings) h k = [] \<longleftrightarrow> fas_at (contribs ings') h k = []" for h k
    using fas_at_perm [OF contribs_perm [OF assms], of h k] by (metis mset_zero_iff)
  have "consistent (contribs ings) = consistent (contribs ings')"
    unfolding consistent_def eq ..
  moreover have "look m = look m'"
    if "represents m (contribs ings)" "represents m' (contribs ings')" for m m'
    using that by (intro ext) (simp add: represents_lookD eq nil)
  ultimately show ?thesis
    using merge_all_ingresses_iff(1,2) by blast
qed

theorem merged_paths_order_irrelevant_witness:
  "(\<exists>m. merge_all_ingresses [shared_ing1, shared_ing2] = Ok m) =
   (\<exists>m. merge_all_ingresses [shared_ing2, shared_ing1] = Ok m)"
  using merged_paths_order_irrelevant [of "[shared_ing1, shared_ing2]" "[shared_ing2, shared_ing1]"]
  by simp

end
