(* ===== verification/Origin_Model.thy ===== *)
theory Origin_Model
  imports Md5 Cf_Function Path_Order Cdn_Config Shared_Params
begin

text \<open>
  \<open>internal/cloudfront/{oac,origin,service_helpers}.go\<close>: origin access controls and their names,
  origins with their behaviors, the builder of an origin, and the translation of an Ingress (and
  of the paths it shares with other Ingresses) into an origin.
\<close>

section \<open>Origin access controls\<close>

record oac =
  oac_ID :: string
  oac_Name :: string
  oac_Description :: string
  oac_OriginName :: string
  oac_OriginType :: string
  oac_SigningBehavior :: string
  oac_SigningProtocol :: string

definition zero_oac :: oac where
  "zero_oac = \<lparr>oac_ID = [], oac_Name = [], oac_Description = [], oac_OriginName = [],
     oac_OriginType = [], oac_SigningBehavior = [], oac_SigningProtocol = []\<rparr>"

definition oacNameCharLimit :: nat where "oacNameCharLimit = 63"

definition generateMD5 :: "string \<Rightarrow> string" where
  "generateMD5 text = hex_string (md5_sum (map of_char text))"

text \<open>\<open>md5[:8]\<close>; the digest always has 32 digits (\<open>length_generateMD5\<close>), so no panic.\<close>

definition generateShortID :: "string \<Rightarrow> string \<Rightarrow> string" where
  "generateShortID distrName domainName = take 8 (generateMD5 (distrName @ ''-'' @ domainName))"

text \<open>\<open>strings.Split(s, ".")[0]\<close>: a split always has a first part.\<close>

definition first_label :: "string \<Rightarrow> string" where
  "first_label s = hd (go_split CHR ''.'' s)"

definition oacName :: "string \<Rightarrow> string \<Rightarrow> string" where
  "oacName distributionName s3Host =
     (let s3Name = first_label s3Host;
          defaultOACName = distributionName @ ''-'' @ s3Name in
      if length defaultOACName \<le> oacNameCharLimit then defaultOACName
      else let hostName = first_label distributionName in
        hostName @ ''-'' @ generateShortID distributionName s3Name)"

definition oacDescription :: "string \<Rightarrow> string" where
  "oacDescription originName = ''OAC for '' @ originName @ '', managed by cdn-origin-controller''"

definition NewOAC :: "string \<Rightarrow> string \<Rightarrow> oac" where
  "NewOAC distribution originName =
     \<lparr>oac_ID = [], oac_Name = oacName distribution originName,
      oac_Description = oacDescription originName, oac_OriginName = originName,
      oac_OriginType = ''s3'', oac_SigningBehavior = ''always'', oac_SigningProtocol = ''sigv4''\<rparr>"

section \<open>Origins and behaviors\<close>

definition OriginAccessPublic :: string where "OriginAccessPublic = CFUserOriginAccessPublic"
definition OriginAccessBucket :: string where "OriginAccessBucket = CFUserOriginAccessBucket"
definition defaultResponseTimeout :: int where "defaultResponseTimeout = 30"
definition templateOriginHeadersHost :: string where
  "templateOriginHeadersHost = ''{{origin.host}}''"

lemmas origin_consts = OriginAccessPublic_def OriginAccessBucket_def CFUserOriginAccessPublic_def
  CFUserOriginAccessBucket_def

record origin_headers =
  oh_originHost :: string
  oh_headers :: "(string, string) gomap option"

definition originHeaders_get :: "origin_headers \<Rightarrow> (string, string) gomap option" where
  "originHeaders_get h = (case oh_headers h of
     None \<Rightarrow> None
   | Some hs \<Rightarrow> Some (map (\<lambda>(k, v). (k, replace_all v templateOriginHeadersHost (oh_originHost h))) hs))"

record behavior =
  bh_PathPattern :: string
  bh_RequestPolicy :: string
  bh_CachePolicy :: string
  bh_ResponsePolicy :: string
  bh_OriginHost :: string
  bh_Functions :: "cf_function list"

record origin =
  or_Host :: string
  or_Behaviors :: "behavior list"
  or_ResponseTimeout :: int
  or_Access :: string
  or_OAC :: oac
  or_headers :: origin_headers

definition HasEqualParameters :: "origin \<Rightarrow> origin \<Rightarrow> bool" where
  "HasEqualParameters a b \<longleftrightarrow> or_Host a = or_Host b \<and> or_ResponseTimeout a = or_ResponseTimeout b \<and>
     or_Access a = or_Access b \<and> or_OAC a = or_OAC b"

definition Origin_Headers :: "origin \<Rightarrow> (string, string) gomap option" where
  "Origin_Headers a = originHeaders_get (or_headers a)"

definition isBucketBased :: "origin \<Rightarrow> bool" where
  "isBucketBased a \<longleftrightarrow> or_Access a = OriginAccessBucket"

section \<open>The builder of an origin\<close>

record origin_builder =
  ob_host :: string
  ob_headers :: "(string, string) gomap option"
  ob_requestPolicy :: string
  ob_distributionName :: string
  ob_cachePolicy :: string
  ob_responsePolicy :: string
  ob_respTimeout :: int
  ob_accessType :: string
  ob_behaviors :: "(string, cf_function list) gomap"

definition defaultRequestPolicyForType :: "string \<Rightarrow> config \<Rightarrow> string" where
  "defaultRequestPolicyForType accessType cfg =
     (if accessType = OriginAccessBucket then CloudFrontDefaultBucketOriginAccessRequestPolicyID cfg
      else CloudFrontDefaultPublicOriginAccessRequestPolicyID cfg)"

definition NewOriginBuilder :: "string \<Rightarrow> string \<Rightarrow> string \<Rightarrow> config \<Rightarrow> origin_builder" where
  "NewOriginBuilder distributionName host accessType cfg =
     \<lparr>ob_host = host, ob_headers = None,
      ob_requestPolicy = defaultRequestPolicyForType accessType cfg,
      ob_distributionName = distributionName,
      ob_cachePolicy = CloudFrontDefaultCachingPolicyID cfg, ob_responsePolicy = [],
      ob_respTimeout = defaultResponseTimeout, ob_accessType = accessType, ob_behaviors = []\<rparr>"

definition WithBehavior :: "string \<Rightarrow> cf_function list \<Rightarrow> origin_builder \<Rightarrow> origin_builder" where
  "WithBehavior pathPattern functions b =
     (case map_of (ob_behaviors b) pathPattern of
        None \<Rightarrow> b\<lparr>ob_behaviors := AList.update pathPattern functions (ob_behaviors b)\<rparr>
      | Some fs \<Rightarrow> b\<lparr>ob_behaviors := AList.update pathPattern (fs @ functions) (ob_behaviors b)\<rparr>)"

definition WithRequestPolicy :: "string \<Rightarrow> origin_builder \<Rightarrow> origin_builder" where
  "WithRequestPolicy policy b = (if length policy > 0 then b\<lparr>ob_requestPolicy := policy\<rparr> else b)"

definition WithCachePolicy :: "string \<Rightarrow> origin_builder \<Rightarrow> origin_builder" where
  "WithCachePolicy policy b = (if length policy > 0 then b\<lparr>ob_cachePolicy := policy\<rparr> else b)"

definition WithResponsePolicy :: "string \<Rightarrow> origin_builder \<Rightarrow> origin_builder" where
  "WithResponsePolicy policy b = (if length policy > 0 then b\<lparr>ob_responsePolicy := policy\<rparr> else b)"

definition WithResponseTimeout :: "int \<Rightarrow> origin_builder \<Rightarrow> origin_builder" where
  "WithResponseTimeout rpTimeout b = (if rpTimeout > 0 then b\<lparr>ob_respTimeout := rpTimeout\<rparr> else b)"

definition WithOriginHeaders :: "(string, string) gomap option \<Rightarrow> origin_builder \<Rightarrow> origin_builder" where
  "WithOriginHeaders headers b = b\<lparr>ob_headers := headers\<rparr>"

definition addBehaviors :: "string order \<Rightarrow> origin_builder \<Rightarrow> origin \<Rightarrow> origin" where
  "addBehaviors ord b a = a\<lparr>or_Behaviors := or_Behaviors a @
     map (\<lambda>(p, functions). \<lparr>bh_PathPattern = p, bh_RequestPolicy = [], bh_CachePolicy = [],
       bh_ResponsePolicy = [], bh_OriginHost = ob_host b, bh_Functions = functions\<rparr>)
     (map_range ord (ob_behaviors b))\<rparr>"

definition addRequestPolicyToBehaviors :: "origin_builder \<Rightarrow> origin \<Rightarrow> origin" where
  "addRequestPolicyToBehaviors b a =
     a\<lparr>or_Behaviors := map (bh_RequestPolicy_update (\<lambda>_. ob_requestPolicy b)) (or_Behaviors a)\<rparr>"

definition addCachePolicyBehaviors :: "origin_builder \<Rightarrow> origin \<Rightarrow> origin" where
  "addCachePolicyBehaviors b a =
     a\<lparr>or_Behaviors := map (bh_CachePolicy_update (\<lambda>_. ob_cachePolicy b)) (or_Behaviors a)\<rparr>"

definition addResponsePolicyToBehaviors :: "origin_builder \<Rightarrow> origin \<Rightarrow> origin" where
  "addResponsePolicyToBehaviors b a =
     a\<lparr>or_Behaviors := map (bh_ResponsePolicy_update (\<lambda>_. ob_responsePolicy b)) (or_Behaviors a)\<rparr>"

definition addOriginAccessConfiguration :: "origin_builder \<Rightarrow> origin \<Rightarrow> origin" where
  "addOriginAccessConfiguration b a =
     (if or_Access a \<noteq> OriginAccessBucket then a
      else a\<lparr>or_OAC := NewOAC (ob_distributionName b) (ob_host b)\<rparr>)"

definition OriginBuilder_Build :: "string order \<Rightarrow> origin_builder \<Rightarrow> origin" where
  "OriginBuilder_Build ord b =
     (let a = \<lparr>or_Host = ob_host b, or_Behaviors = [], or_ResponseTimeout = ob_respTimeout b,
               or_Access = [], or_OAC = zero_oac,
               or_headers = \<lparr>oh_originHost = ob_host b, oh_headers = ob_headers b\<rparr>\<rparr>;
          a = addBehaviors ord b a;
          a = addCachePolicyBehaviors b a;
          a = addRequestPolicyToBehaviors b a;
          a = addResponsePolicyToBehaviors b a;
          a = a\<lparr>or_Access := ob_accessType b\<rparr> in
      addOriginAccessConfiguration b a)"

section \<open>From an Ingress to an origin\<close>

definition prefixPathType :: string where "prefixPathType = ''Prefix''"

definition renderDescription :: "string \<Rightarrow> string \<Rightarrow> string" where
  "renderDescription template grp = replace_all template ''{{group}}'' grp"

definition buildPatternsForPrefix :: "string \<Rightarrow> string list" where
  "buildPatternsForPrefix path =
     (if path = ''/'' then [''/*'']
      else let normalizedPath = trim_suffix path ''/'' in [normalizedPath, normalizedPath @ ''/*''])"

definition pathPatternsForPath :: "path \<Rightarrow> string list" where
  "pathPatternsForPath p =
     (if PathType p = prefixPathType then buildPatternsForPrefix (PathPattern p) else [PathPattern p])"

definition add_path :: "path \<Rightarrow> origin_builder \<Rightarrow> origin_builder" where
  "add_path p b = fold (\<lambda>pp b. WithBehavior pp (NewFunctions (path_fa p)) b) (pathPatternsForPath p) b"

definition newOrigin :: "string order \<Rightarrow> cdn_ingress \<Rightarrow> config \<Rightarrow> shared_params \<Rightarrow> origin" where
  "newOrigin ord ing cfg shared =
     (let builder = WithOriginHeaders (OriginHeaders ing)
          (WithResponsePolicy (ResponsePolicy ing)
          (WithCachePolicy (CachePolicy ing)
          (WithRequestPolicy (OriginReqPolicy ing)
          (WithResponseTimeout (OriginRespTimeout ing)
          (NewOriginBuilder (Group ing) (OriginHost ing) (OriginAccess ing) cfg))))) in
      OriginBuilder_Build ord (fold add_path (PathsFromOrigin shared (OriginHost ing)) builder))"

section \<open>Names\<close>

lemma length_generateMD5 [simp]: "length (generateMD5 s) = 32"
  by (simp add: generateMD5_def)

lemma length_generateShortID [simp]: "length (generateShortID d s) = 8"
  by (simp add: generateShortID_def)

lemma set_generateMD5: "set (generateMD5 s) \<subseteq> set ''0123456789abcdef''"
  unfolding generateMD5_def by (intro set_hex_string md5_sum_bound)

lemma first_label_no_dot: "CHR ''.'' \<notin> set (first_label s)"
  unfolding first_label_def by (metis go_split_not_Nil go_split_parts list.set_sel(1))

lemma length_first_label: "length (first_label s) \<le> length s"
  by (simp add: first_label_def go_split_hd_length)



section \<open>Path patterns\<close>

text \<open>
  The patterns of a path: the root prefix becomes one catch-all pattern; another prefix
  becomes the path without its trailing slash and that path with \<open>/*\<close>; any other type keeps
  its pattern. The patterns of one path are distinct, and with and without a trailing slash a
  prefix gives the same patterns.
\<close>

theorem path_patterns:
  "distinct (pathPatternsForPath p) \<and>
   (PathType p \<noteq> ''Prefix'' \<longrightarrow> pathPatternsForPath p = [PathPattern p]) \<and>
   (PathType p = ''Prefix'' \<and> PathPattern p = ''/'' \<longrightarrow> pathPatternsForPath p = [''/*'']) \<and>
   (PathType p = ''Prefix'' \<and> q \<noteq> [] \<and> last q \<noteq> CHR ''/'' \<and>
      (PathPattern p = q \<or> PathPattern p = q @ ''/'') \<longrightarrow> pathPatternsForPath p = [q, q @ ''/*''])"
proof -
  have "trim_suffix q ''/'' = q" if "q \<noteq> []" "last q \<noteq> CHR ''/''"
    using that by (intro trim_suffix_id) (simp add: has_suffix_single)
  then show ?thesis
    by (auto simp: pathPatternsForPath_def buildPatternsForPrefix_def prefixPathType_def Let_def)
qed

theorem path_patterns_witness:
  "pathPatternsForPath \<lparr>PathPattern = ''/foo/'', PathType = ''Prefix'', path_fa = empty_fa\<rparr> =
     [''/foo'', ''/foo/*'']"
  using path_patterns [of "\<lparr>PathPattern = ''/foo/'', PathType = ''Prefix'', path_fa = empty_fa\<rparr>" "''/foo''"]
  by simp

section \<open>The origin of an Ingress\<close>

definition add_fns ::
    "string \<Rightarrow> cf_function list \<Rightarrow> (string, cf_function list) gomap \<Rightarrow> (string, cf_function list) gomap" where
  "add_fns pp fs m = AList.update pp (map_get m pp [] @ fs) m"

definition path_fns :: "path list \<Rightarrow> string \<Rightarrow> cf_function list" where
  "path_fns ps pp = concat (map (\<lambda>p. if pp \<in> set (pathPatternsForPath p) then NewFunctions (path_fa p) else []) ps)"

definition path_pats :: "path list \<Rightarrow> string set" where
  "path_pats ps = (\<Union>p \<in> set ps. set (pathPatternsForPath p))"

definition behaviors_of_paths :: "path list \<Rightarrow> (string, cf_function list) gomap" where
  "behaviors_of_paths ps =
     fold (\<lambda>p m. fold (\<lambda>pp. add_fns pp (NewFunctions (path_fa p))) (pathPatternsForPath p) m) ps []"

lemma wf_add_fns [simp]: "wf_map m \<Longrightarrow> wf_map (add_fns pp fs m)"
  by (simp add: add_fns_def)

lemma map_of_add_fns:
  "map_of (add_fns pp fs m) q = (if q = pp then Some (map_get m pp [] @ fs) else map_of m q)"
  by (simp add: add_fns_def update_conv')

lemma WithBehavior_add_fns:
  "WithBehavior pp fs b = b\<lparr>ob_behaviors := add_fns pp fs (ob_behaviors b)\<rparr>"
  by (simp add: WithBehavior_def add_fns_def map_get_def split: option.split)

lemma fold_WithBehavior:
  "fold (\<lambda>pp b. WithBehavior pp fs b) pps b =
   b\<lparr>ob_behaviors := fold (\<lambda>pp. add_fns pp fs) pps (ob_behaviors b)\<rparr>"
  by (induction pps arbitrary: b) (simp_all add: WithBehavior_add_fns)

lemma fold_add_path:
  "fold add_path ps b = b\<lparr>ob_behaviors := fold (\<lambda>p m. fold (\<lambda>pp. add_fns pp (NewFunctions (path_fa p)))
     (pathPatternsForPath p) m) ps (ob_behaviors b)\<rparr>"
  by (induction ps arbitrary: b) (simp_all add: add_path_def fold_WithBehavior)

lemma wf_fold_add_fns: "wf_map m \<Longrightarrow> wf_map (fold (\<lambda>pp. add_fns pp fs) pps m)"
  by (induction pps arbitrary: m) auto

lemma map_of_fold_add_fns:
  "distinct pps \<Longrightarrow> map_of (fold (\<lambda>pp. add_fns pp fs) pps m) q =
   (if q \<in> set pps then Some (map_get m q [] @ fs) else map_of m q)"
  by (induction pps arbitrary: m) (auto simp: map_of_add_fns map_get_def)

lemma distinct_pathPatterns [simp]: "distinct (pathPatternsForPath p)"
  by (simp add: pathPatternsForPath_def buildPatternsForPrefix_def Let_def)

lemma wf_behaviors_of_paths [simp]: "wf_map (behaviors_of_paths ps)"
proof -
  have "wf_map m \<Longrightarrow> wf_map (fold (\<lambda>p m. fold (\<lambda>pp. add_fns pp (NewFunctions (path_fa p)))
     (pathPatternsForPath p) m) ps m)" for m
    by (induction ps arbitrary: m) (simp_all add: wf_fold_add_fns)
  then show ?thesis by (simp add: behaviors_of_paths_def)
qed

lemma map_of_behaviors_of_paths:
  "map_of (behaviors_of_paths ps) q = (if q \<in> path_pats ps then Some (path_fns ps q) else None)"
proof -
  have "map_of (fold (\<lambda>p m. fold (\<lambda>pp. add_fns pp (NewFunctions (path_fa p)))
      (pathPatternsForPath p) m) ps m) q =
    (if q \<in> path_pats ps then Some (map_get m q [] @ path_fns ps q) else map_of m q)" for m
  proof (induction ps arbitrary: m)
    case (Cons p ps)
    then show ?case
      by (auto simp: path_pats_def path_fns_def map_get_def map_of_fold_add_fns)
  qed (simp add: path_pats_def)
  from this [of "[]"] show ?thesis by (simp add: behaviors_of_paths_def map_get_def)
qed

lemma set_behaviors_of_paths: "set (behaviors_of_paths ps) = (\<lambda>pp. (pp, path_fns ps pp)) ` path_pats ps"
proof -
  have "x \<in> set (behaviors_of_paths ps) \<longleftrightarrow> fst x \<in> path_pats ps \<and> snd x = path_fns ps (fst x)" for x
    using map_of_eq_Some_iff [OF wf_behaviors_of_paths [of ps, unfolded wf_map_def], of "fst x" "snd x"]
    by (auto simp: map_of_behaviors_of_paths split: if_splits)
  then show ?thesis by (auto simp: image_iff)
qed

definition or_else :: "string \<Rightarrow> string \<Rightarrow> string" where
  "or_else s d = (if s = [] then d else s)"

text \<open>A configuration to evaluate the definitions with.\<close>

definition sample_cfg :: config where
  "sample_cfg = \<lparr>LogLevel = ''info'', DevMode = False, DeletionEnabled = False,
     DefaultOriginDomain = ''default.host'', CloudFrontPriceClass = ''PriceClass_All'',
     CloudFrontSecurityPolicy = ''TLSv1.2_2021'', CloudFrontEnableLogging = False,
     CloudFrontS3BucketLog = [], CloudFrontS3BucketLogPrefix = [], CloudFrontEnableIPV6 = False,
     CloudFrontDescriptionTemplate = ''for {{group}}'', CloudFrontCustomTags = [],
     CloudFrontDefaultCachingPolicyID = ''cache'', CloudFrontDefaultCacheRequestPolicyID = ''crp'',
     CloudFrontDefaultPublicOriginAccessRequestPolicyID = ''public'',
     CloudFrontDefaultBucketOriginAccessRequestPolicyID = ''bucket'',
     IsCreateBlocked = False, CreateAllowList = []\<rparr>"

text \<open>The behavior an Ingress gets for a path pattern.\<close>

definition ingress_behavior :: "cdn_ingress \<Rightarrow> config \<Rightarrow> shared_params \<Rightarrow> string \<Rightarrow> behavior" where
  "ingress_behavior ing cfg shared pp =
     \<lparr>bh_PathPattern = pp,
      bh_RequestPolicy = or_else (OriginReqPolicy ing) (defaultRequestPolicyForType (OriginAccess ing) cfg),
      bh_CachePolicy = or_else (CachePolicy ing) (CloudFrontDefaultCachingPolicyID cfg),
      bh_ResponsePolicy = ResponsePolicy ing,
      bh_OriginHost = OriginHost ing,
      bh_Functions = path_fns (PathsFromOrigin shared (OriginHost ing)) pp\<rparr>"

lemmas builder_defs = NewOriginBuilder_def WithOriginHeaders_def WithResponsePolicy_def
  WithCachePolicy_def WithRequestPolicy_def WithResponseTimeout_def

lemma newOrigin_eq:
  "newOrigin ord ing cfg shared =
     \<lparr>or_Host = OriginHost ing,
      or_Behaviors = map (ingress_behavior ing cfg shared)
        (ord (keys (behaviors_of_paths (PathsFromOrigin shared (OriginHost ing))))),
      or_ResponseTimeout = (if OriginRespTimeout ing > 0 then OriginRespTimeout ing else 30),
      or_Access = OriginAccess ing,
      or_OAC = (if OriginAccess ing = OriginAccessBucket then NewOAC (Group ing) (OriginHost ing) else zero_oac),
      or_headers = \<lparr>oh_originHost = OriginHost ing, oh_headers = OriginHeaders ing\<rparr>\<rparr>"
  if "is_order ord"
proof -
  let ?ps = "PathsFromOrigin shared (OriginHost ing)"
  have "set (ord (keys (behaviors_of_paths ?ps))) = path_pats ?ps"
    using that by (simp add: order_set set_behaviors_of_paths image_image)
  then have fns: "the (map_of (behaviors_of_paths ?ps) k) = path_fns ?ps k"
    if "k \<in> set (ord (keys (behaviors_of_paths ?ps)))" for k
    using that by (simp add: map_of_behaviors_of_paths)
  show ?thesis
    unfolding newOrigin_def Let_def fold_add_path
    by (simp add: builder_defs OriginBuilder_Build_def addBehaviors_def addCachePolicyBehaviors_def
        addRequestPolicyToBehaviors_def addResponsePolicyToBehaviors_def Let_def
        addOriginAccessConfiguration_def ingress_behavior_def or_else_def defaultResponseTimeout_def
        flip: behaviors_of_paths_def)
      (simp add: map_range_def comp_def fns ingress_behavior_def or_else_def)
qed



end
