(* ===== verification/Distribution_Model.thy ===== *)
theory Distribution_Model
  imports Origin_Model
begin

text \<open>
  \<open>internal/cloudfront/distribution.go\<close>: the desired state of a CloudFront distribution and its
  builder. The builder collects the origins in a Go map keyed by host, so each definition that
  ranges over a map takes the iteration order as an argument.
\<close>

section \<open>Data\<close>

record tls_config =
  tls_Enabled :: bool
  tls_CertARN :: string
  tls_SecurityPolicyID :: string

record logging_config =
  log_Enabled :: bool
  log_BucketAddress :: string
  log_Prefix :: string

record distribution =
  dist_ID :: string
  dist_ARN :: string
  dist_Address :: string
  dist_AlternateDomains :: "string list"
  dist_CustomOrigins :: "origin list"
  dist_DefaultOrigin :: origin
  dist_Description :: string
  dist_Group :: string
  dist_IPv6Enabled :: bool
  dist_Logging :: logging_config
  dist_PriceClass :: string
  dist_Tags :: "(string, string) gomap"
  dist_TLS :: tls_config
  dist_WebACLID :: string

definition zero_origin :: origin where
  "zero_origin = \<lparr>or_Host = [], or_Behaviors = [], or_ResponseTimeout = 0, or_Access = [],
     or_OAC = zero_oac, or_headers = \<lparr>oh_originHost = [], oh_headers = None\<rparr>\<rparr>"

definition zero_tls :: tls_config where
  "zero_tls = \<lparr>tls_Enabled = False, tls_CertARN = [], tls_SecurityPolicyID = []\<rparr>"

definition zero_logging :: logging_config where
  "zero_logging = \<lparr>log_Enabled = False, log_BucketAddress = [], log_Prefix = []\<rparr>"

definition zero_distribution :: distribution where
  "zero_distribution = \<lparr>dist_ID = [], dist_ARN = [], dist_Address = [], dist_AlternateDomains = [],
     dist_CustomOrigins = [], dist_DefaultOrigin = zero_origin, dist_Description = [],
     dist_Group = [], dist_IPv6Enabled = False, dist_Logging = zero_logging, dist_PriceClass = [],
     dist_Tags = [], dist_TLS = zero_tls, dist_WebACLID = []\<rparr>"

definition behavior_less :: "behavior \<Rightarrow> behavior \<Rightarrow> bool" where
  "behavior_less a b = isInMostSpecificOrder (bh_PathPattern a) (bh_PathPattern b)"

definition SortedCustomBehaviors :: "distribution \<Rightarrow> behavior list" where
  "SortedCustomBehaviors d = go_sort behavior_less (concat (map or_Behaviors (dist_CustomOrigins d)))"

definition Dist_Exists :: "distribution \<Rightarrow> bool" where
  "Dist_Exists d \<longleftrightarrow> length (dist_ID d) > 0"

definition Dist_IsEmpty :: "distribution \<Rightarrow> bool" where
  "Dist_IsEmpty d \<longleftrightarrow> length (dist_CustomOrigins d) = 0"

definition Dist_OACs :: "distribution \<Rightarrow> oac list" where
  "Dist_OACs d = concat (map (\<lambda>a. if isBucketBased a then [or_OAC a] else []) (dist_CustomOrigins d))"

definition HasOrigin :: "distribution \<Rightarrow> string \<Rightarrow> bool" where
  "HasOrigin d originHost = list_ex (\<lambda>a. or_Host a = originHost) (dist_CustomOrigins d)"

section \<open>The builder\<close>

record distribution_builder =
  db_id :: string
  db_address :: string
  db_alternateDomains :: "string list"
  db_arn :: string
  db_customOrigins :: "(string, origin) gomap"
  db_defaultOriginDomain :: string
  db_description :: string
  db_ipv6Enabled :: bool
  db_group :: string
  db_logging :: logging_config
  db_priceClass :: string
  db_tags :: "(string, string) gomap"
  db_tls :: tls_config
  db_webACLID :: string
  db_cfg :: config

definition NewDistributionBuilder :: "string \<Rightarrow> config \<Rightarrow> distribution_builder" where
  "NewDistributionBuilder grp cfg =
     \<lparr>db_id = [], db_address = [], db_alternateDomains = [], db_arn = [], db_customOrigins = [],
      db_defaultOriginDomain = DefaultOriginDomain cfg,
      db_description = renderDescription (CloudFrontDescriptionTemplate cfg) grp,
      db_ipv6Enabled = False, db_group = grp, db_logging = zero_logging,
      db_priceClass = CloudFrontPriceClass cfg, db_tags = [], db_tls = zero_tls, db_webACLID = [],
      db_cfg = cfg\<rparr>"

definition WithOrigin :: "origin \<Rightarrow> distribution_builder \<Rightarrow> distribution_builder" where
  "WithOrigin a b = b\<lparr>db_customOrigins := AList.update (or_Host a) a (db_customOrigins b)\<rparr>"

definition WithLogging :: "string \<Rightarrow> string \<Rightarrow> distribution_builder \<Rightarrow> distribution_builder" where
  "WithLogging bucketAddress pre b =
     b\<lparr>db_logging := \<lparr>log_Enabled = True, log_BucketAddress = bucketAddress, log_Prefix = pre\<rparr>\<rparr>"

definition AppendTags :: "(string, string) gomap \<Rightarrow> distribution_builder \<Rightarrow> distribution_builder" where
  "AppendTags tags b = b\<lparr>db_tags := MergeMapString (db_tags b) tags\<rparr>"

definition WithTLS :: "string \<Rightarrow> string \<Rightarrow> distribution_builder \<Rightarrow> distribution_builder" where
  "WithTLS certARN securityPolicyID b =
     b\<lparr>db_tls := \<lparr>tls_Enabled = True, tls_CertARN = certARN, tls_SecurityPolicyID = securityPolicyID\<rparr>\<rparr>"

definition WithIPv6 :: "distribution_builder \<Rightarrow> distribution_builder" where
  "WithIPv6 b = b\<lparr>db_ipv6Enabled := True\<rparr>"

definition WithAlternateDomains :: "string list \<Rightarrow> distribution_builder \<Rightarrow> distribution_builder" where
  "WithAlternateDomains domains b = foldl (\<lambda>b domain.
     if \<not> contains (db_alternateDomains b) domain
     then b\<lparr>db_alternateDomains := db_alternateDomains b @ [domain]\<rparr> else b) b domains"

definition WithWebACL :: "string \<Rightarrow> distribution_builder \<Rightarrow> distribution_builder" where
  "WithWebACL wid b = b\<lparr>db_webACLID := wid\<rparr>"

text \<open>\<open>strings.Split(arn, "/")[1]\<close> panics on an ARN without a slash.\<close>

definition extractID :: "string \<Rightarrow> string outcome" where
  "extractID arn = index (go_split CHR ''/'' arn) 1"

definition WithARN :: "string \<Rightarrow> distribution_builder \<Rightarrow> distribution_builder outcome" where
  "WithARN arn b = out_bind (extractID arn) (\<lambda>i. Ok (b\<lparr>db_id := i, db_arn := arn\<rparr>))"

definition ownershipTagKey :: string where "ownershipTagKey = ''cdn-origin-controller.gympass.com/owned''"
definition ownershipTagValue :: string where "ownershipTagValue = ''true''"
definition groupTagKey :: string where "groupTagKey = ''cdn-origin-controller.gympass.com/cdn.group''"

lemmas tag_keys = ownershipTagKey_def ownershipTagValue_def groupTagKey_def

definition defaultTags :: "distribution_builder \<Rightarrow> (string, string) gomap" where
  "defaultTags b = AList.update groupTagKey (db_group b) (AList.update ownershipTagKey ownershipTagValue [])"

definition generateTags :: "string order \<Rightarrow> distribution_builder \<Rightarrow> (string, string) gomap" where
  "generateTags ord b = fold (\<lambda>(k, v) tags. AList.update k v tags) (map_range ord (db_tags b)) (defaultTags b)"

definition originSlice :: "string order \<Rightarrow> distribution_builder \<Rightarrow> origin list" where
  "originSlice ord b = map snd (map_range ord (db_customOrigins b))"

definition validate_origin :: "(string, origin) gomap \<Rightarrow> origin \<Rightarrow> (string, origin) gomap outcome" where
  "validate_origin existingOrigins a =
     (case map_of existingOrigins (or_Host a) of
        Some existing \<Rightarrow>
          if \<not> HasEqualParameters existing a
          then Err (Errorf ''same host specified twice with different parameters for origin configuration'' [or_Host a])
          else Ok (AList.update (or_Host a) a existingOrigins)
      | None \<Rightarrow> Ok (AList.update (or_Host a) a existingOrigins))"

definition validate_distribution :: "distribution \<Rightarrow> unit outcome" where
  "validate_distribution d =
     out_bind (out_foldM validate_origin [] (dist_DefaultOrigin d # dist_CustomOrigins d)) (\<lambda>_. Ok ())"

definition mergedOriginMap :: "distribution \<Rightarrow> (string, origin) gomap" where
  "mergedOriginMap d = foldl (\<lambda>existingOrigins candidateO.
     case map_of existingOrigins (or_Host candidateO) of
       None \<Rightarrow> AList.update (or_Host candidateO) candidateO existingOrigins
     | Some existingO \<Rightarrow> AList.update (or_Host existingO)
         (existingO\<lparr>or_Behaviors := or_Behaviors existingO @ or_Behaviors candidateO\<rparr>) existingOrigins)
     [] (dist_CustomOrigins d)"

definition mergeCustomOrigins :: "string order \<Rightarrow> distribution \<Rightarrow> distribution" where
  "mergeCustomOrigins ord d = d\<lparr>dist_CustomOrigins := map snd (map_range ord (mergedOriginMap d))\<rparr>"

text \<open>The iteration orders a build meets.\<close>

record orders =
  ord_origins :: "string order"
  ord_merged :: "string order"
  ord_tags :: "string order"
  ord_behaviors :: "string order"

definition wf_orders :: "orders \<Rightarrow> bool" where
  "wf_orders os \<longleftrightarrow> is_order (ord_origins os) \<and> is_order (ord_merged os) \<and>
     is_order (ord_tags os) \<and> is_order (ord_behaviors os)"

definition sample_orders :: orders where
  "sample_orders = \<lparr>ord_origins = (\<lambda>xs. xs), ord_merged = rev, ord_tags = rev, ord_behaviors = (\<lambda>xs. xs)\<rparr>"

definition default_origin :: "orders \<Rightarrow> distribution_builder \<Rightarrow> origin" where
  "default_origin os b = OriginBuilder_Build (ord_behaviors os)
     (NewOriginBuilder ''dist'' (db_defaultOriginDomain b) OriginAccessPublic (db_cfg b))"

definition build_draft :: "orders \<Rightarrow> distribution_builder \<Rightarrow> distribution" where
  "build_draft os b =
     \<lparr>dist_ID = db_id b, dist_ARN = db_arn b, dist_Address = db_address b,
      dist_AlternateDomains = db_alternateDomains b,
      dist_CustomOrigins = originSlice (ord_origins os) b,
      dist_DefaultOrigin = default_origin os b,
      dist_Description = db_description b, dist_Group = db_group b,
      dist_IPv6Enabled = db_ipv6Enabled b, dist_Logging = db_logging b,
      dist_PriceClass = db_priceClass b, dist_Tags = generateTags (ord_tags os) b,
      dist_TLS = db_tls b, dist_WebACLID = db_webACLID b\<rparr>"

definition DistributionBuilder_Build :: "orders \<Rightarrow> distribution_builder \<Rightarrow> distribution outcome" where
  "DistributionBuilder_Build os b =
     (let d = build_draft os b in
      out_bind (validate_distribution d) (\<lambda>_. Ok (mergeCustomOrigins (ord_merged os) d)))"

section \<open>The builder's invariant\<close>

text \<open>The map of custom origins is keyed by the host of the origin it holds.\<close>

definition keyed :: "(string, origin) gomap \<Rightarrow> bool" where
  "keyed m \<longleftrightarrow> wf_map m \<and> (\<forall>h a. map_of m h = Some a \<longrightarrow> or_Host a = h)"

lemma keyed_Nil [simp]: "keyed []"
  by (simp add: keyed_def)

lemma keyed_update: "keyed m \<Longrightarrow> keyed (AList.update (or_Host a) a m)"
  by (simp add: keyed_def update_conv')

lemma keyed_WithOrigin: "keyed (db_customOrigins b) \<Longrightarrow> keyed (db_customOrigins (WithOrigin a b))"
  by (simp add: WithOrigin_def keyed_update)

text \<open>The origin that wins for a host: the last one given.\<close>

definition last_for :: "origin list \<Rightarrow> string \<Rightarrow> origin option" where
  "last_for as h = find (\<lambda>a. or_Host a = h) (rev as)"

lemma fold_WithOrigin:
  assumes "keyed (db_customOrigins b)"
  shows "keyed (db_customOrigins (fold WithOrigin as b)) \<and>
     map_of (db_customOrigins (fold WithOrigin as b)) h =
       (case last_for as h of None \<Rightarrow> map_of (db_customOrigins b) h | Some a \<Rightarrow> Some a) \<and>
     (\<exists>m. fold WithOrigin as b = b\<lparr>db_customOrigins := m\<rparr>)"
proof (induction as rule: rev_induct)
  case Nil
  have "\<exists>m. b = b\<lparr>db_customOrigins := m\<rparr>" by (rule exI [of _ "db_customOrigins b"]) simp
  then show ?case using assms by (simp add: last_for_def)
next
  case (snoc a as)
  then show ?case
    by (auto simp: last_for_def WithOrigin_def keyed_update update_conv')
qed

lemma keyed_hosts:
  assumes "keyed m" and "is_order ord"
  shows "map or_Host (map snd (map_range ord m)) = ord (keys m)"
proof -
  have "or_Host (the (map_of m k)) = k" if "k \<in> set (ord (keys m))" for k
  proof -
    from that have "k \<in> fst ` set m" by (simp add: order_set [OF assms(2)])
    then obtain a where "map_of m k = Some a" by (metis domD dom_map_of_conv_image_fst)
    with assms(1) show ?thesis by (simp add: keyed_def)
  qed
  then show ?thesis by (simp add: map_range_def map_idI)
qed

lemma keyed_distinct_hosts:
  "keyed m \<Longrightarrow> is_order ord \<Longrightarrow> distinct (map or_Host (map snd (map_range ord m)))"
  unfolding keyed_hosts by (simp add: order_distinct keyed_def wf_map_def)

lemma keyed_values:
  assumes "keyed m" and "is_order ord"
  shows "set (map snd (map_range ord m)) = {a. map_of m (or_Host a) = Some a}"
proof -
  have "set (map snd (map_range ord m)) = snd ` set m"
    using assms by (simp add: keyed_def set_map_range)
  also have "\<dots> = {a. \<exists>h. map_of m h = Some a}"
    using assms(1) by (force simp: keyed_def wf_map_def)
  also have "\<dots> = {a. map_of m (or_Host a) = Some a}"
    using assms(1) unfolding keyed_def by blast
  finally show ?thesis .
qed

section \<open>Validation and merge\<close>

lemma validate_fold:
  "distinct (map or_Host as) \<Longrightarrow>
   (\<exists>m'. out_foldM validate_origin m as = Ok m') \<longleftrightarrow>
   (\<forall>a \<in> set as. \<forall>e. map_of m (or_Host a) = Some e \<longrightarrow> HasEqualParameters e a)"
proof (induction as arbitrary: m)
  case (Cons a as)
  have fresh: "map_of (AList.update (or_Host a) a m) (or_Host a') = map_of m (or_Host a')"
    if "a' \<in> set as" for a'
  proof -
    have "or_Host a' \<noteq> or_Host a" using Cons.prems that by (metis distinct.simps(2) image_eqI list.simps(9) set_map)
    then show ?thesis by (simp add: update_conv')
  qed
  then show ?case
    using Cons.IH [of "AList.update (or_Host a) a m"] Cons.prems
    by (auto simp: validate_origin_def split: option.splits)
qed simp

lemma validate_no_panic: "out_foldM validate_origin m as \<noteq> Panic"
  by (rule out_foldM_no_panic) (simp add: validate_origin_def split: option.split)

lemma validate_distribution_iff:
  assumes "distinct (map or_Host (dist_CustomOrigins d))"
  shows "validate_distribution d = Ok () \<longleftrightarrow>
     (\<forall>a \<in> set (dist_CustomOrigins d). or_Host a = or_Host (dist_DefaultOrigin d) \<longrightarrow>
        HasEqualParameters (dist_DefaultOrigin d) a)"
proof -
  have "validate_distribution d = Ok () \<longleftrightarrow>
      (\<exists>m'. out_foldM validate_origin [(or_Host (dist_DefaultOrigin d), dist_DefaultOrigin d)]
         (dist_CustomOrigins d) = Ok m')"
    by (simp add: validate_distribution_def validate_origin_def out_bind_Ok_iff)
  also have "\<dots> \<longleftrightarrow> (\<forall>a \<in> set (dist_CustomOrigins d). or_Host a = or_Host (dist_DefaultOrigin d) \<longrightarrow>
        HasEqualParameters (dist_DefaultOrigin d) a)"
    unfolding validate_fold [OF assms] by auto
  finally show ?thesis .
qed

lemma merged_distinct:
  assumes "distinct (map or_Host (dist_CustomOrigins d))"
  shows "mergedOriginMap d = map (\<lambda>a. (or_Host a, a)) (dist_CustomOrigins d)"
proof -
  let ?f = "\<lambda>existingOrigins candidateO.
     case map_of existingOrigins (or_Host candidateO) of
       None \<Rightarrow> AList.update (or_Host candidateO) candidateO existingOrigins
     | Some existingO \<Rightarrow> AList.update (or_Host existingO)
         (existingO\<lparr>or_Behaviors := or_Behaviors existingO @ or_Behaviors candidateO\<rparr>) existingOrigins"
  have "foldl ?f (map (\<lambda>a. (or_Host a, a)) xs) ys = map (\<lambda>a. (or_Host a, a)) (xs @ ys)"
    if "distinct (map or_Host (xs @ ys))" for xs ys
    using that
  proof (induction ys arbitrary: xs)
    case (Cons y ys)
    have fresh: "or_Host y \<notin> set (keys (map (\<lambda>a. (or_Host a, a)) xs))"
    proof -
      have eq: "keys (map (\<lambda>a. (or_Host a, a)) xs) = map or_Host xs" by simp
      show ?thesis unfolding eq using Cons.prems by simp
    qed
    then have none: "map_of (map (\<lambda>a. (or_Host a, a)) xs) (or_Host y) = None"
      by (simp only: map_of_eq_None_iff set_map not_False_eq_True)
    have "?f (map (\<lambda>a. (or_Host a, a)) xs) y = map (\<lambda>a. (or_Host a, a)) (xs @ [y])"
      by (simp only: none option.case update_fresh [OF fresh]) simp
    with Cons.IH [of "xs @ [y]"] Cons.prems show ?case by simp
  qed simp
  from this [of "[]"] assms show ?thesis by (simp add: mergedOriginMap_def)
qed

lemma mergeCustomOrigins_perm:
  assumes "distinct (map or_Host (dist_CustomOrigins d))" and "is_order ord"
  shows "mset (dist_CustomOrigins (mergeCustomOrigins ord d)) = mset (dist_CustomOrigins d)"
proof -
  have "wf_map (mergedOriginMap d)"
    using assms(1) by (simp add: merged_distinct wf_map_def comp_def)
  from mset_map_range [OF assms(2) this]
  have "mset (map snd (map_range ord (mergedOriginMap d))) = mset (map snd (mergedOriginMap d))"
    by (metis mset_map)
  then show ?thesis by (simp add: mergeCustomOrigins_def merged_distinct [OF assms(1)] comp_def)
qed

section \<open>Properties\<close>

lemma default_origin_simps [simp]:
  "or_Host (default_origin os b) = db_defaultOriginDomain b"
  "or_Access (default_origin os b) = OriginAccessPublic"
  "or_ResponseTimeout (default_origin os b) = 30"
  "or_OAC (default_origin os b) = zero_oac"
  by (simp_all add: default_origin_def OriginBuilder_Build_def NewOriginBuilder_def addBehaviors_def
      addCachePolicyBehaviors_def addRequestPolicyToBehaviors_def addResponsePolicyToBehaviors_def
      addOriginAccessConfiguration_def defaultResponseTimeout_def Let_def origin_consts)

lemma build_draft_simps [simp]:
  "dist_CustomOrigins (build_draft os b) = originSlice (ord_origins os) b"
  "dist_DefaultOrigin (build_draft os b) = default_origin os b"
  by (simp_all add: build_draft_def)

text \<open>A build changes nothing of the draft but the order of its origins.\<close>

lemma Build_Ok_fields:
  "DistributionBuilder_Build os b = Ok d \<Longrightarrow> \<exists>as. d = (build_draft os b)\<lparr>dist_CustomOrigins := as\<rparr>"
  by (auto simp: DistributionBuilder_Build_def Let_def out_bind_Ok_iff mergeCustomOrigins_def)

lemma Build_no_panic: "DistributionBuilder_Build os b \<noteq> Panic"
  by (simp add: DistributionBuilder_Build_def validate_distribution_def Let_def out_bind_Panic_iff
      validate_no_panic del: out_foldM.simps)

lemma originSlice_keyed:
  assumes "wf_orders os" and "keyed (db_customOrigins b)"
  shows "distinct (map or_Host (originSlice (ord_origins os) b))"
    and "set (originSlice (ord_origins os) b) = {a. map_of (db_customOrigins b) (or_Host a) = Some a}"
  using assms keyed_distinct_hosts keyed_values by (simp_all only: originSlice_def wf_orders_def)

lemma Build_Err_iff:
  assumes "wf_orders os" and "keyed (db_customOrigins b)"
  shows "(\<exists>e. DistributionBuilder_Build os b = Err e) \<longleftrightarrow>
    (\<exists>a. map_of (db_customOrigins b) (db_defaultOriginDomain b) = Some a \<and>
         \<not> HasEqualParameters (default_origin os b) a)"
proof -
  note slice = originSlice_keyed [OF assms]
  have host: "or_Host a = h" if "map_of (db_customOrigins b) h = Some a" for a h
    using assms(2) that by (simp add: keyed_def)
  have "(\<exists>e. DistributionBuilder_Build os b = Err e) \<longleftrightarrow> validate_distribution (build_draft os b) \<noteq> Ok ()"
    using Build_no_panic [of os b]
    by (cases "validate_distribution (build_draft os b)") (auto simp: DistributionBuilder_Build_def)
  also have "\<dots> \<longleftrightarrow> (\<exists>a. map_of (db_customOrigins b) (or_Host a) = Some a \<and>
      or_Host a = db_defaultOriginDomain b \<and> \<not> HasEqualParameters (default_origin os b) a)"
    using validate_distribution_iff [of "build_draft os b"] slice by auto
  also have "\<dots> \<longleftrightarrow> (\<exists>a. map_of (db_customOrigins b) (db_defaultOriginDomain b) = Some a \<and>
         \<not> HasEqualParameters (default_origin os b) a)"
    using host by metis
  finally show ?thesis .
qed

lemma Build_Ok_origins:
  assumes "wf_orders os" and "keyed (db_customOrigins b)" and "DistributionBuilder_Build os b = Ok d"
  shows "distinct (map or_Host (dist_CustomOrigins d))"
    and "set (dist_CustomOrigins d) = {a. map_of (db_customOrigins b) (or_Host a) = Some a}"
proof -
  note slice = originSlice_keyed [OF assms(1,2)]
  have "d = mergeCustomOrigins (ord_merged os) (build_draft os b)"
    using assms(3) by (auto simp: DistributionBuilder_Build_def Let_def out_bind_Ok_iff)
  then have perm: "mset (dist_CustomOrigins d) = mset (originSlice (ord_origins os) b)"
    using mergeCustomOrigins_perm [of "build_draft os b" "ord_merged os"] slice(1) assms(1)
    by (simp add: wf_orders_def)
  then have "mset (map or_Host (dist_CustomOrigins d)) = mset (map or_Host (originSlice (ord_origins os) b))"
    by (simp only: mset_map)
  with slice(1) show "distinct (map or_Host (dist_CustomOrigins d))"
    using mset_eq_imp_distinct_iff by blast
  show "set (dist_CustomOrigins d) = {a. map_of (db_customOrigins b) (or_Host a) = Some a}"
    using mset_eq_setD [OF perm] slice(2) by simp
qed

text \<open>
  C23. The origins of a built distribution, for every iteration order of the maps involved:
  building fails exactly when the last origin given for the default origin's host has different
  parameters than the default origin, and otherwise the distribution has exactly one origin per
  host, the last one given for that host. So two Ingresses with the same host never make a build
  fail; the later one silently replaces the earlier.
\<close>

theorem build_origins:
  fixes as
  assumes "wf_orders os" and "db_customOrigins b = []"
  defines "r \<equiv> DistributionBuilder_Build os (fold WithOrigin as b)"
  shows "r \<noteq> Panic \<and>
     ((\<exists>e. r = Err e) \<longleftrightarrow> (\<exists>a. last_for as (db_defaultOriginDomain b) = Some a \<and>
        (or_ResponseTimeout a \<noteq> 30 \<or> or_Access a \<noteq> OriginAccessPublic \<or> or_OAC a \<noteq> zero_oac))) \<and>
     (\<forall>d. r = Ok d \<longrightarrow> distinct (map or_Host (dist_CustomOrigins d)) \<and>
        set (dist_CustomOrigins d) = {a. last_for as (or_Host a) = Some a})"
proof -
  let ?b = "fold WithOrigin as b"
  note f = fold_WithOrigin [of b as, unfolded assms(2), OF keyed_Nil]
  obtain m where m: "?b = b\<lparr>db_customOrigins := m\<rparr>" using f by blast
  have keyed: "keyed (db_customOrigins ?b)" using f by blast
  have look: "map_of (db_customOrigins ?b) h = last_for as h" for h
    using f [of h] by (simp split: option.splits)
  have dom: "db_defaultOriginDomain ?b = db_defaultOriginDomain b" by (simp add: m)
  have host: "or_Host a = h" if "last_for as h = Some a" for a h
    using that unfolding last_for_def find_Some_iff by blast
  have params: "\<not> HasEqualParameters (default_origin os ?b) a \<longleftrightarrow>
      or_ResponseTimeout a \<noteq> 30 \<or> or_Access a \<noteq> OriginAccessPublic \<or> or_OAC a \<noteq> zero_oac"
    if "last_for as (db_defaultOriginDomain b) = Some a" for a
    using host [OF that] dom by (auto simp: HasEqualParameters_def)
  have "(\<exists>e. r = Err e) \<longleftrightarrow> (\<exists>a. last_for as (db_defaultOriginDomain b) = Some a \<and>
        (or_ResponseTimeout a \<noteq> 30 \<or> or_Access a \<noteq> OriginAccessPublic \<or> or_OAC a \<noteq> zero_oac))"
    unfolding r_def Build_Err_iff [OF assms(1) keyed] look dom using params by blast
  then show ?thesis
    using Build_Ok_origins [OF assms(1) keyed] Build_no_panic unfolding r_def look by blast
qed

theorem build_origins_witness:
  "\<exists>d. DistributionBuilder_Build sample_orders
     (fold WithOrigin [zero_origin\<lparr>or_Host := ''h''\<rparr>, zero_origin\<lparr>or_Host := ''h'', or_ResponseTimeout := 5\<rparr>]
       (NewDistributionBuilder ''g'' sample_cfg)) = Ok d \<and>
     set (dist_CustomOrigins d) = {zero_origin\<lparr>or_Host := ''h'', or_ResponseTimeout := 5\<rparr>}"
proof -
  let ?as = "[zero_origin\<lparr>or_Host := ''h''\<rparr>, zero_origin\<lparr>or_Host := ''h'', or_ResponseTimeout := 5\<rparr>]"
  let ?b = "NewDistributionBuilder ''g'' sample_cfg"
  have b: "db_customOrigins ?b = []" "db_defaultOriginDomain ?b = ''default.host''"
    by (simp_all add: NewDistributionBuilder_def sample_cfg_def)
  have last: "last_for ?as h = (if h = ''h'' then Some (zero_origin\<lparr>or_Host := ''h'', or_ResponseTimeout := 5\<rparr>) else None)" for h
    by (auto simp: last_for_def)
  have wf: "wf_orders sample_orders" by (simp add: wf_orders_def sample_orders_def)
  note t = build_origins [OF wf b(1), of ?as]
  from t have "\<not> (\<exists>e. DistributionBuilder_Build sample_orders (fold WithOrigin ?as ?b) = Err e)"
    unfolding last b by simp
  with t obtain d where d: "DistributionBuilder_Build sample_orders (fold WithOrigin ?as ?b) = Ok d"
    by (cases "DistributionBuilder_Build sample_orders (fold WithOrigin ?as ?b)") blast+
  with t have "set (dist_CustomOrigins d) = {a. last_for ?as (or_Host a) = Some a}" by blast
  then have "set (dist_CustomOrigins d) = {zero_origin\<lparr>or_Host := ''h'', or_ResponseTimeout := 5\<rparr>}"
    unfolding last by auto
  with d show ?thesis by blast
qed

text \<open>
  C24. The tags of a built distribution: the ownership tag and the group tag, overridden and
  extended by the configured and the user's tags. A distribution therefore carries the ownership
  tag that the controller looks for exactly when no user tag overrides it.
\<close>

theorem build_tags:
  assumes "wf_orders os" and "wf_map (db_tags b)" and "DistributionBuilder_Build os b = Ok d"
  shows "map_of (dist_Tags d) = [ownershipTagKey \<mapsto> ''true'', groupTagKey \<mapsto> db_group b] ++ map_of (db_tags b) \<and>
     (map_of (dist_Tags d) ownershipTagKey = Some ownershipTagValue \<longleftrightarrow>
        map_of (db_tags b) ownershipTagKey \<in> {None, Some ownershipTagValue})"
proof -
  have "map_of (generateTags (ord_tags os) b) = map_of (defaultTags b) ++ map_of (db_tags b)"
    using assms(1,2)
    by (simp add: generateTags_def map_of_fold_update map_of_rev_wf map_of_map_range wf_orders_def
        wf_map_def distinct_map_range [unfolded wf_map_def])
  moreover have "dist_Tags d = generateTags (ord_tags os) b"
    using Build_Ok_fields [OF assms(3)] by (auto simp: build_draft_def)
  moreover have "map_of (defaultTags b) = [ownershipTagKey \<mapsto> ''true'', groupTagKey \<mapsto> db_group b]"
    by (simp add: defaultTags_def update_conv' ownershipTagValue_def tag_keys fun_upd_twist)
  ultimately show ?thesis
    by (auto simp: map_add_def ownershipTagValue_def tag_keys split: option.splits)
qed

theorem build_tags_witness:
  "\<exists>d. DistributionBuilder_Build sample_orders
     (AppendTags [(ownershipTagKey, ''false'')] (NewDistributionBuilder ''g'' sample_cfg)) = Ok d \<and>
     map_of (dist_Tags d) ownershipTagKey \<noteq> Some ownershipTagValue"
proof -
  let ?b = "AppendTags [(ownershipTagKey, ''false'')] (NewDistributionBuilder ''g'' sample_cfg)"
  have wf: "wf_orders sample_orders" by (simp add: wf_orders_def sample_orders_def)
  have tags: "db_tags ?b = [(ownershipTagKey, ''false'')]"
    by (simp add: AppendTags_def NewDistributionBuilder_def MergeMapString_def)
  have "\<exists>d. DistributionBuilder_Build sample_orders ?b = Ok d"
    by (simp add: DistributionBuilder_Build_def validate_distribution_def validate_origin_def
        originSlice_def map_range_def AppendTags_def NewDistributionBuilder_def sample_orders_def)
  then obtain d where d: "DistributionBuilder_Build sample_orders ?b = Ok d" by blast
  have "wf_map (db_tags ?b)" by (simp add: tags wf_map_def)
  from build_tags [OF wf this d] have "map_of (dist_Tags d) ownershipTagKey \<noteq> Some ownershipTagValue"
    by (simp add: tags ownershipTagValue_def)
  with d show ?thesis by blast
qed

lemma sorted_behaviors_length:
  "sorted_wrt (\<lambda>a b. length (bh_PathPattern b) \<le> length (bh_PathPattern a)) (SortedCustomBehaviors d)"
  unfolding SortedCustomBehaviors_def
  by (rule go_sort_measure) (auto simp: behavior_less_def isInMostSpecificOrder_def split: if_splits)

text \<open>
  C22. The behaviors of a distribution in the order CloudFront evaluates them: a permutation of the
  behaviors of all custom origins with longer patterns first, whatever the patterns are. For
  patterns of ASCII characters every ordered permutation, so the result of any sorting algorithm,
  gives the same sequence of patterns, sorted by the documented order: longer first, then
  alphabetically with the question mark and then the star last.
\<close>

theorem sorted_behaviors:
  "mset (SortedCustomBehaviors d) = mset (concat (map or_Behaviors (dist_CustomOrigins d))) \<and>
   sorted_wrt (\<lambda>a b. length (bh_PathPattern b) \<le> length (bh_PathPattern a)) (SortedCustomBehaviors d) \<and>
   (list_all (ascii \<circ> bh_PathPattern) (concat (map or_Behaviors (dist_CustomOrigins d))) \<longrightarrow>
      sorted_wrt spec_order (map bh_PathPattern (SortedCustomBehaviors d)) \<and>
      (\<forall>bs. mset bs = mset (concat (map or_Behaviors (dist_CustomOrigins d))) \<and>
         sorted_wrt (in_order behavior_less) bs \<longrightarrow>
         map bh_PathPattern bs = map bh_PathPattern (SortedCustomBehaviors d)))"
proof (intro conjI impI allI)
  let ?all = "concat (map or_Behaviors (dist_CustomOrigins d))"
  show "mset (SortedCustomBehaviors d) = mset ?all" by (simp add: SortedCustomBehaviors_def)
  show "sorted_wrt (\<lambda>a b. length (bh_PathPattern b) \<le> length (bh_PathPattern a)) (SortedCustomBehaviors d)"
    by (rule sorted_behaviors_length)
  assume ascii: "list_all (ascii \<circ> bh_PathPattern) ?all"
  then have dom: "list_all ascii (map bh_PathPattern ?all)" by (simp add: list_all_iff)
  have keys: "map bh_PathPattern (SortedCustomBehaviors d) = go_sort isInMostSpecificOrder (map bh_PathPattern ?all)"
    unfolding SortedCustomBehaviors_def behavior_less_def [abs_def] by (rule map_go_sort)
  have "sorted_wrt (in_order isInMostSpecificOrder) (map bh_PathPattern (SortedCustomBehaviors d))"
    unfolding keys by (rule path_order.sorted_go_sort [OF dom])
  moreover have "list_all ascii (map bh_PathPattern (SortedCustomBehaviors d))"
    using dom unfolding keys by (simp only: list_all_iff set_go_sort)
  ultimately show "sorted_wrt spec_order (map bh_PathPattern (SortedCustomBehaviors d))"
    by (auto elim!: sorted_wrt_mono_rel [rotated] simp only: list_all_iff in_order_path_ascii)
  fix bs assume bs: "mset bs = mset ?all \<and> sorted_wrt (in_order behavior_less) bs"
  show "map bh_PathPattern bs = map bh_PathPattern (SortedCustomBehaviors d)"
    unfolding keys
  proof (rule path_order.sort_canonical [OF dom])
    show "mset (map bh_PathPattern bs) = mset (map bh_PathPattern ?all)"
      using bs by (simp only: mset_map)
    show "sorted_wrt (in_order isInMostSpecificOrder) (map bh_PathPattern bs)"
      using bs by (simp add: sorted_wrt_map behavior_less_def in_order_def [abs_def])
  qed
qed

theorem sorted_behaviors_witness:
  "map bh_PathPattern (SortedCustomBehaviors (zero_distribution\<lparr>dist_CustomOrigins :=
     [zero_origin\<lparr>or_Behaviors := map (\<lambda>p. \<lparr>bh_PathPattern = p, bh_RequestPolicy = [],
        bh_CachePolicy = [], bh_ResponsePolicy = [], bh_OriginHost = [], bh_Functions = []\<rparr>)
        [''/a*'', ''/abc'', ''/a?'']\<rparr>]\<rparr>)) = [''/abc'', ''/a?'', ''/a*'']"
proof -
  let ?bh = "\<lambda>p. \<lparr>bh_PathPattern = p, bh_RequestPolicy = [], bh_CachePolicy = [],
     bh_ResponsePolicy = [], bh_OriginHost = [], bh_Functions = []\<rparr>"
  let ?d = "zero_distribution\<lparr>dist_CustomOrigins :=
     [zero_origin\<lparr>or_Behaviors := map ?bh [''/a*'', ''/abc'', ''/a?'']\<rparr>]\<rparr>"
  let ?bs = "map ?bh [''/abc'', ''/a?'', ''/a*'']"
  have less: "compare_from ''/a?'' ''/a*'' (rune_starts ''/a?'')"
    by (simp add: rune_starts_ascii upt_rec)
  have "sorted_wrt (in_order behavior_less) ?bs"
    using less by (simp add: in_order_def behavior_less_def isInMostSpecificOrder_def)
  moreover have "mset ?bs = mset (concat (map or_Behaviors (dist_CustomOrigins ?d)))" by simp
  moreover have "list_all (ascii \<circ> bh_PathPattern) (concat (map or_Behaviors (dist_CustomOrigins ?d)))"
    by simp
  ultimately have "map bh_PathPattern ?bs = map bh_PathPattern (SortedCustomBehaviors ?d)"
    using sorted_behaviors [of ?d] by blast
  then show ?thesis by simp
qed

end
