(* ===== verification/Cdn_Class.thy ===== *)
theory Cdn_Class
  imports Ingress_Model
begin

text \<open>
  \<open>api/v1alpha1/cdnclass_types.go\<close>: the cluster-wide \<open>CDNClass\<close> resource as the API server stores
  it, and the class the controller works with, which \<open>internal/k8s/cdn_class_fetcher.go\<close> takes from
  its specification. A condition is a type of the API machinery of which nothing is read; of the
  metadata only the name under which a class is looked up matters.
\<close>

record cdn_class_spec =
  spec_CertificateArn :: string
  spec_HostedZoneID :: string
  spec_CreateAlias :: bool
  spec_TXTOwnerValue :: string

typedecl k8s_condition

record cdn_class_status =
  status_Conditions :: "k8s_condition list"

record cdn_class_object =
  class_name :: string
  class_Spec :: cdn_class_spec
  class_Status :: cdn_class_status

definition class_of :: "cdn_class_object \<Rightarrow> cdn_class" where
  "class_of k8sClass =
     \<lparr>HostedZoneID = spec_HostedZoneID (class_Spec k8sClass),
      CreateAlias = spec_CreateAlias (class_Spec k8sClass),
      TXTOwnerValue = spec_TXTOwnerValue (class_Spec k8sClass)\<rparr>"

text \<open>The deprecated certificate of a class has no influence on what the controller does with it.\<close>

lemma class_of_certificate:
  "class_of (k\<lparr>class_Spec := (class_Spec k)\<lparr>spec_CertificateArn := arn\<rparr>\<rparr>) = class_of k"
  by (simp add: class_of_def)

end
