(* ===== verification/Cdn_Status.thy ===== *)
theory Cdn_Status
  imports Cdn_Config
begin

text \<open>
  \<open>api/v1alpha1\<close>: the custom resources. \<open>CDNStatus\<close> is the record the controller keeps of what it
  has provisioned for a group: the distribution, the Ingresses that contributed, and the DNS
  records created for the aliases. \<open>IngressRef\<close> is the textual key of an Ingress.
\<close>

section \<open>References to Ingresses\<close>

type_synonym ingress_ref = string

definition separator :: string where
  "separator = ''/''"

definition NewIngressRef :: "string \<Rightarrow> string \<Rightarrow> ingress_ref" where
  "NewIngressRef namespace name = namespace @ separator @ name"

definition Ref_GetNamespace :: "ingress_ref \<Rightarrow> string outcome" where
  "Ref_GetNamespace i = index (go_split (hd separator) i) 0"

definition Ref_GetName :: "ingress_ref \<Rightarrow> string outcome" where
  "Ref_GetName i = index (go_split (hd separator) i) 1"

definition ToNamespacedName :: "ingress_ref \<Rightarrow> namespaced_name outcome" where
  "ToNamespacedName i =
     (let parts = go_split (hd separator) i in
      out_bind (index parts 0) (\<lambda>ns. out_bind (index parts 1) (\<lambda>n.
        Ok \<lparr>nn_namespace = ns, nn_name = n\<rparr>)))"

section \<open>The status resource\<close>

record dns_status =
  dns_records :: "string list"
  dns_synced :: bool

record cdn_status =
  cs_name :: string
  cs_resource_version :: string
  cs_id :: string
  cs_arn :: string
  cs_ingresses :: "(ingress_ref, string) gomap option"
  cs_aliases :: "string list"
  cs_address :: string
  cs_dns :: "dns_status option"

definition zero_cdn_status :: cdn_status where
  "zero_cdn_status = \<lparr>cs_name = [], cs_resource_version = [], cs_id = [], cs_arn = [],
     cs_ingresses = None, cs_aliases = [], cs_address = [], cs_dns = None\<rparr>"

definition failedIngressStatus :: string where "failedIngressStatus = ''Failed''"
definition syncedIngressStatus :: string where "syncedIngressStatus = ''Synced''"

definition SetAliases :: "string list \<Rightarrow> cdn_status \<Rightarrow> cdn_status" where
  "SetAliases aliases c = c\<lparr>cs_aliases := aliases\<rparr>"

definition UpsertDNSRecords :: "string list \<Rightarrow> cdn_status \<Rightarrow> cdn_status" where
  "UpsertDNSRecords records c =
     (if length records = 0 then c
      else case cs_dns c of
        None \<Rightarrow> c\<lparr>cs_dns := Some \<lparr>dns_records = records, dns_synced = True\<rparr>\<rparr>
      | Some d \<Rightarrow> c\<lparr>cs_dns := Some (d\<lparr>dns_records :=
            foldl (\<lambda>rs r. if \<not> contains rs r then rs @ [r] else rs) (dns_records d) records\<rparr>)\<rparr>)"

definition RemoveDNSRecords :: "string list \<Rightarrow> cdn_status \<Rightarrow> cdn_status" where
  "RemoveDNSRecords records c =
     (case cs_dns c of
        None \<Rightarrow> c
      | Some d \<Rightarrow>
          (let kept = foldl (\<lambda>rs it. filter_strs (\<lambda>i. i \<noteq> it) rs) (dns_records d) records in
           if length kept = 0 then c\<lparr>cs_dns := None\<rparr>
           else c\<lparr>cs_dns := Some (d\<lparr>dns_records := kept\<rparr>)\<rparr>))"

definition SetIngressRef :: "bool \<Rightarrow> string \<Rightarrow> string \<Rightarrow> cdn_status \<Rightarrow> cdn_status" where
  "SetIngressRef inSync namespace name c =
     (let m = (case cs_ingresses c of None \<Rightarrow> [] | Some m \<Rightarrow> m);
          status = (if \<not> inSync then failedIngressStatus else syncedIngressStatus) in
      c\<lparr>cs_ingresses := Some (AList.update (NewIngressRef namespace name) status m)\<rparr>)"

definition RemoveIngressRef :: "string \<Rightarrow> string \<Rightarrow> cdn_status \<Rightarrow> cdn_status" where
  "RemoveIngressRef namespace name c =
     (case cs_ingresses c of
        None \<Rightarrow> c
      | Some m \<Rightarrow> c\<lparr>cs_ingresses := Some (AList.delete (NewIngressRef namespace name) m)\<rparr>)"

definition HasIngressRef :: "string \<Rightarrow> string \<Rightarrow> cdn_status \<Rightarrow> bool" where
  "HasIngressRef namespace name c =
     (case cs_ingresses c of
        None \<Rightarrow> False
      | Some m \<Rightarrow> map_of m (NewIngressRef namespace name) \<noteq> None)"

definition GetIngressKeys :: "ingress_ref order \<Rightarrow> cdn_status \<Rightarrow> namespaced_name list outcome" where
  "GetIngressKeys ord c =
     out_mapM ToNamespacedName (ord (keys (case cs_ingresses c of None \<Rightarrow> [] | Some m \<Rightarrow> m)))"

definition SetDNSSync :: "bool \<Rightarrow> cdn_status \<Rightarrow> cdn_status" where
  "SetDNSSync synced c =
     (let d = (case cs_dns c of None \<Rightarrow> \<lparr>dns_records = [], dns_synced = False\<rparr> | Some d \<Rightarrow> d) in
      c\<lparr>cs_dns := Some (d\<lparr>dns_synced := synced\<rparr>)\<rparr>)"

definition SetInfo :: "string \<Rightarrow> string \<Rightarrow> string \<Rightarrow> cdn_status \<Rightarrow> cdn_status" where
  "SetInfo i arn address c = c\<lparr>cs_id := i, cs_arn := arn, cs_address := address\<rparr>"

definition Status_Exists :: "cdn_status \<Rightarrow> bool" where
  "Status_Exists c \<longleftrightarrow> cs_resource_version c \<noteq> []"

section \<open>Round trip of the references\<close>

lemma NewIngressRef_inj:
  assumes "NewIngressRef ns n = NewIngressRef ns' n'" and "CHR ''/'' \<notin> set ns" and "CHR ''/'' \<notin> set ns'"
  shows "ns = ns' \<and> n = n'"
proof -
  have "ns @ CHR ''/'' # n = ns' @ CHR ''/'' # n'"
    using assms(1) by (simp add: NewIngressRef_def separator_def)
  moreover from this have "go_split CHR ''/'' (ns @ CHR ''/'' # n) = go_split CHR ''/'' (ns' @ CHR ''/'' # n')"
    by (rule arg_cong)
  then have "ns = ns'" using assms(2,3) by (simp add: go_simps)
  ultimately show ?thesis by simp
qed

text \<open>
  The textual reference of an Ingress loses nothing: for a namespace and a name without the
  separator (Kubernetes names never contain it) the reference is read back as that very pair.
\<close>

theorem ingress_ref_roundtrip:
  assumes "CHR ''/'' \<notin> set ns" and "CHR ''/'' \<notin> set n"
  shows "ToNamespacedName (NewIngressRef ns n) = Ok \<lparr>nn_namespace = ns, nn_name = n\<rparr> \<and>
         Ref_GetNamespace (NewIngressRef ns n) = Ok ns \<and> Ref_GetName (NewIngressRef ns n) = Ok n"
  using assms
  by (simp add: ToNamespacedName_def Ref_GetNamespace_def Ref_GetName_def NewIngressRef_def
      separator_def go_simps Let_def)

theorem ingress_ref_roundtrip_witness:
  "ToNamespacedName (NewIngressRef ''prod'' ''web'') = Ok \<lparr>nn_namespace = ''prod'', nn_name = ''web''\<rparr>"
  using ingress_ref_roundtrip [of "''prod''" "''web''"] by simp

section \<open>The DNS record set as an abstract set\<close>

text \<open>The record set a status stands for, and the invariant of its representation.\<close>

definition status_records :: "cdn_status \<Rightarrow> string set" where
  "status_records c = (case cs_dns c of None \<Rightarrow> {} | Some d \<Rightarrow> set (dns_records d))"

definition wf_status :: "cdn_status \<Rightarrow> bool" where
  "wf_status c \<longleftrightarrow> (case cs_dns c of None \<Rightarrow> True | Some d \<Rightarrow> distinct (dns_records d)) \<and>
     (case cs_ingresses c of None \<Rightarrow> True | Some m \<Rightarrow> wf_map m)"

text \<open>
  The contract of a store of elements that is updated in bulk, and what a client that inserts
  what it wants and deletes the rest obtains.
\<close>

locale bulk_store =
  fixes insert_all :: "'e list \<Rightarrow> 's \<Rightarrow> 's"
    and delete_all :: "'e list \<Rightarrow> 's \<Rightarrow> 's"
    and elems :: "'s \<Rightarrow> 'e set"
    and invar :: "'s \<Rightarrow> bool"
  assumes elems_insert: "elems (insert_all xs s) = elems s \<union> set xs"
    and elems_delete: "elems (delete_all xs s) = elems s - set xs"
    and invar_insert: "invar s \<Longrightarrow> distinct xs \<Longrightarrow> invar (insert_all xs s)"
    and invar_delete: "invar s \<Longrightarrow> invar (delete_all xs s)"
begin

lemma converges:
  assumes "set obsolete = elems s - set wanted"
  shows "elems (delete_all obsolete (insert_all wanted s)) = set wanted"
  using assms by (auto simp: elems_insert elems_delete)

lemma insert_idem: "elems (insert_all xs (insert_all xs s)) = elems (insert_all xs s)"
  by (simp add: elems_insert)

lemma delete_insert_disjoint:
  "set xs \<inter> set ys = {} \<Longrightarrow>
   elems (delete_all ys (insert_all xs s)) = elems (insert_all xs (delete_all ys s))"
  by (auto simp: elems_insert elems_delete)

lemma invar_sync:
  "invar s \<Longrightarrow> distinct wanted \<Longrightarrow> invar (delete_all obsolete (insert_all wanted s))"
  by (simp add: invar_insert invar_delete)

end

lemma upsert_loop_eq:
  "foldl (\<lambda>rs r. if r \<notin> set rs then rs @ [r] else rs) xs ys = add_all_absent xs ys"
  unfolding add_all_absent_def by (induction ys arbitrary: xs) (simp_all add: add_if_absent_def)

lemma remove_loop_eq:
  "foldl (\<lambda>rs it. filter (\<lambda>i. i \<noteq> it) rs) xs ys = filter (\<lambda>r. r \<notin> set ys) xs"
  by (induction ys arbitrary: xs) (auto simp: conj_commute)

interpretation dns: bulk_store UpsertDNSRecords RemoveDNSRecords status_records wf_status
proof unfold_locales
  fix xs and c :: cdn_status
  show "status_records (UpsertDNSRecords xs c) = status_records c \<union> set xs"
    by (auto simp: UpsertDNSRecords_def status_records_def upsert_loop_eq split: option.splits)
  show "status_records (RemoveDNSRecords xs c) = status_records c - set xs"
    by (auto simp: RemoveDNSRecords_def status_records_def remove_loop_eq Let_def filter_empty_conv
        split: option.splits)
  assume wf: "wf_status c"
  then show "wf_status (RemoveDNSRecords xs c)"
    by (auto simp: RemoveDNSRecords_def wf_status_def remove_loop_eq Let_def split: option.splits)
  assume "distinct xs"
  with wf show "wf_status (UpsertDNSRecords xs c)"
    by (auto simp: UpsertDNSRecords_def wf_status_def upsert_loop_eq split: option.splits)
qed

lemma UpsertDNSRecords_frame [simp]:
  "cs_name (UpsertDNSRecords xs c) = cs_name c"
  "cs_resource_version (UpsertDNSRecords xs c) = cs_resource_version c"
  "cs_ingresses (UpsertDNSRecords xs c) = cs_ingresses c"
  by (simp_all add: UpsertDNSRecords_def split: option.splits)

lemma RemoveDNSRecords_frame [simp]:
  "cs_name (RemoveDNSRecords xs c) = cs_name c"
  "cs_resource_version (RemoveDNSRecords xs c) = cs_resource_version c"
  "cs_ingresses (RemoveDNSRecords xs c) = cs_ingresses c"
  by (simp_all add: RemoveDNSRecords_def Let_def split: option.splits)

text \<open>
  The DNS section of the status behaves as a finite set under the two bulk updates of the
  controller: after recording the wanted records and removing the obsolete ones (those present
  and not wanted) it holds exactly the wanted records, each once.
\<close>

theorem status_records_converge:
  assumes "wf_status c" and "distinct wanted" and "set obsolete = status_records c - set wanted"
  shows "status_records (RemoveDNSRecords obsolete (UpsertDNSRecords wanted c)) = set wanted \<and>
         wf_status (RemoveDNSRecords obsolete (UpsertDNSRecords wanted c))"
  using dns.converges [OF assms(3)] dns.invar_sync [OF assms(1,2)] by simp

theorem status_records_converge_witness:
  "status_records (RemoveDNSRecords [''old.''] (UpsertDNSRecords [''new.'', ''kept.'']
     (zero_cdn_status\<lparr>cs_dns := Some \<lparr>dns_records = [''kept.'', ''old.''], dns_synced = True\<rparr>\<rparr>)))
   = {''new.'', ''kept.''}"
proof -
  let ?c = "zero_cdn_status\<lparr>cs_dns := Some \<lparr>dns_records = [''kept.'', ''old.''], dns_synced = True\<rparr>\<rparr>"
  have "wf_status ?c" by (simp add: wf_status_def zero_cdn_status_def)
  moreover have "set [''old.''] = status_records ?c - set [''new.'', ''kept.'']"
    by (auto simp: status_records_def)
  ultimately show ?thesis
    using status_records_converge [of ?c "[''new.'', ''kept.'']" "[''old.'']"] by simp
qed

section \<open>The Ingress references of a status\<close>

lemma HasIngressRef_Set:
  assumes "CHR ''/'' \<notin> set ns" and "CHR ''/'' \<notin> set ns'"
  shows "HasIngressRef ns' n' (SetIngressRef b ns n c) \<longleftrightarrow> (ns' = ns \<and> n' = n) \<or> HasIngressRef ns' n' c"
  using NewIngressRef_inj [of ns' n' ns n] assms
  by (auto simp: HasIngressRef_def SetIngressRef_def Let_def update_conv' split: option.splits)

lemma HasIngressRef_Remove:
  assumes "CHR ''/'' \<notin> set ns" and "CHR ''/'' \<notin> set ns'"
  shows "HasIngressRef ns' n' (RemoveIngressRef ns n c) \<longleftrightarrow> (ns', n') \<noteq> (ns, n) \<and> HasIngressRef ns' n' c"
  using NewIngressRef_inj [of ns' n' ns n] assms
  by (auto simp: HasIngressRef_def RemoveIngressRef_def delete_conv' split: option.splits)

lemma wf_SetIngressRef [simp]: "wf_status c \<Longrightarrow> wf_status (SetIngressRef b ns n c)"
  by (auto simp: wf_status_def SetIngressRef_def Let_def wf_map_def distinct_update
      split: option.splits)

lemma wf_RemoveIngressRef [simp]: "wf_status c \<Longrightarrow> wf_status (RemoveIngressRef ns n c)"
  by (auto simp: wf_status_def RemoveIngressRef_def split: option.splits)

lemma wf_SetDNSSync [simp]: "wf_status c \<Longrightarrow> wf_status (SetDNSSync b c)"
  by (auto simp: wf_status_def SetDNSSync_def Let_def split: option.splits)

lemma wf_SetInfo [simp]: "wf_status c \<Longrightarrow> wf_status (SetInfo i a d c)"
  by (simp add: wf_status_def SetInfo_def)

lemma wf_SetAliases [simp]: "wf_status c \<Longrightarrow> wf_status (SetAliases as c)"
  by (simp add: wf_status_def SetAliases_def)

lemma SetDNSSync_synced: "\<exists>d. cs_dns (SetDNSSync b c) = Some d \<and> dns_synced d = b"
  by (simp add: SetDNSSync_def Let_def)

lemma status_records_SetDNSSync [simp]: "status_records (SetDNSSync b c) = status_records c"
  by (simp add: status_records_def SetDNSSync_def Let_def split: option.splits)

end
