(* ===== verification/Aws_Error.thy ===== *)
theory Aws_Error
  imports Go_Prelude
begin

text \<open>
  \<open>internal/aws/error.go\<close>: recognising and ignoring AWS error codes. An error that may be nil is
  an \<open>option\<close>.
\<close>

definition IsErrorCode :: "go_error option \<Rightarrow> string \<Rightarrow> bool" where
  "IsErrorCode err code = (case err of
     None \<Rightarrow> False
   | Some e \<Rightarrow> (case errors_As_aws e of None \<Rightarrow> False | Some c \<Rightarrow> c = code))"

definition IgnoreErrorCode :: "go_error option \<Rightarrow> string \<Rightarrow> go_error option" where
  "IgnoreErrorCode err code = (if IsErrorCode err code then None else err)"

text \<open>The format is the function that \<open>fmt.Errorf(format, err)\<close> applies to the error.\<close>

definition IgnoreErrorCodef :: "(go_error \<Rightarrow> go_error) \<Rightarrow> go_error \<Rightarrow> string \<Rightarrow> go_error option" where
  "IgnoreErrorCodef format err code = (if IsErrorCode (Some err) code then None else Some (format err))"

lemma IsErrorCode_simps [simp]:
  "\<not> IsErrorCode None code"
  "IsErrorCode (Some (AwsError c m)) code \<longleftrightarrow> c = code"
  "\<not> IsErrorCode (Some (ErrorfV m e)) code"
  "\<not> IsErrorCode (Some ErrDeadlineExceeded) code"
  by (simp_all add: IsErrorCode_def errors_As_aws_def)

lemma IsErrorCode_wrapped [simp]: "IsErrorCode (Some (ErrorfW m e)) code = IsErrorCode (Some e) code"
  by (simp add: IsErrorCode_def errors_As_aws_def)

lemma IgnoreErrorCode_eq_None: "IgnoreErrorCode err code = None \<longleftrightarrow> err = None \<or> IsErrorCode err code"
  by (simp add: IgnoreErrorCode_def)

lemma IgnoreErrorCodef_eq_None: "IgnoreErrorCodef f err code = None \<longleftrightarrow> IsErrorCode (Some err) code"
  by (simp add: IgnoreErrorCodef_def)

end
