(* ===== verification/Cloud_Api.thy ===== *)
theory Cloud_Api
  imports Distribution_Model Cdn_Class Cdn_Status Aws_Error
begin

text \<open>
  The boundary of the controller: the data it exchanges with the AWS APIs (CloudFront, resource
  tagging, ACM, Route 53) and with the Kubernetes API server, one constructor of \<open>api_call\<close> per
  request it can make, and the \<open>world\<close>, which answers each request as an arbitrary function of
  the requests made so far. Members the API models mark as required are plain values, the others
  options; a dereference of an absent option is a panic. A paginated listing answers with the
  pages the paginator delivers and the error it ends with, if any.
\<close>

section \<open>CloudFront data\<close>

text \<open>Lists the API transmits with their length.\<close>

record 'a quantified =
  q_items :: "'a list"
  q_quantity :: int

definition quantify :: "'a list \<Rightarrow> 'a quantified" where
  "quantify xs = \<lparr>q_items = xs, q_quantity = int (length xs)\<rparr>"

definition q_ok :: "'a quantified \<Rightarrow> bool" where
  "q_ok q \<longleftrightarrow> q_quantity q = int (length (q_items q))"

lemma quantify_simps [simp]: "q_items (quantify xs) = xs" "q_ok (quantify xs)"
  by (simp_all add: quantify_def q_ok_def)

record aws_custom_origin_config =
  coc_HTTPPort :: int
  coc_HTTPSPort :: int
  coc_OriginKeepaliveTimeout :: int
  coc_OriginProtocolPolicy :: string
  coc_OriginReadTimeout :: int
  coc_OriginSslProtocols :: "string quantified"

record aws_origin =
  ao_CustomHeaders :: "(string \<times> string) quantified"
  ao_CustomOriginConfig :: "aws_custom_origin_config option"
  ao_DomainName :: string
  ao_Id :: string
  ao_OriginAccessControlId :: "string option"
  ao_OriginPath :: string
  ao_S3OriginConfig :: "string option"

record aws_function_association =
  afa_EventType :: string
  afa_FunctionARN :: string

record aws_lambda_association =
  ala_EventType :: string
  ala_LambdaFunctionARN :: string
  ala_IncludeBody :: "bool option"

record aws_cache_behavior =
  acb_AllowedMethods :: "string quantified"
  acb_CachedMethods :: "string quantified"
  acb_CachePolicyId :: string
  acb_Compress :: bool
  acb_FieldLevelEncryptionId :: string
  acb_FunctionAssociations :: "aws_function_association quantified option"
  acb_LambdaFunctionAssociations :: "aws_lambda_association quantified"
  acb_OriginRequestPolicyId :: "string option"
  acb_PathPattern :: string
  acb_ResponseHeadersPolicyId :: "string option"
  acb_SmoothStreaming :: bool
  acb_TargetOriginId :: string
  acb_ViewerProtocolPolicy :: string

record aws_logging =
  al_Enabled :: bool
  al_Bucket :: string
  al_Prefix :: string
  al_IncludeCookies :: bool

record aws_viewer_certificate =
  avc_ACMCertificateArn :: string
  avc_MinimumProtocolVersion :: string
  avc_SSLSupportMethod :: string

text \<open>Parts of a configuration the controller only passes on.\<close>

datatype sdk_blob = SdkBlob string

record aws_dist_config =
  dc_Aliases :: "string quantified"
  dc_CacheBehaviors :: "aws_cache_behavior quantified"
  dc_CallerReference :: string
  dc_Comment :: string
  dc_CustomErrorResponses :: "sdk_blob option"
  dc_DefaultCacheBehavior :: aws_cache_behavior
  dc_Origins :: "aws_origin quantified option"
  dc_DefaultRootObject :: "string option"
  dc_Enabled :: bool
  dc_HttpVersion :: string
  dc_IsIPV6Enabled :: bool
  dc_Logging :: aws_logging
  dc_PriceClass :: string
  dc_Restrictions :: "sdk_blob option"
  dc_ViewerCertificate :: "aws_viewer_certificate option"
  dc_WebACLId :: "string option"

record aws_tag =
  tag_Key :: string
  tag_Value :: string

record aws_distribution =
  ad_Id :: string
  ad_ARN :: string
  ad_DomainName :: string
  ad_Status :: string

record aws_oac_config =
  aoc_Description :: string
  aoc_Name :: string
  aoc_OriginType :: string
  aoc_SigningBehavior :: string
  aoc_SigningProtocol :: string

record aws_oac_summary =
  aos_Id :: string
  aos_Name :: string
  aos_OriginType :: string
  aos_SigningBehavior :: string
  aos_SigningProtocol :: string

section \<open>ACM and Route 53 data\<close>

record aws_cert_detail =
  acd_CertificateArn :: "string option"
  acd_DomainName :: "string option"
  acd_SubjectAlternativeNames :: "string option list"

record alias_target =
  at_DNSName :: string
  at_EvaluateTargetHealth :: bool
  at_HostedZoneId :: string

record rrset =
  rr_Name :: string
  rr_Type :: string
  rr_AliasTarget :: "alias_target option"
  rr_Records :: "string list"
  rr_TTL :: "int option"
  rr_Weight :: "int option"
  rr_GeoLocation :: "sdk_blob option"
  rr_CidrRoutingConfig :: "sdk_blob option"

record rr_change =
  ch_Action :: string
  ch_RRSet :: rrset

section \<open>Requests\<close>

datatype event_target = OnIngress string string | OnStatus string

datatype api_call =
    GetResources string string string string
  | CreateDistributionWithTags aws_dist_config "aws_tag list"
  | GetDistributionConfig string
  | UpdateDistribution string "string option" aws_dist_config
  | GetDistribution string
  | DeleteDistribution string "string option"
  | TagResource string "aws_tag list"
  | ListOriginAccessControls
  | GetOriginAccessControl string
  | CreateOriginAccessControl aws_oac_config
  | UpdateOriginAccessControl string "string option" aws_oac_config
  | DeleteOriginAccessControl string "string option"
  | ListCertificates string
  | DescribeCertificate "string option"
  | ListResourceRecordSets string string "string option" string
  | ChangeResourceRecordSets string string "rr_change list"
  | K8sListIngresses
  | K8sGetIngress string string
  | K8sGetClass string
  | K8sGetStatus string
  | K8sCreateStatus cdn_status
  | K8sUpdateStatus cdn_status
  | K8sDeleteStatus cdn_status
  | K8sUpdateIngress ingress
  | K8sEvent event_target string string

type_synonym 'a response = "api_call list \<Rightarrow> go_error + 'a"

text \<open>
  \<open>w_caller_ref\<close> is the caller reference function (the current time in \<open>main.go\<close>). The answers of
  the Kubernetes writes are the objects as the client decodes them after the request.
\<close>

record world =
  w_caller_ref :: "api_call list \<Rightarrow> string"
  w_get_resources :: "string option list response"
  w_create_distribution :: "aws_distribution response"
  w_get_distribution_config :: "(aws_dist_config \<times> string option) response"
  w_update_distribution :: "aws_distribution response"
  w_get_distribution :: "(aws_distribution \<times> string option) response"
  w_delete_distribution :: "unit response"
  w_tag_resource :: "unit response"
  w_list_oacs :: "api_call list \<Rightarrow> (aws_oac_summary list \<times> bool) list \<times> go_error option"
  w_get_oac :: "string option response"
  w_create_oac :: "(string \<times> aws_oac_config) response"
  w_update_oac :: "(string \<times> aws_oac_config) response"
  w_delete_oac :: "unit response"
  w_list_certificates :: "api_call list \<Rightarrow> (string option list \<times> bool) list \<times> go_error option"
  w_describe_certificate :: "aws_cert_detail response"
  w_list_record_sets :: "rrset list response"
  w_change_record_sets :: "unit response"
  w_list_ingresses :: "ingress list response"
  w_get_ingress :: "ingress response"
  w_get_class :: "cdn_class_object response"
  w_get_status :: "cdn_status response"
  w_create_status :: "cdn_status response"
  w_update_status :: "cdn_status response"
  w_delete_status :: "unit response"
  w_update_ingress :: "ingress response"

type_synonym 'a api = "(api_call, 'a) io"

text \<open>A request that cannot fail for the caller, such as the emission of an event.\<close>

definition io_notify :: "api_call \<Rightarrow> unit api" where
  "io_notify c = io_call c (\<lambda>_. Inr ())"

text \<open>A paginated listing: the request, then the pages and the final error.\<close>

definition io_pages :: "api_call \<Rightarrow> (api_call list \<Rightarrow> 'p) \<Rightarrow> 'p api" where
  "io_pages c resp = io_call c (\<lambda>t. Inr (resp t))"

text \<open>The current answer of a function of the environment that is no request.\<close>

definition io_ask :: "(api_call list \<Rightarrow> 'a) \<Rightarrow> 'a api" where
  "io_ask f = (\<lambda>t. (Ok (f t), t))"

definition is_not_found :: "go_error \<Rightarrow> bool" where
  "is_not_found e \<longleftrightarrow> K8sNotFound \<in> set (error_chain e)"

lemma emits_notify [emits_intros]: "P c \<Longrightarrow> emits P (io_notify c)"
  by (simp add: io_notify_def emits_call)

lemma emits_pages [emits_intros]: "P c \<Longrightarrow> emits P (io_pages c resp)"
  by (simp add: io_pages_def emits_call)

lemma emits_ask [emits_intros]: "emits P (io_ask f)"
  by (simp add: emits_def io_ask_def)

section \<open>Classes of requests\<close>

text \<open>Requests that only read.\<close>

fun read_only :: "api_call \<Rightarrow> bool" where
  "read_only (GetResources _ _ _ _) = True"
| "read_only (GetDistributionConfig _) = True"
| "read_only (GetDistribution _) = True"
| "read_only ListOriginAccessControls = True"
| "read_only (GetOriginAccessControl _) = True"
| "read_only (ListCertificates _) = True"
| "read_only (DescribeCertificate _) = True"
| "read_only (ListResourceRecordSets _ _ _ _) = True"
| "read_only K8sListIngresses = True"
| "read_only (K8sGetIngress _ _) = True"
| "read_only (K8sGetClass _) = True"
| "read_only (K8sGetStatus _) = True"
| "read_only _ = False"

text \<open>Requests that destroy a resource in AWS.\<close>

fun destroys :: "api_call \<Rightarrow> bool" where
  "destroys (DeleteDistribution _ _) = True"
| "destroys (DeleteOriginAccessControl _ _) = True"
| "destroys (ChangeResourceRecordSets _ _ chs) = list_ex (\<lambda>c. ch_Action c = ''DELETE'') chs"
| "destroys _ = False"

text \<open>Requests that change CloudFront distributions.\<close>

fun writes_distribution :: "api_call \<Rightarrow> bool" where
  "writes_distribution (CreateDistributionWithTags _ _) = True"
| "writes_distribution (UpdateDistribution _ _ _) = True"
| "writes_distribution (DeleteDistribution _ _) = True"
| "writes_distribution (TagResource _ _) = True"
| "writes_distribution _ = False"

lemma read_only_not_destroys: "read_only c \<Longrightarrow> \<not> destroys c"
  by (cases c) auto

lemma read_only_not_writes: "read_only c \<Longrightarrow> \<not> writes_distribution c"
  by (cases c) auto

section \<open>A world to evaluate the definitions with\<close>

text \<open>Every listing is empty, every write succeeds, nothing is found.\<close>

definition some_oac_config :: aws_oac_config where
  "some_oac_config = \<lparr>aoc_Description = [], aoc_Name = ''oac'', aoc_OriginType = ''s3'',
     aoc_SigningBehavior = ''always'', aoc_SigningProtocol = ''sigv4''\<rparr>"

definition some_cache_behavior :: aws_cache_behavior where
  "some_cache_behavior = \<lparr>acb_AllowedMethods = quantify [], acb_CachedMethods = quantify [],
     acb_CachePolicyId = [], acb_Compress = True, acb_FieldLevelEncryptionId = [],
     acb_FunctionAssociations = None, acb_LambdaFunctionAssociations = quantify [],
     acb_OriginRequestPolicyId = None, acb_PathPattern = [], acb_ResponseHeadersPolicyId = None,
     acb_SmoothStreaming = False, acb_TargetOriginId = ''default.host'',
     acb_ViewerProtocolPolicy = ''redirect-to-https''\<rparr>"

definition some_dist_config :: aws_dist_config where
  "some_dist_config = \<lparr>dc_Aliases = quantify [], dc_CacheBehaviors = quantify [],
     dc_CallerReference = ''ref0'', dc_Comment = [], dc_CustomErrorResponses = None,
     dc_DefaultCacheBehavior = some_cache_behavior, dc_Origins = None, dc_DefaultRootObject = Some [],
     dc_Enabled = True, dc_HttpVersion = ''http2'', dc_IsIPV6Enabled = False,
     dc_Logging = \<lparr>al_Enabled = False, al_Bucket = [], al_Prefix = [], al_IncludeCookies = False\<rparr>,
     dc_PriceClass = [], dc_Restrictions = None, dc_ViewerCertificate = None, dc_WebACLId = None\<rparr>"

definition some_aws_distribution :: aws_distribution where
  "some_aws_distribution = \<lparr>ad_Id = ''E1'', ad_ARN = ''arn:aws:cloudfront::1:distribution/E1'',
     ad_DomainName = ''d1.cloudfront.net'', ad_Status = ''Deployed''\<rparr>"

definition some_world :: world where
  "some_world = \<lparr>
     w_caller_ref = (\<lambda>_. ''ref''),
     w_get_resources = (\<lambda>_. Inr []),
     w_create_distribution = (\<lambda>_. Inr some_aws_distribution),
     w_get_distribution_config = (\<lambda>_. Inr (some_dist_config, Some ''v1'')),
     w_update_distribution = (\<lambda>_. Inr some_aws_distribution),
     w_get_distribution = (\<lambda>_. Inr (some_aws_distribution, Some ''v2'')),
     w_delete_distribution = (\<lambda>_. Inr ()),
     w_tag_resource = (\<lambda>_. Inr ()),
     w_list_oacs = (\<lambda>_. ([], None)),
     w_get_oac = (\<lambda>_. Inr (Some ''o1'')),
     w_create_oac = (\<lambda>_. Inr (''O1'', some_oac_config)),
     w_update_oac = (\<lambda>_. Inr (''O1'', some_oac_config)),
     w_delete_oac = (\<lambda>_. Inr ()),
     w_list_certificates = (\<lambda>_. ([], None)),
     w_describe_certificate = (\<lambda>_. Inl (AwsError ''ResourceNotFoundException'' [])),
     w_list_record_sets = (\<lambda>_. Inr []),
     w_change_record_sets = (\<lambda>_. Inr ()),
     w_list_ingresses = (\<lambda>_. Inr []),
     w_get_ingress = (\<lambda>_. Inl K8sNotFound),
     w_get_class = (\<lambda>_. Inl K8sNotFound),
     w_get_status = (\<lambda>_. Inl K8sNotFound),
     w_create_status = (\<lambda>_. Inr zero_cdn_status),
     w_update_status = (\<lambda>_. Inr zero_cdn_status),
     w_delete_status = (\<lambda>_. Inr ()),
     w_update_ingress = (\<lambda>_. Inl K8sNotFound)\<rparr>"

end
