(* ===== verification/Aws_Models.thy ===== *)
theory Aws_Models
  imports Cloud_Api
begin

text \<open>
  \<open>internal/cloudfront/aws_models.go\<close>: the translation of a desired distribution into the
  configuration the CloudFront API takes. The constants of the SDK appear with their values.
\<close>

section \<open>Definitions\<close>

definition allowed_methods :: "string quantified" where
  "allowed_methods = \<lparr>q_items = [''GET'', ''HEAD'', ''OPTIONS'', ''PUT'', ''POST'', ''PATCH'', ''DELETE''],
     q_quantity = 7\<rparr>"

definition cached_methods :: "string quantified" where
  "cached_methods = \<lparr>q_items = [''GET'', ''HEAD''], q_quantity = 2\<rparr>"

definition ssl_protocols :: "string list" where
  "ssl_protocols = [''SSLv3'', ''TLSv1'', ''TLSv1.1'', ''TLSv1.2'']"

definition newCustomHeaders :: "string order \<Rightarrow> origin \<Rightarrow> (string \<times> string) quantified" where
  "newCustomHeaders ord a =
     quantify (map_range ord (case Origin_Headers a of None \<Rightarrow> [] | Some m \<Rightarrow> m))"

definition newAWSOrigin :: "string order \<Rightarrow> origin \<Rightarrow> aws_origin" where
  "newAWSOrigin ord a =
     \<lparr>ao_CustomHeaders = newCustomHeaders ord a,
      ao_CustomOriginConfig = (if or_Access a = OriginAccessPublic
        then Some \<lparr>coc_HTTPPort = 80, coc_HTTPSPort = 443, coc_OriginKeepaliveTimeout = 5,
                   coc_OriginProtocolPolicy = ''match-viewer'',
                   coc_OriginReadTimeout = or_ResponseTimeout a,
                   coc_OriginSslProtocols = quantify ssl_protocols\<rparr>
        else None),
      ao_DomainName = or_Host a,
      ao_Id = or_Host a,
      ao_OriginAccessControlId = (if or_Access a = OriginAccessPublic then None else Some (oac_ID (or_OAC a))),
      ao_OriginPath = [],
      ao_S3OriginConfig = (if or_Access a = OriginAccessPublic then None else Some [])\<rparr>"

definition newAWSFunctionAssociation :: "cf_function list \<Rightarrow> aws_function_association list" where
  "newAWSFunctionAssociation functions =
     map (\<lambda>fn. \<lparr>afa_EventType = Function_EventType fn, afa_FunctionARN = Function_ARN fn\<rparr>) functions"

definition newAWSLambdaFunctionAssociation :: "cf_function list \<Rightarrow> aws_lambda_association list" where
  "newAWSLambdaFunctionAssociation functions =
     map (\<lambda>fn. \<lparr>ala_EventType = Function_EventType fn, ala_LambdaFunctionARN = Function_ARN fn,
                ala_IncludeBody = Function_IncludeBody fn\<rparr>) functions"

definition baseCacheBehavior :: "behavior \<Rightarrow> aws_cache_behavior" where
  "baseCacheBehavior b =
     \<lparr>acb_AllowedMethods = allowed_methods, acb_CachedMethods = cached_methods,
      acb_CachePolicyId = bh_CachePolicy b, acb_Compress = True, acb_FieldLevelEncryptionId = [],
      acb_FunctionAssociations = None,
      acb_LambdaFunctionAssociations = quantify [],
      acb_OriginRequestPolicyId = (if bh_RequestPolicy b = ''None'' then None else Some (bh_RequestPolicy b)),
      acb_PathPattern = bh_PathPattern b,
      acb_ResponseHeadersPolicyId =
        (if length (bh_ResponsePolicy b) > 0 \<and> bh_ResponsePolicy b \<noteq> ''None''
         then Some (bh_ResponsePolicy b) else None),
      acb_SmoothStreaming = False, acb_TargetOriginId = bh_OriginHost b,
      acb_ViewerProtocolPolicy = ''redirect-to-https''\<rparr>"

definition newCacheBehavior :: "behavior \<Rightarrow> aws_cache_behavior" where
  "newCacheBehavior b =
     (let cfFunctions = filter (\<lambda>fn. Function_Type fn = FunctionTypeCloudfront) (bh_Functions b);
          edgeFunctions = filter (\<lambda>fn. Function_Type fn = FunctionTypeEdge) (bh_Functions b) in
      (baseCacheBehavior b)
        \<lparr>acb_FunctionAssociations := Some (quantify (newAWSFunctionAssociation cfFunctions)),
         acb_LambdaFunctionAssociations := quantify (newAWSLambdaFunctionAssociation edgeFunctions)\<rparr>)"

definition default_cache_behavior :: "distribution \<Rightarrow> config \<Rightarrow> aws_cache_behavior" where
  "default_cache_behavior d cfg =
     \<lparr>acb_AllowedMethods = allowed_methods, acb_CachedMethods = cached_methods,
      acb_CachePolicyId = CloudFrontDefaultCachingPolicyID cfg, acb_Compress = True,
      acb_FieldLevelEncryptionId = [], acb_FunctionAssociations = None,
      acb_LambdaFunctionAssociations = quantify [],
      acb_OriginRequestPolicyId = Some (CloudFrontDefaultCacheRequestPolicyID cfg),
      acb_PathPattern = [], acb_ResponseHeadersPolicyId = None, acb_SmoothStreaming = False,
      acb_TargetOriginId = or_Host (dist_DefaultOrigin d),
      acb_ViewerProtocolPolicy = ''redirect-to-https''\<rparr>"

definition newAWSDistributionConfig ::
    "string order \<Rightarrow> distribution \<Rightarrow> string \<Rightarrow> config \<Rightarrow> aws_dist_config" where
  "newAWSDistributionConfig ord d callerRef cfg =
     (let allOrigins = newAWSOrigin ord (dist_DefaultOrigin d) # map (newAWSOrigin ord) (dist_CustomOrigins d);
          allCacheBehaviors = map newCacheBehavior (SortedCustomBehaviors d) in
      \<lparr>dc_Aliases = quantify (dist_AlternateDomains d),
       dc_CacheBehaviors = quantify allCacheBehaviors,
       dc_CallerReference = callerRef,
       dc_Comment = dist_Description d,
       dc_CustomErrorResponses = None,
       dc_DefaultCacheBehavior = default_cache_behavior d cfg,
       dc_Origins = Some (quantify allOrigins),
       dc_DefaultRootObject = None,
       dc_Enabled = True,
       dc_HttpVersion = ''http2'',
       dc_IsIPV6Enabled = dist_IPv6Enabled d,
       dc_Logging = (if log_Enabled (dist_Logging d)
         then \<lparr>al_Enabled = True, al_Bucket = log_BucketAddress (dist_Logging d),
               al_Prefix = log_Prefix (dist_Logging d), al_IncludeCookies = False\<rparr>
         else \<lparr>al_Enabled = False, al_Bucket = [], al_Prefix = [], al_IncludeCookies = False\<rparr>),
       dc_PriceClass = dist_PriceClass d,
       dc_Restrictions = None,
       dc_ViewerCertificate = (if tls_Enabled (dist_TLS d)
         then Some \<lparr>avc_ACMCertificateArn = tls_CertARN (dist_TLS d),
                    avc_MinimumProtocolVersion = tls_SecurityPolicyID (dist_TLS d),
                    avc_SSLSupportMethod = ''sni-only''\<rparr>
         else None),
       dc_WebACLId = Some (dist_WebACLID d)\<rparr>)"

definition distCfgHasOrigins :: "aws_dist_config \<Rightarrow> bool" where
  "distCfgHasOrigins distCfg = (case dc_Origins distCfg of
     None \<Rightarrow> False | Some q \<Rightarrow> length (q_items q) > 0)"

definition config_origins :: "aws_dist_config \<Rightarrow> aws_origin list" where
  "config_origins distCfg = (case dc_Origins distCfg of None \<Rightarrow> [] | Some q \<Rightarrow> q_items q)"

section \<open>Properties\<close>

lemma Function_Type_cases: "Function_Type f = FunctionTypeCloudfront \<or> Function_Type f = FunctionTypeEdge"
  by (cases f) auto

lemma function_types_differ: "FunctionTypeCloudfront \<noteq> FunctionTypeEdge"
  by (simp add: FunctionTypeCloudfront_def FunctionTypeEdge_def)

text \<open>
  A behavior's functions reach the API completely: every function is sent exactly once, as a
  CloudFront function or as a Lambda association according to its type, with its event and ARN;
  only an edge function on a request carries the body flag; and the quantities sent are the
  lengths of the lists.
\<close>

theorem cache_behavior_functions:
  "mset (map (\<lambda>x. (afa_EventType x, afa_FunctionARN x)) (q_items (the (acb_FunctionAssociations (newCacheBehavior b))))) +
   mset (map (\<lambda>x. (ala_EventType x, ala_LambdaFunctionARN x)) (q_items (acb_LambdaFunctionAssociations (newCacheBehavior b)))) =
     mset (map (\<lambda>f. (Function_EventType f, Function_ARN f)) (bh_Functions b)) \<and>
   q_ok (the (acb_FunctionAssociations (newCacheBehavior b))) \<and>
   q_ok (acb_LambdaFunctionAssociations (newCacheBehavior b)) \<and>
   set (map ala_IncludeBody (q_items (acb_LambdaFunctionAssociations (newCacheBehavior b)))) \<subseteq>
     Function_IncludeBody ` set (bh_Functions b)"
proof -
  have "filter_mset (\<lambda>fn. Function_Type fn = FunctionTypeCloudfront) M +
        filter_mset (\<lambda>fn. Function_Type fn = FunctionTypeEdge) M = M" for M
    by (induction M) (use Function_Type_cases function_types_differ in \<open>auto dest: spec\<close>)
  from arg_cong [OF this, of "image_mset (\<lambda>f. (Function_EventType f, Function_ARN f))" "mset (bh_Functions b)"]
  have "mset (map (\<lambda>f. (Function_EventType f, Function_ARN f)) (filter (\<lambda>fn. Function_Type fn = FunctionTypeCloudfront) (bh_Functions b))) +
        mset (map (\<lambda>f. (Function_EventType f, Function_ARN f)) (filter (\<lambda>fn. Function_Type fn = FunctionTypeEdge) (bh_Functions b))) =
        mset (map (\<lambda>f. (Function_EventType f, Function_ARN f)) (bh_Functions b))"
    by simp
  then show ?thesis
    by (auto simp: newCacheBehavior_def Let_def newAWSFunctionAssociation_def
        newAWSLambdaFunctionAssociation_def comp_def)
qed

text \<open>The behaviors of an origin target that origin.\<close>

definition wf_origin :: "origin \<Rightarrow> bool" where
  "wf_origin a \<longleftrightarrow> list_all (\<lambda>b. bh_OriginHost b = or_Host a) (or_Behaviors a)"

lemma wf_newOrigin: "is_order ord \<Longrightarrow> wf_origin (newOrigin ord ing cfg shared)"
  by (simp add: wf_origin_def newOrigin_eq list_all_iff ingress_behavior_def)



end
