(* ===== verification/Oac_Repo.thy ===== *)
theory Oac_Repo
  imports Aws_Models
begin

text \<open>
  \<open>internal/cloudfront/{oac_lister,oac_repository}.go\<close>: listing origin access controls page by
  page, and creating, updating and deleting them. The interface \<open>OACRepository\<close> is a record of its
  two methods; the locale states what its clients rely on.
\<close>

section \<open>Pagination\<close>

text \<open>
  The loop over the pages: the callback gets a page and whether it is the last one, and says
  whether to go on. The second result tells whether the callback stopped the loop, in which case
  the error the paginator would have ended with is never met.
\<close>

fun for_pages :: "('p \<Rightarrow> bool \<Rightarrow> 's \<Rightarrow> ('s \<times> bool) api) \<Rightarrow> ('p \<times> bool) list \<Rightarrow> 's \<Rightarrow> ('s \<times> bool) api" where
  "for_pages fn [] s = io_return (s, False)"
| "for_pages fn ((page, hasNextPage) # ps) s =
     io_bind (fn page (\<not> hasNextPage) s) (\<lambda>(s', continue).
       if continue then for_pages fn ps s' else io_return (s', True))"

definition list_pages ::
    "api_call \<Rightarrow> (api_call list \<Rightarrow> ('p \<times> bool) list \<times> go_error option) \<Rightarrow>
     ('p \<Rightarrow> bool \<Rightarrow> 's \<Rightarrow> ('s \<times> bool) api) \<Rightarrow> 's \<Rightarrow> ('s \<times> go_error option) api" where
  "list_pages c resp fn s =
     io_bind (io_pages c resp) (\<lambda>(pages, err).
     io_bind (for_pages fn pages s) (\<lambda>(s', stopped).
     io_return (s', if stopped then None else err)))"

definition ListOriginAccessControlsPages ::
    "world \<Rightarrow> (aws_oac_summary list \<Rightarrow> bool \<Rightarrow> 's \<Rightarrow> ('s \<times> bool) api) \<Rightarrow> 's \<Rightarrow> ('s \<times> go_error option) api" where
  "ListOriginAccessControlsPages w fn s = list_pages ListOriginAccessControls (w_list_oacs w) fn s"

section \<open>The repository\<close>

record oac_repository =
  oacr_Sync :: "oac \<Rightarrow> oac api"
  oacr_Delete :: "oac \<Rightarrow> oac api"

definition NoSuchOriginAccessControl :: string where
  "NoSuchOriginAccessControl = ''NoSuchOriginAccessControl''"

definition newOACConfig :: "oac \<Rightarrow> aws_oac_config" where
  "newOACConfig desired =
     \<lparr>aoc_Description = oac_Description desired, aoc_Name = oac_Name desired, aoc_OriginType = ''s3'',
      aoc_SigningBehavior = ''always'', aoc_SigningProtocol = ''sigv4''\<rparr>"

definition newOACFromOriginAccessControlConfig :: "aws_oac_config \<Rightarrow> string \<Rightarrow> string \<Rightarrow> oac" where
  "newOACFromOriginAccessControlConfig cfg i originName =
     \<lparr>oac_ID = i, oac_Name = aoc_Name cfg, oac_Description = [], oac_OriginName = originName,
      oac_OriginType = aoc_OriginType cfg, oac_SigningBehavior = aoc_SigningBehavior cfg,
      oac_SigningProtocol = aoc_SigningProtocol cfg\<rparr>"

definition newOACFromOriginAccessControlSummary :: "aws_oac_summary \<Rightarrow> string \<Rightarrow> oac" where
  "newOACFromOriginAccessControlSummary summary originName =
     \<lparr>oac_ID = aos_Id summary, oac_Name = aos_Name summary, oac_Description = [],
      oac_OriginName = originName, oac_OriginType = aos_OriginType summary,
      oac_SigningBehavior = aos_SigningBehavior summary, oac_SigningProtocol = aos_SigningProtocol summary\<rparr>"

definition ignoreNoSuchOAC :: "go_error \<Rightarrow> go_error option" where
  "ignoreNoSuchOAC err = (if errors_Is err ErrNoSuchOAC then None else Some err)"

definition getETag :: "world \<Rightarrow> string \<Rightarrow> string option api" where
  "getETag w i = io_call (GetOriginAccessControl i) (w_get_oac w)"

definition oac_matches :: "oac \<Rightarrow> aws_oac_summary \<Rightarrow> bool" where
  "oac_matches desired item \<longleftrightarrow> aos_Id item = oac_ID desired \<or> aos_Name item = oac_Name desired"

definition visit_oac_page ::
    "oac \<Rightarrow> aws_oac_summary list \<Rightarrow> bool \<Rightarrow> aws_oac_summary option \<Rightarrow> (aws_oac_summary option \<times> bool) api" where
  "visit_oac_page desired items lastPage s =
     io_return (case find (oac_matches desired) items of
       Some item \<Rightarrow> (Some item, False)
     | None \<Rightarrow> (s, \<not> lastPage))"

definition getOAC :: "world \<Rightarrow> oac \<Rightarrow> (oac \<times> string option) api" where
  "getOAC w desired =
     io_bind (ListOriginAccessControlsPages w (visit_oac_page desired) None) (\<lambda>(found, err).
     case err of
       Some e \<Rightarrow> io_fail (ErrorfV ''listing OACs'' e)
     | None \<Rightarrow> (case found of
         None \<Rightarrow> io_fail ErrNoSuchOAC
       | Some item \<Rightarrow>
           let observed = newOACFromOriginAccessControlSummary item (oac_OriginName desired) in
           io_bind (getETag w (oac_ID observed)) (\<lambda>eTag. io_return (observed, eTag))))"

definition createOAC :: "world \<Rightarrow> oac \<Rightarrow> oac api" where
  "createOAC w desired =
     io_bind (io_call (CreateOriginAccessControl (newOACConfig desired)) (w_create_oac w)) (\<lambda>(i, cfg).
     io_return (newOACFromOriginAccessControlConfig cfg i (oac_OriginName desired)))"

definition updateOAC :: "world \<Rightarrow> oac \<Rightarrow> oac \<Rightarrow> string option \<Rightarrow> oac api" where
  "updateOAC w desired observed eTag =
     io_bind (io_call (UpdateOriginAccessControl (oac_ID observed) eTag (newOACConfig desired))
       (w_update_oac w)) (\<lambda>(i, cfg).
     io_return (newOACFromOriginAccessControlConfig cfg i (oac_OriginName desired)))"

definition oac_Sync :: "world \<Rightarrow> oac \<Rightarrow> oac api" where
  "oac_Sync w desired =
     io_bind (io_try (getOAC w desired)) (\<lambda>r. case r of
       Inr (observed, eTag) \<Rightarrow> updateOAC w desired observed eTag
     | Inl err \<Rightarrow>
         if errors_Is err ErrNoSuchOAC then createOAC w desired
         else io_fail (ErrorfV ''fetching existing OAC'' err))"

definition oac_Delete :: "world \<Rightarrow> config \<Rightarrow> oac \<Rightarrow> oac api" where
  "oac_Delete w cfg toBeDeleted =
     (if \<not> DeletionEnabled cfg then io_return zero_oac
      else io_bind (io_try (getOAC w toBeDeleted)) (\<lambda>r. case r of
        Inl err \<Rightarrow> (case ignoreNoSuchOAC err of None \<Rightarrow> io_return zero_oac | Some e \<Rightarrow> io_fail e)
      | Inr (existingOAC, eTag) \<Rightarrow>
          io_bind (io_try (io_call (DeleteOriginAccessControl (oac_ID existingOAC) eTag) (w_delete_oac w)))
            (\<lambda>r. case r of
               Inl err \<Rightarrow> if IgnoreErrorCode (Some err) NoSuchOriginAccessControl \<noteq> None
                          then io_fail err else io_return existingOAC
             | Inr _ \<Rightarrow> io_return existingOAC)))"

definition NewOACRepository :: "world \<Rightarrow> config \<Rightarrow> oac_repository" where
  "NewOACRepository w cfg = \<lparr>oacr_Sync = oac_Sync w, oacr_Delete = oac_Delete w cfg\<rparr>"

section \<open>Finding an access control\<close>

text \<open>The items a listing shows: the pages up to the first one marked as the last.\<close>

fun visited :: "('a list \<times> bool) list \<Rightarrow> 'a list" where
  "visited [] = []"
| "visited ((items, hasNextPage) # ps) = items @ (if hasNextPage then visited ps else [])"

fun reaches_end :: "('a list \<times> bool) list \<Rightarrow> bool" where
  "reaches_end [] = True"
| "reaches_end ((items, hasNextPage) # ps) = (hasNextPage \<and> reaches_end ps)"

lemma find_append: "find P (xs @ ys) = (case find P xs of None \<Rightarrow> find P ys | Some x \<Rightarrow> Some x)"
  by (induction xs) auto

lemma for_pages_find:
  "for_pages (visit_oac_page desired) pages s =
     io_return (case find (oac_matches desired) (visited pages) of
       Some item \<Rightarrow> (Some item, True)
     | None \<Rightarrow> (s, \<not> reaches_end pages))"
proof (induction pages rule: visited.induct)
  case (2 items hasNextPage ps)
  then show ?case
    by (cases "find (oac_matches desired) items"; cases hasNextPage)
       (simp_all add: visit_oac_page_def find_append split: option.split)
qed simp

text \<open>What \<open>getOAC\<close> does, as a function of the answer to the listing.\<close>

definition listing :: "world \<Rightarrow> api_call list \<Rightarrow> aws_oac_summary list" where
  "listing w t = visited (fst (w_list_oacs w (t @ [ListOriginAccessControls])))"

definition listing_error :: "world \<Rightarrow> api_call list \<Rightarrow> go_error option" where
  "listing_error w t = (let (pages, err) = w_list_oacs w (t @ [ListOriginAccessControls]) in
     if reaches_end pages then err else None)"

lemma getOAC_run:
  "getOAC w desired t =
    (let t1 = t @ [ListOriginAccessControls] in
     case find (oac_matches desired) (listing w t) of
       None \<Rightarrow> (case listing_error w t of
          None \<Rightarrow> (Err ErrNoSuchOAC, t1) | Some e \<Rightarrow> (Err (ErrorfV ''listing OACs'' e), t1))
     | Some item \<Rightarrow> (case w_get_oac w (t1 @ [GetOriginAccessControl (aos_Id item)]) of
          Inl e \<Rightarrow> (Err e, t1 @ [GetOriginAccessControl (aos_Id item)])
        | Inr tag \<Rightarrow> (Ok (newOACFromOriginAccessControlSummary item (oac_OriginName desired), tag),
                     t1 @ [GetOriginAccessControl (aos_Id item)])))"
proof -
  obtain pages err where resp: "w_list_oacs w (t @ [ListOriginAccessControls]) = (pages, err)"
    by (cases "w_list_oacs w (t @ [ListOriginAccessControls])")
  show ?thesis
    by (simp add: getOAC_def ListOriginAccessControlsPages_def list_pages_def for_pages_find io_bind_def
        io_pages_def io_call_def io_return_def io_fail_def resp listing_def listing_error_def Let_def
        getETag_def newOACFromOriginAccessControlSummary_def split: option.split sum.split)
qed

section \<open>Requests of the repository\<close>

fun oac_sync_call :: "api_call \<Rightarrow> bool" where
  "oac_sync_call ListOriginAccessControls = True"
| "oac_sync_call (GetOriginAccessControl _) = True"
| "oac_sync_call (CreateOriginAccessControl _) = True"
| "oac_sync_call (UpdateOriginAccessControl _ _ _) = True"
| "oac_sync_call _ = False"

fun oac_delete_call :: "api_call \<Rightarrow> bool" where
  "oac_delete_call ListOriginAccessControls = True"
| "oac_delete_call (GetOriginAccessControl _) = True"
| "oac_delete_call (DeleteOriginAccessControl _ _) = True"
| "oac_delete_call _ = False"

lemma emits_for_pages [emits_intros]:
  "(\<And>p l s. emits P (fn p l s)) \<Longrightarrow> emits P (for_pages fn pages s)"
  by (induction fn pages s rule: for_pages.induct) (auto intro!: emits_intros)

lemma emits_list_pages [emits_intros]:
  "P c \<Longrightarrow> (\<And>p l s. emits P (fn p l s)) \<Longrightarrow> emits P (list_pages c resp fn s)"
  by (auto simp: list_pages_def intro!: emits_intros)

lemma emits_getOAC:
  "P ListOriginAccessControls \<Longrightarrow> (\<And>i. P (GetOriginAccessControl i)) \<Longrightarrow> emits P (getOAC w d)"
  by (auto simp: getOAC_def ListOriginAccessControlsPages_def visit_oac_page_def getETag_def Let_def
      intro!: emits_intros)

lemma emits_oac_Sync: "emits oac_sync_call (oac_Sync w d)"
  by (auto simp: oac_Sync_def createOAC_def updateOAC_def intro!: emits_intros emits_getOAC)

lemma emits_oac_Delete: "emits (\<lambda>c. oac_delete_call c \<and> DeletionEnabled cfg) (oac_Delete w cfg d)"
  by (auto simp: oac_Delete_def intro!: emits_intros emits_getOAC)

text \<open>What the clients of an OAC repository rely on.\<close>

locale oac_repo_contract =
  fixes repo :: oac_repository and deletion :: bool
  assumes sync_calls: "emits oac_sync_call (oacr_Sync repo d)"
    and sync_origin: "fst (oacr_Sync repo d t) = Ok r \<Longrightarrow> oac_OriginName r = oac_OriginName d"
    and delete_calls: "emits (\<lambda>c. oac_delete_call c \<and> deletion) (oacr_Delete repo d)"

lemma createOAC_run:
  "snd (createOAC w d t) = t @ [CreateOriginAccessControl (newOACConfig d)]"
  by (simp add: createOAC_def io_bind_call io_return_apply split: sum.split prod.split)

lemma updateOAC_run:
  "snd (updateOAC w d obs tag t) = t @ [UpdateOriginAccessControl (oac_ID obs) tag (newOACConfig d)]"
  by (simp add: updateOAC_def io_bind_call io_return_apply split: sum.split prod.split)

lemma oac_Sync_run:
  "oac_Sync w d t =
    (let t1 = t @ [ListOriginAccessControls] in
     case find (oac_matches d) (listing w t) of
       None \<Rightarrow> (case listing_error w t of
          None \<Rightarrow> createOAC w d t1
        | Some e \<Rightarrow> (Err (ErrorfV ''fetching existing OAC'' (ErrorfV ''listing OACs'' e)), t1))
     | Some item \<Rightarrow>
         let t2 = t1 @ [GetOriginAccessControl (aos_Id item)] in
         (case w_get_oac w t2 of
            Inl e \<Rightarrow> if errors_Is e ErrNoSuchOAC then createOAC w d t2
                     else (Err (ErrorfV ''fetching existing OAC'' e), t2)
          | Inr tag \<Rightarrow> updateOAC w d (newOACFromOriginAccessControlSummary item (oac_OriginName d)) tag t2))"
  by (simp add: oac_Sync_def io_bind_try getOAC_run Let_def io_fail_apply errors_Is_def
      split: option.split sum.split)

lemma oac_Delete_run:
  "DeletionEnabled cfg \<Longrightarrow> oac_Delete w cfg d t =
    (let t1 = t @ [ListOriginAccessControls] in
     case find (oac_matches d) (listing w t) of
       None \<Rightarrow> (case listing_error w t of
          None \<Rightarrow> (Ok zero_oac, t1) | Some e \<Rightarrow> (Err (ErrorfV ''listing OACs'' e), t1))
     | Some item \<Rightarrow>
         let t2 = t1 @ [GetOriginAccessControl (aos_Id item)] in
         (case w_get_oac w t2 of
            Inl e \<Rightarrow> (if errors_Is e ErrNoSuchOAC then Ok zero_oac else Err e, t2)
          | Inr tag \<Rightarrow>
              let t3 = t2 @ [DeleteOriginAccessControl (aos_Id item) tag];
                  existing = newOACFromOriginAccessControlSummary item (oac_OriginName d) in
              (case w_delete_oac w t3 of
                 Inl e \<Rightarrow> (if IsErrorCode (Some e) NoSuchOriginAccessControl then Ok existing else Err e, t3)
               | Inr _ \<Rightarrow> (Ok existing, t3))))"
  by (simp add: oac_Delete_def io_bind_try io_call_def getOAC_run Let_def io_fail_apply io_return_apply
      errors_Is_def ignoreNoSuchOAC_def IgnoreErrorCode_def newOACFromOriginAccessControlSummary_def
      split: option.split sum.split)

lemma oac_Sync_origin: "fst (oac_Sync w d t) = Ok r \<Longrightarrow> oac_OriginName r = oac_OriginName d"
  by (auto simp: oac_Sync_def createOAC_def updateOAC_def io_bind_def io_call_def io_return_def io_fail_def
      newOACFromOriginAccessControlConfig_def
      split: prod.splits outcome.splits sum.splits if_splits)

interpretation oac_repo: oac_repo_contract "NewOACRepository w cfg" "DeletionEnabled cfg" for w cfg
  by unfold_locales
    (simp_all add: NewOACRepository_def emits_oac_Sync emits_oac_Delete oac_Sync_origin)

section \<open>Properties\<close>

text \<open>
  C34. Synchronising an access control is one listing followed by exactly one write: an update of
  the first listed control with its identifier or name (sent with the version tag read for it), or,
  when the listing ends without a match, a creation; both carry the desired name and description.
  When the listing fails nothing is written. It never deletes anything, and the control returned
  keeps the origin it was desired for.
\<close>

theorem oac_sync_calls:
  "(case find (oac_matches d) (listing w t) of
      None \<Rightarrow> (case listing_error w t of
         None \<Rightarrow> snd (oac_Sync w d t) =
           t @ [ListOriginAccessControls, CreateOriginAccessControl (newOACConfig d)]
       | Some e \<Rightarrow> oac_Sync w d t =
           (Err (ErrorfV ''fetching existing OAC'' (ErrorfV ''listing OACs'' e)), t @ [ListOriginAccessControls]))
    | Some item \<Rightarrow>
        (\<forall>tag. w_get_oac w (t @ [ListOriginAccessControls, GetOriginAccessControl (aos_Id item)]) = Inr tag \<longrightarrow>
           snd (oac_Sync w d t) = t @ [ListOriginAccessControls, GetOriginAccessControl (aos_Id item),
             UpdateOriginAccessControl (aos_Id item) tag (newOACConfig d)])) \<and>
   emits oac_sync_call (oac_Sync w d) \<and>
   (\<forall>r. fst (oac_Sync w d t) = Ok r \<longrightarrow> oac_OriginName r = oac_OriginName d)"
proof (intro conjI allI impI)
  show "case find (oac_matches d) (listing w t) of
      None \<Rightarrow> (case listing_error w t of
         None \<Rightarrow> snd (oac_Sync w d t) =
           t @ [ListOriginAccessControls, CreateOriginAccessControl (newOACConfig d)]
       | Some e \<Rightarrow> oac_Sync w d t =
           (Err (ErrorfV ''fetching existing OAC'' (ErrorfV ''listing OACs'' e)), t @ [ListOriginAccessControls]))
    | Some item \<Rightarrow>
        (\<forall>tag. w_get_oac w (t @ [ListOriginAccessControls, GetOriginAccessControl (aos_Id item)]) = Inr tag \<longrightarrow>
           snd (oac_Sync w d t) = t @ [ListOriginAccessControls, GetOriginAccessControl (aos_Id item),
             UpdateOriginAccessControl (aos_Id item) tag (newOACConfig d)])"
    by (simp add: oac_Sync_run createOAC_run updateOAC_run errors_Is_def
        newOACFromOriginAccessControlSummary_def split: option.split)
qed (simp_all add: emits_oac_Sync oac_Sync_origin)

theorem oac_sync_calls_witness:
  "snd (oac_Sync (some_world\<lparr>w_list_oacs := (\<lambda>_. ([([], True), ([], False)], None))\<rparr>) (NewOAC ''g'' ''b'') []) =
     [ListOriginAccessControls, CreateOriginAccessControl (newOACConfig (NewOAC ''g'' ''b''))]"
  using oac_sync_calls [where d = "NewOAC ''g'' ''b''" and t = "[]" and
      w = "some_world\<lparr>w_list_oacs := (\<lambda>_. ([([], True), ([], False)], None))\<rparr>"]
  by (simp add: listing_def listing_error_def)

text \<open>
  C35. Deleting an access control: with deletion disabled nothing is requested; a control that the
  listing does not show counts as deleted; otherwise exactly the control found is deleted, with the
  version tag read for it, and the call succeeds exactly when the API does or answers that the
  control no longer exists.
\<close>

theorem oac_delete_calls:
  "(\<not> DeletionEnabled cfg \<longrightarrow> oac_Delete w cfg d t = (Ok zero_oac, t)) \<and>
   (DeletionEnabled cfg \<and> find (oac_matches d) (listing w t) = None \<and> listing_error w t = None \<longrightarrow>
      oac_Delete w cfg d t = (Ok zero_oac, t @ [ListOriginAccessControls])) \<and>
   (\<forall>item tag. DeletionEnabled cfg \<and> find (oac_matches d) (listing w t) = Some item \<and>
      w_get_oac w (t @ [ListOriginAccessControls, GetOriginAccessControl (aos_Id item)]) = Inr tag \<longrightarrow>
      (let t' = t @ [ListOriginAccessControls, GetOriginAccessControl (aos_Id item),
                     DeleteOriginAccessControl (aos_Id item) tag] in
       snd (oac_Delete w cfg d t) = t' \<and>
       ((\<exists>r. fst (oac_Delete w cfg d t) = Ok r) \<longleftrightarrow>
          (case w_delete_oac w t' of Inr _ \<Rightarrow> True | Inl e \<Rightarrow> IsErrorCode (Some e) NoSuchOriginAccessControl))))"
proof (cases "DeletionEnabled cfg")
  case True
  then show ?thesis by (simp add: oac_Delete_run Let_def split: sum.split)
qed (simp add: oac_Delete_def io_return_apply)

theorem oac_delete_calls_witness:
  "fst (oac_Delete (some_world\<lparr>w_list_oacs := (\<lambda>_. ([], None))\<rparr>) (sample_cfg\<lparr>DeletionEnabled := True\<rparr>)
     (zero_oac\<lparr>oac_ID := ''E1''\<rparr>) []) = Ok zero_oac"
  using oac_delete_calls [of "sample_cfg\<lparr>DeletionEnabled := True\<rparr>"
      "some_world\<lparr>w_list_oacs := (\<lambda>_. ([], None))\<rparr>" "zero_oac\<lparr>oac_ID := ''E1''\<rparr>" "[]"]
  by (simp add: listing_def listing_error_def)

end
