(* ===== verification/Dist_Repo.thy ===== *)
theory Dist_Repo
  imports Oac_Repo
begin

text \<open>
  \<open>internal/cloudfront/repository.go\<close>: finding, creating, synchronising and deleting a CloudFront
  distribution. The interface \<open>DistributionRepository\<close> is a record of its methods; the locale
  states what the service relies on. \<open>wait.PollUntilContextTimeout\<close> is an argument with the
  documented behaviour as a hypothesis (\<open>poll_spec\<close>).
\<close>

section \<open>Polling\<close>

text \<open>
  Seconds until the context expires, interval, timeout, whether the first check is immediate, the
  condition (with the variable it captures), the initial value of that variable.
\<close>

type_synonym poll_lib =
  "nat \<Rightarrow> nat \<Rightarrow> nat \<Rightarrow> bool \<Rightarrow> (string option \<Rightarrow> (bool \<times> string option) api) \<Rightarrow> string option \<Rightarrow> string option api"

fun poll_iter :: "nat \<Rightarrow> (string option \<Rightarrow> (bool \<times> string option) api) \<Rightarrow> string option \<Rightarrow> string option api" where
  "poll_iter 0 cond s = io_fail ErrDeadlineExceeded"
| "poll_iter (Suc n) cond s = io_bind (cond s) (\<lambda>(finished, s').
     if finished then io_return s' else poll_iter n cond s')"

text \<open>
  The documented behaviour: the condition is checked at once and then once per interval, until it
  holds, fails, or the earlier of the context and the timeout expires.
\<close>

definition poll_spec :: "poll_lib \<Rightarrow> bool" where
  "poll_spec poll \<longleftrightarrow> (\<forall>ctx interval timeout cond s t. 0 < interval \<longrightarrow>
     (\<exists>n. 0 < n \<and> n \<le> Suc (min ctx timeout div interval) \<and>
        poll ctx interval timeout True cond s t = poll_iter n cond s t))"

lemma poll_specD:
  assumes "poll_spec poll" and "0 < interval"
  shows "\<exists>n. 0 < n \<and> n \<le> Suc (min ctx timeout div interval) \<and>
        poll ctx interval timeout True cond s t = poll_iter n cond s t"
  by (rule assms(1) [unfolded poll_spec_def, rule_format, OF assms(2)])

section \<open>Data\<close>

record dist_repo =
  dr_world :: world
  dr_oacs :: oac_repository
  dr_cfg :: config
  dr_poll :: poll_lib
  dr_wait_timeout :: nat
  dr_ord_headers :: "string order"
  dr_ord_tags :: "string order"

record distribution_repository =
  distr_ARNByGroup :: "string \<Rightarrow> string api"
  distr_Create :: "distribution \<Rightarrow> distribution api"
  distr_ConfigByID :: "string \<Rightarrow> (aws_dist_config \<times> string option) api"
  distr_Sync :: "distribution \<Rightarrow> distribution api"
  distr_Delete :: "distribution \<Rightarrow> unit api"

definition NoSuchDistribution :: string where "NoSuchDistribution = ''NoSuchDistribution''"
definition cfDeployedStatus :: string where "cfDeployedStatus = ''Deployed''"

section \<open>Operations\<close>

definition ARNByGroup :: "dist_repo \<Rightarrow> string \<Rightarrow> string api" where
  "ARNByGroup r grp =
     io_bind (io_wrap (ErrorfV ''listing CloudFronts'')
       (io_call (GetResources ownershipTagKey ownershipTagValue groupTagKey grp)
         (w_get_resources (dr_world r)))) (\<lambda>out.
     if length out = 0 then io_fail ErrDistNotFound
     else if length out > 1
     then io_fail (Errorf ''found more than one CloudFront with matching group tag'' [grp])
     else io_return (case out ! 0 of None \<Rightarrow> [] | Some arn \<Rightarrow> arn))"

definition distributionTags :: "string order \<Rightarrow> distribution \<Rightarrow> aws_tag list" where
  "distributionTags ord d =
     go_sort (\<lambda>a b. tag_Key a < tag_Key b)
       (map (\<lambda>(k, v). \<lparr>tag_Key = k, tag_Value = v\<rparr>) (map_range ord (dist_Tags d)))"

definition DistributionConfigByID :: "dist_repo \<Rightarrow> string \<Rightarrow> (aws_dist_config \<times> string option) api" where
  "DistributionConfigByID r i = io_call (GetDistributionConfig i) (w_get_distribution_config (dr_world r))"

definition filterOACs :: "aws_dist_config \<Rightarrow> (aws_origin \<Rightarrow> bool) \<Rightarrow> oac list" where
  "filterOACs distCfg shouldInclude =
     (if \<not> distCfgHasOrigins distCfg then []
      else map (\<lambda>a. zero_oac\<lparr>oac_ID := (case ao_OriginAccessControlId a of None \<Rightarrow> [] | Some i \<Rightarrow> i)\<rparr>)
        (filter shouldInclude (config_origins distCfg)))"

definition diffDesiredAndObservedOACs :: "distribution \<Rightarrow> aws_dist_config \<Rightarrow> oac list \<times> oac list" where
  "diffDesiredAndObservedOACs desired observed =
     (Dist_OACs desired,
      filterOACs observed (\<lambda>a.
        let originHasOAC = \<not> IsEmptyOrNil (ao_OriginAccessControlId a);
            originIsDesired = HasOrigin desired (ao_Id a) in
        originHasOAC \<and> \<not> originIsDesired))"

definition syncOACs :: "dist_repo \<Rightarrow> oac list \<Rightarrow> oac list api" where
  "syncOACs r oacs = io_mapM (oacr_Sync (dr_oacs r)) oacs"

definition deleteOACs :: "dist_repo \<Rightarrow> oac list \<Rightarrow> unit api" where
  "deleteOACs r toBeDeleted = io_foldM (\<lambda>_ a. io_bind (oacr_Delete (dr_oacs r) a) (\<lambda>_. io_return ())) () toBeDeleted"

definition deleteAllOACs :: "dist_repo \<Rightarrow> aws_dist_config \<Rightarrow> unit api" where
  "deleteAllOACs r distCfg =
     deleteOACs r (filterOACs distCfg (\<lambda>a. \<not> IsEmptyOrNil (ao_OriginAccessControlId a)))"

definition forEachOrigin :: "(aws_origin \<Rightarrow> aws_origin) \<Rightarrow> aws_dist_config \<Rightarrow> aws_dist_config" where
  "forEachOrigin apply_fn distCfg =
     (if \<not> distCfgHasOrigins distCfg then distCfg
      else distCfg\<lparr>dc_Origins := map_option (\<lambda>q. q\<lparr>q_items := map apply_fn (q_items q)\<rparr>) (dc_Origins distCfg)\<rparr>)"

definition set_oac_id :: "oac list \<Rightarrow> aws_origin \<Rightarrow> aws_origin" where
  "set_oac_id syncedOACs a = fold (\<lambda>x a.
     if ao_Id a = oac_OriginName x then a\<lparr>ao_OriginAccessControlId := Some (oac_ID x)\<rparr> else a) syncedOACs a"

definition runPostUpdateOperations ::
    "dist_repo \<Rightarrow> distribution \<Rightarrow> oac list \<Rightarrow> aws_distribution \<Rightarrow> distribution api" where
  "runPostUpdateOperations r d oacsToBeDeleted updateOut =
     io_bind (io_wrap (ErrorfV ''deleting unused OACs'') (deleteOACs r oacsToBeDeleted)) (\<lambda>_.
     io_bind (io_wrap (ErrorfV ''updating tags'')
       (io_call (TagResource (dist_ARN d) (distributionTags (dr_ord_tags r) d))
         (w_tag_resource (dr_world r)))) (\<lambda>_.
     io_return (d\<lparr>dist_ID := ad_Id updateOut, dist_ARN := ad_ARN updateOut,
                  dist_Address := ad_DomainName updateOut\<rparr>)))"

text \<open>The configuration an update sends: the desired one with what it keeps of the observed one.\<close>

definition update_config :: "aws_dist_config \<Rightarrow> oac list \<Rightarrow> string \<Rightarrow> aws_dist_config \<Rightarrow> aws_dist_config" where
  "update_config observed syncedOACs root cfg =
     (forEachOrigin (set_oac_id syncedOACs) cfg)
       \<lparr>dc_CallerReference := dc_CallerReference observed, dc_DefaultRootObject := Some root,
        dc_CustomErrorResponses := dc_CustomErrorResponses observed,
        dc_Restrictions := dc_Restrictions observed\<rparr>"

definition dist_Sync :: "dist_repo \<Rightarrow> distribution \<Rightarrow> distribution api" where
  "dist_Sync r d =
     io_bind (io_ask (w_caller_ref (dr_world r))) (\<lambda>callerRef.
     let cfg = newAWSDistributionConfig (dr_ord_headers r) d callerRef (dr_cfg r) in
     io_bind (io_wrap (ErrorfV ''getting distribution config'') (DistributionConfigByID r (dist_ID d)))
       (\<lambda>(observed, eTag).
     let (oacsToBeSynced, oacsToBeDeleted) = diffDesiredAndObservedOACs d observed in
     io_bind (io_wrap (ErrorfV ''syncing OACs'') (syncOACs r oacsToBeSynced)) (\<lambda>syncedOACs.
     io_bind (io_lift (deref (dc_DefaultRootObject observed))) (\<lambda>root.
     io_bind (io_wrap (ErrorfV ''updating distribution'')
       (io_call (UpdateDistribution (dist_ID d) eTag (update_config observed syncedOACs root cfg))
         (w_update_distribution (dr_world r)))) (\<lambda>updateOut.
     io_wrap (ErrorfV ''running distribution post-update operations'')
       (runPostUpdateOperations r d oacsToBeDeleted updateOut))))))"

definition prepareAndRunPostCreationOperations ::
    "(distribution \<Rightarrow> distribution api) \<Rightarrow> distribution \<Rightarrow> aws_distribution \<Rightarrow> distribution api" where
  "prepareAndRunPostCreationOperations runPostCreationOperations d out =
     runPostCreationOperations (d\<lparr>dist_ID := ad_Id out, dist_ARN := ad_ARN out,
       dist_Address := ad_DomainName out\<rparr>)"

definition dist_Create ::
    "dist_repo \<Rightarrow> (distribution \<Rightarrow> distribution api) \<Rightarrow> distribution \<Rightarrow> distribution api" where
  "dist_Create r runPostCreationOperations d =
     io_bind (io_ask (w_caller_ref (dr_world r))) (\<lambda>callerRef.
     let cfg = newAWSDistributionConfig (dr_ord_headers r) d callerRef (dr_cfg r) in
     io_bind (io_wrap (ErrorfV ''creating distribution'')
       (io_call (CreateDistributionWithTags cfg (distributionTags (dr_ord_tags r) d))
         (w_create_distribution (dr_world r)))) (\<lambda>out.
     io_wrap (ErrorfV ''running distribution post-creation operations'')
       (prepareAndRunPostCreationOperations runPostCreationOperations d out)))"

definition disableDist :: "dist_repo \<Rightarrow> aws_dist_config \<Rightarrow> string \<Rightarrow> string \<Rightarrow> unit api" where
  "disableDist r cfg i eTag =
     io_bind (io_call (UpdateDistribution i (Some eTag) (cfg\<lparr>dc_Enabled := False\<rparr>))
       (w_update_distribution (dr_world r))) (\<lambda>_. io_return ())"

definition distributionByID :: "dist_repo \<Rightarrow> string \<Rightarrow> (aws_distribution \<times> string option) api" where
  "distributionByID r i = io_call (GetDistribution i) (w_get_distribution (dr_world r))"

definition deployed_condition :: "dist_repo \<Rightarrow> string \<Rightarrow> string option \<Rightarrow> (bool \<times> string option) api" where
  "deployed_condition r i eTag =
     io_bind (io_try (distributionByID r i)) (\<lambda>out. case out of
       Inl err \<Rightarrow> if IsErrorCode (Some err) NoSuchDistribution then io_fail err
                  else io_return (False, eTag)
     | Inr (dist, tag) \<Rightarrow> io_return (ad_Status dist = cfDeployedStatus, tag))"

definition waitUntilDeployed :: "dist_repo \<Rightarrow> string \<Rightarrow> string option api" where
  "waitUntilDeployed r i = dr_poll r 60 10 (dr_wait_timeout r) True (deployed_condition r i) None"

definition fail_or_return :: "go_error option \<Rightarrow> unit api" where
  "fail_or_return err = (case err of None \<Rightarrow> io_return () | Some e \<Rightarrow> io_fail e)"

definition dist_Delete :: "dist_repo \<Rightarrow> distribution \<Rightarrow> unit api" where
  "dist_Delete r d =
     io_bind (io_try (DistributionConfigByID r (dist_ID d))) (\<lambda>out. case out of
       Inl err \<Rightarrow> fail_or_return
         (IgnoreErrorCodef (ErrorfV ''getting distribution config'') err NoSuchDistribution)
     | Inr (cfg, eTag) \<Rightarrow>
         io_bind (if dc_Enabled cfg
           then io_bind (io_lift (deref eTag)) (\<lambda>tag. io_try (disableDist r cfg (dist_ID d) tag))
           else io_return (Inr ())) (\<lambda>disabled. case disabled of
           Inl err \<Rightarrow> fail_or_return
             (IgnoreErrorCodef (ErrorfV ''disabling distribution'') err NoSuchDistribution)
         | Inr _ \<Rightarrow>
             io_bind (io_try (waitUntilDeployed r (dist_ID d))) (\<lambda>waited. case waited of
               Inl err \<Rightarrow> fail_or_return
                 (IgnoreErrorCodef (ErrorfW ''waiting for distribution to be in deployed status'') err
                    NoSuchDistribution)
             | Inr tag \<Rightarrow>
                 io_bind (io_try (io_call (DeleteDistribution (dist_ID d) tag)
                   (w_delete_distribution (dr_world r)))) (\<lambda>deleted.
                   case (case deleted of Inl err \<Rightarrow> IgnoreErrorCode (Some err) NoSuchDistribution | Inr _ \<Rightarrow> None) of
                     Some err \<Rightarrow> io_fail err
                   | None \<Rightarrow> io_wrap (ErrorfV ''deleting OACs'') (deleteAllOACs r cfg)))))"

text \<open>The repository as \<open>main.go\<close> wires it: \<open>RunPostCreationOperations\<close> is \<open>Sync\<close>.\<close>

definition NewDistRepository :: "dist_repo \<Rightarrow> distribution_repository" where
  "NewDistRepository r =
     \<lparr>distr_ARNByGroup = ARNByGroup r, distr_Create = dist_Create r (dist_Sync r),
      distr_ConfigByID = DistributionConfigByID r, distr_Sync = dist_Sync r, distr_Delete = dist_Delete r\<rparr>"

section \<open>Kinds of requests\<close>

fun cloudfront_call :: "api_call \<Rightarrow> bool" where
  "cloudfront_call (GetResources _ _ _ _) = True"
| "cloudfront_call (CreateDistributionWithTags _ _) = True"
| "cloudfront_call (GetDistributionConfig _) = True"
| "cloudfront_call (UpdateDistribution _ _ _) = True"
| "cloudfront_call (GetDistribution _) = True"
| "cloudfront_call (DeleteDistribution _ _) = True"
| "cloudfront_call (TagResource _ _) = True"
| "cloudfront_call ListOriginAccessControls = True"
| "cloudfront_call (GetOriginAccessControl _) = True"
| "cloudfront_call (CreateOriginAccessControl _) = True"
| "cloudfront_call (UpdateOriginAccessControl _ _ _) = True"
| "cloudfront_call (DeleteOriginAccessControl _ _) = True"
| "cloudfront_call _ = False"

fun deletes_distribution :: "api_call \<Rightarrow> bool" where
  "deletes_distribution (DeleteDistribution _ _) = True"
| "deletes_distribution _ = False"

fun creates_distribution :: "api_call \<Rightarrow> bool" where
  "creates_distribution (CreateDistributionWithTags _ _) = True"
| "creates_distribution _ = False"

fun sync_first_call :: "api_call \<Rightarrow> bool" where
  "sync_first_call (GetDistributionConfig _) = True"
| "sync_first_call c = oac_sync_call c"

fun sync_last_call :: "api_call \<Rightarrow> bool" where
  "sync_last_call (TagResource _ _) = True"
| "sync_last_call c = oac_delete_call c"

text \<open>Before it deletes, \<open>Delete\<close> reads the distribution and disables it, nothing else.\<close>

fun delete_first_call :: "string \<Rightarrow> api_call \<Rightarrow> bool" where
  "delete_first_call i (GetDistributionConfig j) = (j = i)"
| "delete_first_call i (GetDistribution j) = (j = i)"
| "delete_first_call i (UpdateDistribution j _ cfg) = (j = i \<and> \<not> dc_Enabled cfg)"
| "delete_first_call i _ = False"

lemma oac_call_kinds:
  "oac_sync_call c \<Longrightarrow> cloudfront_call c" "oac_delete_call c \<Longrightarrow> cloudfront_call c"
  "oac_sync_call c \<Longrightarrow> \<not> destroys c" "oac_sync_call c \<Longrightarrow> \<not> deletes_distribution c"
  "oac_delete_call c \<Longrightarrow> \<not> deletes_distribution c" "oac_sync_call c \<Longrightarrow> \<not> writes_distribution c"
  "oac_sync_call c \<Longrightarrow> sync_first_call c" "oac_delete_call c \<Longrightarrow> sync_last_call c"
  "oac_sync_call c \<Longrightarrow> \<not> creates_distribution c" "oac_delete_call c \<Longrightarrow> \<not> creates_distribution c"
  by (cases c; simp)+

section \<open>The contract with the service\<close>

text \<open>What \<open>Service\<close> relies on when it calls a distribution repository.\<close>

locale dist_repo_contract =
  fixes repo :: distribution_repository and deletion :: bool
  assumes arn_calls: "emits read_only (distr_ARNByGroup repo g)"
    and config_calls: "emits read_only (distr_ConfigByID repo i)"
    and sync_calls: "emits (\<lambda>c. cloudfront_call c \<and> \<not> deletes_distribution c \<and> \<not> creates_distribution c \<and> (destroys c \<longrightarrow> deletion)) (distr_Sync repo d)"
    and create_calls: "emits (\<lambda>c. cloudfront_call c \<and> \<not> deletes_distribution c \<and> (destroys c \<longrightarrow> deletion)) (distr_Create repo d)"
    and sync_result: "fst (distr_Sync repo d t) = Ok d' \<Longrightarrow>
      \<exists>i a u. d' = d\<lparr>dist_ID := i, dist_ARN := a, dist_Address := u\<rparr>"
    and create_result: "fst (distr_Create repo d t) = Ok d' \<Longrightarrow>
      \<exists>i a u. d' = d\<lparr>dist_ID := i, dist_ARN := a, dist_Address := u\<rparr>"

section \<open>Working with any OAC repository\<close>

text \<open>The update a synchronisation sends: computed from the first answer and the synchronised controls.\<close>

definition sync_update :: "dist_repo \<Rightarrow> distribution \<Rightarrow> api_call list \<Rightarrow> api_call \<Rightarrow> bool" where
  "sync_update r d t c \<longleftrightarrow> (\<exists>tag observed synced root ref.
     c = UpdateDistribution (dist_ID d) tag
          (update_config observed synced root (newAWSDistributionConfig (dr_ord_headers r) d ref (dr_cfg r))) \<and>
     w_get_distribution_config (dr_world r) (t @ [GetDistributionConfig (dist_ID d)]) = Inr (observed, tag) \<and>
     dc_DefaultRootObject observed = Some root \<and>
     map oac_OriginName synced = map oac_OriginName (Dist_OACs d))"

lemma sync_updateI:
  "w_get_distribution_config (dr_world r) (t @ [GetDistributionConfig (dist_ID d)]) = Inr (observed, tag) \<Longrightarrow>
   map oac_OriginName synced = map oac_OriginName (Dist_OACs d) \<Longrightarrow>
   dc_DefaultRootObject observed = Some root \<Longrightarrow>
   sync_update r d t (UpdateDistribution (dist_ID d) tag
     (update_config observed synced root (newAWSDistributionConfig (dr_ord_headers r) d ref (dr_cfg r))))"
  unfolding sync_update_def by blast

text \<open>The lemmas of this locale hold for every OAC repository that keeps its contract.\<close>

locale dist_repo_client = oac_repo_contract "dr_oacs r" deletion for r :: dist_repo and deletion :: bool
begin

lemma emits_syncOACs: "emits oac_sync_call (syncOACs r xs)"
  by (simp add: syncOACs_def emits_mapM sync_calls)

lemma emits_deleteOACs: "emits (\<lambda>c. oac_delete_call c \<and> deletion) (deleteOACs r xs)"
  by (auto simp: deleteOACs_def intro!: emits_intros delete_calls)

lemma emits_postUpdate:
  "emits (\<lambda>c. sync_last_call c \<and> (destroys c \<longrightarrow> deletion)) (runPostUpdateOperations r d xs out)"
  unfolding runPostUpdateOperations_def
  by (intro emits_intros emits_mono [OF emits_deleteOACs]) (auto intro: oac_call_kinds)

lemma syncOACs_names:
  assumes "syncOACs r xs t = (Ok ys, t')"
  shows "map oac_OriginName ys = map oac_OriginName xs"
proof -
  have "list_all2 (\<lambda>x y. \<exists>t t'. oacr_Sync (dr_oacs r) x t = (Ok y, t')) xs ys"
    using assms unfolding syncOACs_def by (rule io_mapM_Ok)
  then show ?thesis
  proof (induction rule: list_all2_induct)
    case (Cons x xs y ys)
    then obtain t t' where "oacr_Sync (dr_oacs r) x t = (Ok y, t')" by blast
    then have "fst (oacr_Sync (dr_oacs r) x t) = Ok y" by simp
    from sync_origin [OF this] Cons.IH show ?case by simp
  qed simp
qed

lemma sync_update_known:
  assumes "io_ask (w_caller_ref (dr_world r)) t = (Ok ref, t0)"
    and "io_wrap (ErrorfV ''getting distribution config'')
       (io_call (GetDistributionConfig (dist_ID d)) (w_get_distribution_config (dr_world r))) t0 = (Ok p, t1)"
    and "io_wrap (ErrorfV ''syncing OACs'') (syncOACs r (fst (diffDesiredAndObservedOACs d (fst p)))) t1 = (Ok synced, t2)"
    and "io_lift (deref (dc_DefaultRootObject (fst p))) t2 = (Ok root, t3)"
  shows "sync_update r d t (UpdateDistribution (dist_ID d) (snd p)
     (update_config (fst p) synced root (newAWSDistributionConfig (dr_ord_headers r) d ref (dr_cfg r))))"
proof (rule sync_updateI)
  show "w_get_distribution_config (dr_world r) (t @ [GetDistributionConfig (dist_ID d)]) = Inr (fst p, snd p)"
    using assms(1,2) by (auto simp: io_ask_def io_call_Ok_iff)
  show "map oac_OriginName synced = map oac_OriginName (Dist_OACs d)"
    using assms(3) by (auto simp: diffDesiredAndObservedOACs_def dest: syncOACs_names)
  show "dc_DefaultRootObject (fst p) = Some root"
    using assms(4) by (auto simp: io_lift_Ok_iff deref_def split: option.splits)
qed

lemma emits_oac_sync_nowrite: "emits (Not \<circ> writes_distribution) (syncOACs r xs)"
  by (rule emits_mono [OF emits_syncOACs]) (auto dest: oac_call_kinds)

lemma sync_update_phased:
  "phased (Not \<circ> writes_distribution) (\<lambda>_. sync_update r d t) sync_last_call (dist_Sync r d) t"
  unfolding dist_Sync_def Let_def split_beta DistributionConfigByID_def
  by (rule phased_bind, rule emits_ask,
      rule phased_bind, intro emits_wrap emits_call, simp,
      rule phased_bind, intro emits_wrap emits_oac_sync_nowrite,
      rule phased_bind, rule emits_lift,
      rule phased_single, simp, rule sync_update_known, assumption+,
      intro emits_wrap emits_mono [OF emits_postUpdate], simp)

lemma sync_phased:
  "phased sync_first_call (\<lambda>_ c. \<exists>tag cfg. c = UpdateDistribution (dist_ID d) tag cfg)
     (\<lambda>c. sync_last_call c \<and> (destroys c \<longrightarrow> deletion)) (dist_Sync r d) t"
  unfolding dist_Sync_def Let_def split_beta DistributionConfigByID_def
  by (intro phased_bind phased_single emits_intros emits_mono [OF emits_syncOACs] emits_postUpdate)
     (auto intro: oac_call_kinds)

lemma emits_sync:
  "emits (\<lambda>c. cloudfront_call c \<and> \<not> deletes_distribution c \<and> \<not> creates_distribution c \<and> (destroys c \<longrightarrow> deletion)) (dist_Sync r d)"
  unfolding dist_Sync_def Let_def split_beta DistributionConfigByID_def runPostUpdateOperations_def
  by (intro emits_intros emits_mono [OF emits_syncOACs] emits_mono [OF emits_deleteOACs])
     (auto dest: oac_call_kinds)

lemma emits_create:
  "emits (\<lambda>c. cloudfront_call c \<and> \<not> deletes_distribution c \<and> (destroys c \<longrightarrow> deletion)) (dist_Create r (dist_Sync r) d)"
  unfolding dist_Create_def prepareAndRunPostCreationOperations_def Let_def by (intro emits_intros emits_mono [OF emits_sync]) auto

end

lemma sync_result:
  "fst (dist_Sync r d t) = Ok d' \<Longrightarrow> \<exists>i a u. d' = d\<lparr>dist_ID := i, dist_ARN := a, dist_Address := u\<rparr>"
  by (auto simp: dist_Sync_def runPostUpdateOperations_def Let_def split_beta io_bind_def io_return_def io_wrap_def
      split: prod.splits outcome.splits)

lemma create_result:
  assumes "fst (dist_Create r (dist_Sync r) d t) = Ok d'"
  shows "\<exists>i a u. d' = d\<lparr>dist_ID := i, dist_ARN := a, dist_Address := u\<rparr>"
proof -
  obtain out :: aws_distribution and t' t'' where "dist_Sync r (d\<lparr>dist_ID := ad_Id out, dist_ARN := ad_ARN out,
      dist_Address := ad_DomainName out\<rparr>) t' = (Ok d', t'')"
    using assms
    by (auto simp: dist_Create_def prepareAndRunPostCreationOperations_def Let_def io_bind_def io_wrap_def split: prod.splits outcome.splits)
  then have "fst (dist_Sync r (d\<lparr>dist_ID := ad_Id out, dist_ARN := ad_ARN out,
      dist_Address := ad_DomainName out\<rparr>) t') = Ok d'" by simp
  from sync_result [OF this] show ?thesis by auto
qed

section \<open>The repository of the program\<close>

text \<open>As \<open>mustSetupControllers\<close> builds it, with a wait timeout of ten minutes.\<close>

definition main_repo ::
    "world \<Rightarrow> config \<Rightarrow> poll_lib \<Rightarrow> string order \<Rightarrow> string order \<Rightarrow> dist_repo" where
  "main_repo w cfg poll ord_h ord_t =
     \<lparr>dr_world = w, dr_oacs = NewOACRepository w cfg, dr_cfg = cfg, dr_poll = poll,
      dr_wait_timeout = 600, dr_ord_headers = ord_h, dr_ord_tags = ord_t\<rparr>"

lemma main_repo_simps [simp]:
  "dr_world (main_repo w cfg poll oh ot) = w" "dr_oacs (main_repo w cfg poll oh ot) = NewOACRepository w cfg"
  "dr_poll (main_repo w cfg poll oh ot) = poll" "dr_wait_timeout (main_repo w cfg poll oh ot) = 600"
  "dr_ord_tags (main_repo w cfg poll oh ot) = ot" "dr_cfg (main_repo w cfg poll oh ot) = cfg"
  "dr_ord_headers (main_repo w cfg poll oh ot) = oh"
  by (simp_all add: main_repo_def)

interpretation main_client: dist_repo_client "main_repo w cfg poll oh ot" "DeletionEnabled cfg"
  for w cfg poll oh ot
  unfolding dist_repo_client_def main_repo_simps by (rule oac_repo.oac_repo_contract_axioms)

lemma emits_ARNByGroup: "emits read_only (ARNByGroup r g)"
  unfolding ARNByGroup_def by (intro emits_intros) auto

lemma emits_ConfigByID: "emits read_only (DistributionConfigByID r i)"
  unfolding DistributionConfigByID_def by (intro emits_intros) auto

interpretation main_dist: dist_repo_contract "NewDistRepository (main_repo w cfg poll oh ot)" "DeletionEnabled cfg"
  for w cfg poll oh ot
  by unfold_locales
    (simp_all add: NewDistRepository_def emits_ARNByGroup emits_ConfigByID main_client.emits_sync
      main_client.emits_create sync_result create_result)

section \<open>Synchronising\<close>

text \<open>
  C17. The order of an update: whatever the API answers, \<open>Sync\<close> first only reads the configuration
  and synchronises access controls (nothing is deleted), then makes at most one update of the
  distribution, and only after it deletes unused access controls and writes tags. Access controls
  are deleted only when deletion is enabled, and a distribution never.
\<close>

theorem sync_order:
  "\<exists>pre post. snd (dist_Sync (main_repo w cfg poll oh ot) d t) = t @ pre @ post \<and>
     list_all sync_first_call pre \<and>
     (post = [] \<or> (\<exists>tag c s. post = UpdateDistribution (dist_ID d) tag c # s \<and>
        list_all sync_last_call s \<and> (DeletionEnabled cfg \<or> \<not> list_ex destroys s)))"
proof -
  obtain pre post where "snd (dist_Sync (main_repo w cfg poll oh ot) d t) = t @ pre @ post"
    and "list_all sync_first_call pre"
    and "post = [] \<or> (\<exists>c s. post = c # s \<and> (\<exists>tag cfg. c = UpdateDistribution (dist_ID d) tag cfg) \<and>
      list_all (\<lambda>c. sync_last_call c \<and> (destroys c \<longrightarrow> DeletionEnabled cfg)) s)"
    using main_client.sync_phased [where w = w and cfg = cfg and poll = poll and oh = oh and ot = ot and d = d and t = t]
    unfolding phased_def by blast
  then show ?thesis
    by (intro exI [of _ pre] exI [of _ post]) (auto simp: list_all_iff list_ex_iff)
qed

theorem sync_order_witness:
  "\<not> list_ex destroys (snd (dist_Sync (main_repo some_world sample_cfg (\<lambda>_ _ _ _ _ s. io_return s) rev rev)
     zero_distribution []))"
proof -
  have kept: "\<not> DeletionEnabled sample_cfg" by (simp add: sample_cfg_def)
  obtain pre post where "snd (dist_Sync (main_repo some_world sample_cfg (\<lambda>_ _ _ _ _ s. io_return s) rev rev)
      zero_distribution []) = pre @ post"
    and first: "list_all sync_first_call pre"
    and "post = [] \<or> (\<exists>tag c s. post = UpdateDistribution [] tag c # s \<and> \<not> list_ex destroys s)"
    using sync_order [of some_world sample_cfg "\<lambda>_ _ _ _ _ s. io_return s" rev rev zero_distribution "[]"] kept
    by (auto simp: zero_distribution_def)
  moreover have "\<not> destroys c" if "sync_first_call c" for c
    using that by (cases c) (simp_all add: oac_call_kinds)
  with first have "\<not> list_ex destroys pre" by (auto simp: list_all_iff list_ex_iff)
  ultimately show ?thesis by (auto simp: list_ex_iff)
qed

section \<open>Deleting\<close>

lemma emits_poll_iter: "(\<And>s. emits P (cond s)) \<Longrightarrow> emits P (poll_iter n cond s)"
  by (induction n arbitrary: s) (auto intro!: emits_intros)

lemma emits_poll:
  assumes "poll_spec poll" and "\<And>s. emits P (cond s)" and "0 < interval"
  shows "emits P (poll ctx interval timeout True cond s)"
proof (rule emitsI)
  fix t
  obtain n where "poll ctx interval timeout True cond s t = poll_iter n cond s t"
    using poll_specD [OF assms(1,3), of ctx timeout cond s t] by blast
  then show "\<exists>x. snd (poll ctx interval timeout True cond s t) = t @ x \<and> list_all P x"
    using emits_poll_iter [OF assms(2), where n = n and s = s] by (simp add: emits_def)
qed

lemma emits_deployed: "P (GetDistribution i) \<Longrightarrow> emits P (deployed_condition r i s)"
  by (auto simp: deployed_condition_def distributionByID_def intro!: emits_intros)

lemma deployed_run:
  "deployed_condition r i s t =
    (let t1 = t @ [GetDistribution i] in
     (case w_get_distribution (dr_world r) t1 of
        Inl e \<Rightarrow> (if IsErrorCode (Some e) NoSuchDistribution then Err e else Ok (False, s), t1)
      | Inr (dist, tag) \<Rightarrow> (Ok (ad_Status dist = ''Deployed'', tag), t1)))"
  by (simp add: deployed_condition_def distributionByID_def io_bind_try_call io_fail_apply io_return_apply cfDeployedStatus_def
      Let_def split: sum.split)

lemma deployed_cases:
  obtains (failed) e where "deployed_condition r i s t = (Err e, t @ [GetDistribution i])"
  | (again) s' where "deployed_condition r i s t = (Ok (False, s'), t @ [GetDistribution i])"
  | (deployed) dist tag where "deployed_condition r i s t = (Ok (True, tag), t @ [GetDistribution i])"
      and "w_get_distribution (dr_world r) (t @ [GetDistribution i]) = Inr (dist, tag)"
      and "ad_Status dist = ''Deployed''"
proof (cases "w_get_distribution (dr_world r) (t @ [GetDistribution i])")
  case (Inl e)
  with failed again show ?thesis
    by (cases "IsErrorCode (Some e) NoSuchDistribution") (simp_all add: deployed_run Let_def)
next
  case (Inr p)
  with again deployed show ?thesis
    by (cases p; cases "ad_Status (fst p) = ''Deployed''") (simp_all add: deployed_run Let_def)
qed

lemma poll_iter_step:
  "cond s t = (Err e, t') \<Longrightarrow> poll_iter (Suc n) cond s t = (Err e, t')"
  "cond s t = (Ok (False, s'), t') \<Longrightarrow> poll_iter (Suc n) cond s t = poll_iter n cond s' t'"
  "cond s t = (Ok (True, s'), t') \<Longrightarrow> poll_iter (Suc n) cond s t = (Ok s', t')"
  by (simp_all add: io_bind_def io_return_def)

text \<open>The tag a wait returns was read together with the status \<open>Deployed\<close>, in the last request.\<close>

lemma poll_iter_deployed:
  "poll_iter n (deployed_condition r i) s t = (Ok tag, t') \<Longrightarrow>
   \<exists>dist. w_get_distribution (dr_world r) t' = Inr (dist, tag) \<and> ad_Status dist = ''Deployed''"
proof (induction n arbitrary: s t)
  case (Suc n)
  show ?case
  proof (cases rule: deployed_cases [of r i s t])
    case (again s')
    with Suc show ?thesis by (metis poll_iter_step(2))
  qed (use Suc.prems in \<open>auto simp: poll_iter_step simp del: poll_iter.simps\<close>)
qed (simp add: io_fail_def)

lemma poll_iter_count:
  "length (snd (poll_iter n (deployed_condition r i) s t)) \<le> length t + n"
proof (induction n arbitrary: s t)
  case (Suc n)
  show ?case
  proof (cases rule: deployed_cases [of r i s t])
    case (again s')
    with Suc [of s' "t @ [GetDistribution i]"] show ?thesis
      by (simp add: poll_iter_step del: poll_iter.simps)
  qed (simp_all add: poll_iter_step del: poll_iter.simps)
qed (simp add: io_fail_def)

lemma wait_seven_checks:
  assumes "poll_spec (dr_poll r)"
  shows "length (snd (waitUntilDeployed r i t)) \<le> length t + 7 \<and>
     (\<forall>tag t'. waitUntilDeployed r i t = (Ok tag, t') \<longrightarrow>
        (\<exists>dist. w_get_distribution (dr_world r) t' = Inr (dist, tag) \<and> ad_Status dist = ''Deployed''))"
proof -
  obtain n where n: "n \<le> Suc (min 60 (dr_wait_timeout r) div 10)"
    and run: "waitUntilDeployed r i t = poll_iter n (deployed_condition r i) None t"
    using poll_specD [OF assms, of 10 60 "dr_wait_timeout r" "deployed_condition r i" None t]
    unfolding waitUntilDeployed_def by auto
  have "min 60 (dr_wait_timeout r) div 10 \<le> 6"
    using div_le_mono [of "min 60 (dr_wait_timeout r)" 60 10] by simp
  with n have "n \<le> 7" by simp
  then show ?thesis
    using poll_iter_count [of n r i None t] poll_iter_deployed [of n r i None t] run by auto
qed

text \<open>
  C20. Waiting for a deployment asks at most seven times: the context of sixty seconds bounds the
  wait whatever the configured timeout is (\<open>main.go\<close> configures ten minutes), with one request
  every ten seconds. A tag is returned only when the last answer had the status \<open>Deployed\<close>.
\<close>

theorem wait_bounded:
  assumes "poll_spec (dr_poll r)"
  shows "length (snd (waitUntilDeployed r i t)) \<le> length t + 7 \<and>
     (\<forall>tag t'. waitUntilDeployed r i t = (Ok tag, t') \<longrightarrow>
        (\<exists>dist. w_get_distribution (dr_world r) t' = Inr (dist, tag) \<and> ad_Status dist = ''Deployed''))"
  using assms by (rule wait_seven_checks)

definition sample_poll :: poll_lib where
  "sample_poll ctx interval timeout immediate cond s = poll_iter (Suc (min ctx timeout div interval)) cond s"

lemma sample_poll_spec: "poll_spec sample_poll"
  unfolding poll_spec_def sample_poll_def by blast

definition sample_repo :: "world \<Rightarrow> bool \<Rightarrow> dist_repo" where
  "sample_repo w del = main_repo w (sample_cfg\<lparr>DeletionEnabled := del\<rparr>) sample_poll rev rev"

lemma sample_repo_simps [simp]: "dr_poll (sample_repo w del) = sample_poll" "dr_world (sample_repo w del) = w"
  by (simp_all add: sample_repo_def)

theorem wait_bounded_witness:
  "length (snd (waitUntilDeployed (sample_repo some_world True) ''E1'' [])) \<le> 7"
  using wait_bounded [of "sample_repo some_world True" "''E1''" "[]"] by (simp add: sample_poll_spec)

text \<open>A deletion deletes no other distribution than the one it is asked to.\<close>

lemma emits_dist_Delete:
  assumes "poll_spec poll"
  shows "emits (\<lambda>c. cloudfront_call c \<and> \<not> creates_distribution c \<and> (\<forall>i tag. c = DeleteDistribution i tag \<longrightarrow> i = dist_ID d))
    (dist_Delete (main_repo w cfg poll oh ot) d)" (is "emits ?P _")
proof -
  have "emits ?P (waitUntilDeployed (main_repo w cfg poll oh ot) i)" for i
    unfolding waitUntilDeployed_def main_repo_simps
    by (rule emits_poll [OF assms emits_deployed]) simp_all
  moreover have "emits ?P (deleteAllOACs (main_repo w cfg poll oh ot) c)" for c
    unfolding deleteAllOACs_def
    by (rule emits_mono [OF main_client.emits_deleteOACs]) (auto dest: oac_call_kinds)
  ultimately show ?thesis
    unfolding dist_Delete_def DistributionConfigByID_def disableDist_def fail_or_return_def
    by (intro emits_intros) simp_all
qed

text \<open>What the parts of a deletion request.\<close>

lemma waited_deployed:
  assumes "poll_spec poll" and "io_try (waitUntilDeployed (main_repo w cfg poll oh ot) i) t = (Ok (Inr tag), t')"
  shows "\<exists>dist. w_get_distribution w t' = Inr (dist, tag) \<and> ad_Status dist = ''Deployed''"
proof -
  from assms(2) have "waitUntilDeployed (main_repo w cfg poll oh ot) i t = (Ok tag, t')"
    by (auto simp: io_try_def split: prod.splits outcome.splits)
  then show ?thesis using wait_seven_checks [where r = "main_repo w cfg poll oh ot" and i = i and t = t] assms(1) by simp
qed

lemma emits_wait:
  assumes "poll_spec poll"
  shows "emits (delete_first_call i) (io_try (waitUntilDeployed (main_repo w cfg poll oh ot) i))"
  unfolding waitUntilDeployed_def main_repo_simps
  by (intro emits_intros emits_poll [OF assms] emits_deployed) auto

lemma emits_disable:
  "emits (delete_first_call i) (if dc_Enabled c
     then io_bind (io_lift (deref eTag)) (\<lambda>tag. io_try (disableDist (main_repo w cfg poll oh ot) c i tag))
     else io_return (Inr ()))"
  unfolding disableDist_def by (intro emits_intros) auto

lemma emits_fail_or_return: "emits P (fail_or_return e)"
  unfolding fail_or_return_def by (intro emits_intros)



section \<open>What an update sends\<close>

lemma set_oac_id_simps [simp]:
  "ao_Id (set_oac_id xs a) = ao_Id a" "ao_DomainName (set_oac_id xs a) = ao_DomainName a"
  "ao_CustomOriginConfig (set_oac_id xs a) = ao_CustomOriginConfig a"
  "ao_S3OriginConfig (set_oac_id xs a) = ao_S3OriginConfig a"
  unfolding set_oac_id_def by (induction xs arbitrary: a) simp_all

lemma set_oac_id_access:
  "ao_OriginAccessControlId (set_oac_id xs a) =
     (case find (\<lambda>x. oac_OriginName x = ao_Id a) (rev xs) of
        None \<Rightarrow> ao_OriginAccessControlId a | Some x \<Rightarrow> Some (oac_ID x))"
  unfolding set_oac_id_def
proof (induction xs rule: rev_induct)
  case (snoc x xs)
  then show ?case using set_oac_id_simps(1) [of xs a] by (simp add: set_oac_id_def)
qed simp

lemma config_origins_update:
  "config_origins (update_config observed synced root (newAWSDistributionConfig ord d ref cfg)) =
     map (set_oac_id synced \<circ> newAWSOrigin ord) (dist_DefaultOrigin d # dist_CustomOrigins d)"
  by (simp add: update_config_def forEachOrigin_def distCfgHasOrigins_def config_origins_def
      newAWSDistributionConfig_def Let_def)

text \<open>The controls of a distribution whose buckets each have a control named after the host.\<close>

definition oacs_by_host :: "distribution \<Rightarrow> bool" where
  "oacs_by_host d \<longleftrightarrow> list_all (\<lambda>a. isBucketBased a \<longrightarrow> oac_OriginName (or_OAC a) = or_Host a) (dist_CustomOrigins d)"

lemma sent_update:
  assumes "UpdateDistribution i tag c \<in> set s" and "snd (dist_Sync (main_repo w cfg poll oh ot) d t) = t @ s"
  shows "sync_update (main_repo w cfg poll oh ot) d t (UpdateDistribution i tag c)"
proof -
  let ?r = "main_repo w cfg poll oh ot"
  obtain pre post where run: "snd (dist_Sync ?r d t) = t @ pre @ post"
    and pre: "list_all (Not \<circ> writes_distribution) pre"
    and post: "post = [] \<or> (\<exists>c s. post = c # s \<and> sync_update ?r d t c \<and> list_all sync_last_call s)"
    using main_client.sync_update_phased [where w = w and cfg = cfg and poll = poll and oh = oh and ot = ot and d = d and t = t]
    unfolding phased_def by blast
  have s: "s = pre @ post" using run assms(2) by simp
  have "UpdateDistribution i tag c \<notin> set pre" using pre by (auto simp: list_all_iff)
  with assms(1) s have "UpdateDistribution i tag c \<in> set post" by simp
  moreover from this post obtain c' s' where p: "post = c' # s'" "sync_update ?r d t c'" "list_all sync_last_call s'"
    by fastforce
  moreover have "UpdateDistribution i tag c \<notin> set s'" using p(3) by (auto simp: list_all_iff)
  ultimately have "c' = UpdateDistribution i tag c" by simp
  with p(2) show ?thesis by simp
qed

lemma update_uses_access_control:
  assumes "oacs_by_host d" and "map oac_OriginName synced = map oac_OriginName (Dist_OACs d)"
    and origins: "config_origins c = map (set_oac_id synced \<circ> newAWSOrigin oh) (dist_DefaultOrigin d # dist_CustomOrigins d)"
    and a: "a \<in> set (dist_CustomOrigins d)" "isBucketBased a"
  shows "\<exists>x \<in> set synced. oac_OriginName x = or_Host a \<and>
     (\<exists>o' \<in> set (config_origins c). ao_Id o' = or_Host a \<and> ao_OriginAccessControlId o' = Some (oac_ID x))"
proof -
  have "or_Host a \<in> set (map oac_OriginName (Dist_OACs d))"
    using a assms(1) by (force simp: Dist_OACs_def oacs_by_host_def list_all_iff)
  then have "or_Host a \<in> set (map oac_OriginName synced)" by (simp only: assms(2))
  then obtain x where f: "find (\<lambda>x. oac_OriginName x = or_Host a) (rev synced) = Some x"
    by (cases "find (\<lambda>x. oac_OriginName x = or_Host a) (rev synced)") (auto simp: find_None_iff)
  then have x: "x \<in> set synced" "oac_OriginName x = or_Host a"
    by (auto simp: find_Some_iff) (metis nth_mem length_rev set_rev)
  let ?o = "set_oac_id synced (newAWSOrigin oh a)"
  have "?o \<in> set (config_origins c)" using a by (simp add: origins)
  moreover have "ao_Id ?o = or_Host a" by (simp add: newAWSOrigin_def)
  moreover have "ao_OriginAccessControlId ?o = Some (oac_ID x)"
    using f by (simp add: set_oac_id_access newAWSOrigin_def)
  ultimately show ?thesis using x by blast
qed


lemma sample_sync_update:
  "\<exists>tag c. UpdateDistribution ''E1'' tag c \<in> set (snd (dist_Sync (sample_repo some_world True)
     (zero_distribution\<lparr>dist_ID := ''E1''\<rparr>) []))"
  by (simp add: dist_Sync_def io_bind_def io_ask_def io_wrap_def io_call_def io_lift_def io_return_def
      DistributionConfigByID_def sample_repo_def some_world_def diffDesiredAndObservedOACs_def
      Dist_OACs_def zero_distribution_def syncOACs_def some_dist_config_def filterOACs_def
      distCfgHasOrigins_def runPostUpdateOperations_def deleteOACs_def Let_def)


section \<open>Tags\<close>

text \<open>
  The tags sent with a distribution do not depend on the iteration order of the map: they are
  its entries, once each, in strictly increasing order of their keys.
\<close>

theorem tags_deterministic:
  assumes "is_order ord" and "wf_map (dist_Tags d)"
  shows "distributionTags ord d =
       map (\<lambda>k. \<lparr>tag_Key = k, tag_Value = the (map_of (dist_Tags d) k)\<rparr>) (go_sort (<) (keys (dist_Tags d))) \<and>
     sorted_wrt (<) (map tag_Key (distributionTags ord d)) \<and>
     set (map tag_Key (distributionTags ord d)) = set (keys (dist_Tags d))"
proof -
  let ?ts = "map (\<lambda>(k, v). \<lparr>tag_Key = k, tag_Value = v\<rparr>) (map_range ord (dist_Tags d))"
  have "map tag_Key (distributionTags ord d) = go_sort (<) (map tag_Key ?ts)"
    unfolding distributionTags_def by (rule map_go_sort)
  also have "map tag_Key ?ts = ord (keys (dist_Tags d))"
    by (simp add: comp_def split_beta map_range_keys)
  also have "go_sort (<) (ord (keys (dist_Tags d))) = go_sort (<) (keys (dist_Tags d))"
    using assms(1) by (intro tag_order.sort_canonical tag_order.sorted_go_sort)
      (simp_all add: list_all_iff is_order_def)
  finally have keys: "map tag_Key (distributionTags ord d) = go_sort (<) (keys (dist_Tags d))" .
  have "x = \<lparr>tag_Key = tag_Key x, tag_Value = the (map_of (dist_Tags d) (tag_Key x))\<rparr>"
    if "x \<in> set (distributionTags ord d)" for x
    using that by (auto simp: distributionTags_def map_range_def)
  then have "distributionTags ord d = map (\<lambda>x. \<lparr>tag_Key = tag_Key x, tag_Value = the (map_of (dist_Tags d) (tag_Key x))\<rparr>)
      (distributionTags ord d)" by (intro map_idI [symmetric]) simp
  also have "\<dots> = map (\<lambda>k. \<lparr>tag_Key = k, tag_Value = the (map_of (dist_Tags d) k)\<rparr>)
      (map tag_Key (distributionTags ord d))" by simp
  finally have eq: "distributionTags ord d =
      map (\<lambda>k. \<lparr>tag_Key = k, tag_Value = the (map_of (dist_Tags d) k)\<rparr>) (go_sort (<) (keys (dist_Tags d)))"
    by (simp only: keys)
  have "sorted_wrt (in_order (<)) (go_sort (<) (keys (dist_Tags d)))"
    by (rule tag_order.sorted_go_sort) (simp add: list_all_iff)
  then have "sorted_wrt (\<le>) (go_sort (<) (keys (dist_Tags d)))"
    by (rule sorted_wrt_mono_rel [rotated]) (auto simp: in_order_def)
  moreover have "distinct (go_sort (<) (keys (dist_Tags d)))"
    using assms(2) mset_eq_imp_distinct_iff [OF mset_go_sort, of "(<)" "keys (dist_Tags d)"] by (simp add: wf_map_def)
  ultimately have "sorted_wrt (<) (go_sort (<) (keys (dist_Tags d)))"
    by (simp add: strict_sorted_iff)
  with eq keys show ?thesis by (simp only: keys set_go_sort)
qed

theorem tags_deterministic_witness:
  "map tag_Key (distributionTags rev (zero_distribution\<lparr>dist_Tags := [(''b'', ''1''), (''a'', ''2'')]\<rparr>)) = [''a'', ''b'']"
proof -
  have "distributionTags rev (zero_distribution\<lparr>dist_Tags := [(''b'', ''1''), (''a'', ''2'')]\<rparr>) =
      map (\<lambda>k. \<lparr>tag_Key = k, tag_Value = the (map_of [(''b'', ''1''), (''a'', ''2'')] k)\<rparr>)
        (go_sort (<) [''b'', ''a''])"
    using tags_deterministic [of rev "zero_distribution\<lparr>dist_Tags := [(''b'', ''1''), (''a'', ''2'')]\<rparr>"]
    by (simp add: wf_map_def)
  then show ?thesis by (simp add: go_sort_def)
qed

section \<open>Finding the distribution of a group\<close>

lemma ARNByGroup_run:
  "(let req = t @ [GetResources ownershipTagKey ownershipTagValue groupTagKey g];
        (r, t') = ARNByGroup repo g t in
    t' = req \<and>
    (\<forall>arn. r = Ok arn \<longleftrightarrow> (\<exists>p. w_get_resources (dr_world repo) req = Inr [p] \<and> arn = (case p of None \<Rightarrow> [] | Some a \<Rightarrow> a))) \<and>
    (\<forall>e. r = Err e \<and> errors_Is e ErrDistNotFound \<longleftrightarrow> w_get_resources (dr_world repo) req = Inr [] \<and> e = ErrDistNotFound) \<and>
    r \<noteq> Panic)"
proof (cases "w_get_resources (dr_world repo) (t @ [GetResources ownershipTagKey ownershipTagValue groupTagKey g])")
  case (Inl e)
  then show ?thesis
    by (auto simp: ARNByGroup_def io_bind_def io_wrap_def io_call_def errors_Is_def)
next
  case (Inr ps)
  consider "ps = []" | p where "ps = [p]" | p q qs where "ps = p # q # qs"
    by (cases ps; cases "tl ps") auto
  then show ?thesis
    by cases (use Inr in \<open>auto simp: ARNByGroup_def io_bind_def io_wrap_def io_call_def io_return_def
        io_fail_def errors_Is_def\<close>)
qed

text \<open>
  A group's distribution is looked up by the ownership tag and the group tag together. An ARN
  is returned only when exactly one resource carries both; no resource is the sentinel error that
  lets the caller create one; several are a different error, so that nothing is created.
\<close>

theorem arn_by_group:
  "(let req = t @ [GetResources ownershipTagKey ownershipTagValue groupTagKey g];
        (r, t') = ARNByGroup repo g t in
    t' = req \<and>
    (\<forall>arn. r = Ok arn \<longleftrightarrow> (\<exists>p. w_get_resources (dr_world repo) req = Inr [p] \<and> arn = (case p of None \<Rightarrow> [] | Some a \<Rightarrow> a))) \<and>
    (\<forall>e. r = Err e \<and> errors_Is e ErrDistNotFound \<longleftrightarrow> w_get_resources (dr_world repo) req = Inr [] \<and> e = ErrDistNotFound) \<and>
    r \<noteq> Panic)"
  by (rule ARNByGroup_run)

end
