(* ===== verification/Alias_Repo.thy ===== *)
theory Alias_Repo
  imports Cloud_Api
begin

text \<open>
  \<open>internal/route53\<close>: the DNS aliases of a distribution and the repository that creates and deletes
  their records in a hosted zone. Every alias has address records and a TXT record that marks it
  as owned by a CDN class; the TXT record set may hold values of others, which must survive.
\<close>

section \<open>Aliases\<close>

definition txtOwnerKey :: string where "txtOwnerKey = ''cdn-origin-controller/owner''"
definition RRTypeA :: string where "RRTypeA = ''A''"
definition RRTypeAaaa :: string where "RRTypeAaaa = ''AAAA''"
definition RRTypeTxt :: string where "RRTypeTxt = ''TXT''"
definition ChangeActionUpsert :: string where "ChangeActionUpsert = ''UPSERT''"
definition ChangeActionDelete :: string where "ChangeActionDelete = ''DELETE''"

lemmas rr_consts = RRTypeA_def RRTypeAaaa_def RRTypeTxt_def ChangeActionUpsert_def ChangeActionDelete_def

record entry =
  en_Name :: string
  en_Types :: "string list"

record aliases =
  as_Target :: string
  as_HostedZoneID :: string
  as_OwnershipTXTValue :: string
  as_Entries :: "entry list"

definition normalizeDomain :: "string \<Rightarrow> string" where
  "normalizeDomain domain = (if \<not> has_suffix domain ''.'' then domain @ ''.'' else domain)"

definition NormalizeDomains :: "string list \<Rightarrow> string list" where
  "NormalizeDomains domains = map normalizeDomain domains"

definition NewAliases :: "string \<Rightarrow> string \<Rightarrow> string \<Rightarrow> string list \<Rightarrow> bool \<Rightarrow> aliases" where
  "NewAliases target hostedZoneID txtOwnerValue domains ipv6Enabled =
     (let types = (if ipv6Enabled then [RRTypeA, RRTypeAaaa] else [RRTypeA]) in
      \<lparr>as_Target = target, as_HostedZoneID = hostedZoneID,
       as_OwnershipTXTValue = [CHR 0x22] @ txtOwnerKey @ ''='' @ txtOwnerValue @ [CHR 0x22],
       as_Entries = map (\<lambda>domain. \<lparr>en_Name = normalizeDomain domain, en_Types = types\<rparr>) domains\<rparr>)"

definition Domains :: "aliases \<Rightarrow> string list" where
  "Domains a = map en_Name (as_Entries a)"

section \<open>Changes\<close>

definition cfHostedZoneID :: string where "cfHostedZoneID = ''Z2FDTNDATAQYW2''"

definition zero_rrset :: rrset where
  "zero_rrset = \<lparr>rr_Name = [], rr_Type = [], rr_AliasTarget = None, rr_Records = [], rr_TTL = None,
     rr_Weight = None, rr_GeoLocation = None, rr_CidrRoutingConfig = None\<rparr>"

definition newAliasChange :: "string \<Rightarrow> string \<Rightarrow> string \<Rightarrow> string \<Rightarrow> rr_change" where
  "newAliasChange target action name rType =
     \<lparr>ch_Action = action, ch_RRSet = zero_rrset\<lparr>rr_AliasTarget :=
        Some \<lparr>at_DNSName = target, at_EvaluateTargetHealth = False, at_HostedZoneId = cfHostedZoneID\<rparr>,
        rr_Name := name, rr_Type := rType\<rparr>\<rparr>"

definition newAliasChanges :: "string \<Rightarrow> string \<Rightarrow> entry \<Rightarrow> rr_change list" where
  "newAliasChanges target action e = map (newAliasChange target action (en_Name e)) (en_Types e)"

definition newTXTChange :: "string \<Rightarrow> string \<Rightarrow> string list \<Rightarrow> rr_change" where
  "newTXTChange action name records =
     \<lparr>ch_Action = action, ch_RRSet = zero_rrset\<lparr>rr_Name := name, rr_Records := records,
        rr_TTL := Some 300, rr_Type := RRTypeTxt\<rparr>\<rparr>"

definition isOwnedByThisClass :: "string \<Rightarrow> string \<Rightarrow> bool" where
  "isOwnedByThisClass ownershipTXTValue rec \<longleftrightarrow> rec = ownershipTXTValue"

definition isOwnershipRecord :: "string \<Rightarrow> bool" where
  "isOwnershipRecord rec = str_contains rec txtOwnerKey"

definition isOwnedByDifferentClass :: "string \<Rightarrow> string \<Rightarrow> bool" where
  "isOwnedByDifferentClass ownershipTXTValue rec \<longleftrightarrow>
     \<not> isOwnedByThisClass ownershipTXTValue rec \<and> isOwnershipRecord rec"

definition containsOwnershipRecord :: "string list \<Rightarrow> bool" where
  "containsOwnershipRecord records = list_ex isOwnershipRecord records"

definition ensureTXTValue :: "string \<Rightarrow> string list \<Rightarrow> string list" where
  "ensureTXTValue ownershipTXTValue originalRecords =
     (if list_ex (\<lambda>rec. rec = ownershipTXTValue) originalRecords then originalRecords
      else originalRecords @ [ownershipTXTValue])"

fun removeOwnershipRecord :: "string \<Rightarrow> string list \<Rightarrow> string list" where
  "removeOwnershipRecord ownershipTXTValue [] = []"
| "removeOwnershipRecord ownershipTXTValue (rec # rs) =
     (if isOwnedByThisClass ownershipTXTValue rec then rs
      else rec # removeOwnershipRecord ownershipTXTValue rs)"

definition newTXTChangeForUpsert :: "string \<Rightarrow> string \<Rightarrow> string list \<Rightarrow> rr_change" where
  "newTXTChangeForUpsert ownershipTXTValue name existingRecords =
     newTXTChange ChangeActionUpsert name (ensureTXTValue ownershipTXTValue existingRecords)"

definition newTXTChangeForDelete :: "string \<Rightarrow> string \<Rightarrow> string list \<Rightarrow> rr_change" where
  "newTXTChangeForDelete ownershipTXTValue name existingRecords =
     (let records = removeOwnershipRecord ownershipTXTValue existingRecords in
      if length records = 0 then newTXTChange ChangeActionDelete name existingRecords
      else newTXTChange ChangeActionUpsert name records)"

section \<open>Reading and validating the existing records\<close>

record filtered_record_sets =
  fr_address :: "rrset list"
  fr_txt :: "rrset option"

definition filterRecordSets :: "entry \<Rightarrow> rrset list \<Rightarrow> filtered_record_sets" where
  "filterRecordSets e recordSets = foldl (\<lambda>filtered rs.
     if en_Name e = rr_Name rs
     then let filtered = (if contains (en_Types e) (rr_Type rs)
                then filtered\<lparr>fr_address := fr_address filtered @ [rs]\<rparr> else filtered) in
          if rr_Type rs = RRTypeTxt then filtered\<lparr>fr_txt := Some rs\<rparr> else filtered
     else filtered) \<lparr>fr_address = [], fr_txt = None\<rparr> recordSets"

definition validateRoutingPolicy :: "rrset \<Rightarrow> go_error option" where
  "validateRoutingPolicy rs =
     (if rr_Weight rs \<noteq> None then Some (Errorf ''existing record has weighted routing policy'' [rr_Type rs, rr_Name rs])
      else if rr_GeoLocation rs \<noteq> None
      then Some (Errorf ''existing record has geo-location routing policy'' [rr_Type rs, rr_Name rs])
      else if rr_CidrRoutingConfig rs \<noteq> None
      then Some (Errorf ''existing record has ip-based routing policy'' [rr_Type rs, rr_Name rs])
      else None)"

fun first_error :: "('a \<Rightarrow> go_error option) \<Rightarrow> 'a list \<Rightarrow> go_error option" where
  "first_error f [] = None"
| "first_error f (x # xs) = (case f x of Some e \<Rightarrow> Some e | None \<Rightarrow> first_error f xs)"

definition validateRoutingPolicies :: "filtered_record_sets \<Rightarrow> go_error option" where
  "validateRoutingPolicies sets =
     first_error validateRoutingPolicy (fr_address sets @ (case fr_txt sets of None \<Rightarrow> [] | Some rs \<Rightarrow> [rs]))"

fun ownership_loop :: "string \<Rightarrow> string \<Rightarrow> string list \<Rightarrow> go_error option" where
  "ownership_loop name ownershipTXTValue [] = None"
| "ownership_loop name ownershipTXTValue (rec # rs) =
     (if isOwnedByThisClass ownershipTXTValue rec then None
      else if isOwnedByDifferentClass ownershipTXTValue rec
      then Some (Errorf ''TXT record is managed by another CDN class'' [name, rec])
      else ownership_loop name ownershipTXTValue rs)"

definition validateOwnership :: "string \<Rightarrow> rrset \<Rightarrow> go_error option" where
  "validateOwnership ownershipTXTValue rs = ownership_loop (rr_Name rs) ownershipTXTValue (rr_Records rs)"

definition validateRecordSets :: "string \<Rightarrow> filtered_record_sets \<Rightarrow> go_error option" where
  "validateRecordSets ownershipTXTValue filteredRs =
     (case validateRoutingPolicies filteredRs of
        Some err \<Rightarrow> Some err
      | None \<Rightarrow>
          (case (case fr_txt filteredRs of None \<Rightarrow> None
                 | Some txt \<Rightarrow> if containsOwnershipRecord (rr_Records txt) then Some txt else None) of
             None \<Rightarrow> if length (fr_address filteredRs) > 0
               then Some (Errorf ''address record (A or AAAA) exists but is not managed by the controller'' [])
               else None
           | Some txt \<Rightarrow> validateOwnership ownershipTXTValue txt))"

definition resourceRecordSetsByEntry :: "world \<Rightarrow> string \<Rightarrow> entry \<Rightarrow> rrset list api" where
  "resourceRecordSetsByEntry w hostedZoneID e =
     io_bind (io_call (ListResourceRecordSets hostedZoneID (en_Name e) None ''13'') (w_list_record_sets w)) (\<lambda>sets.
     io_bind (io_call (ListResourceRecordSets hostedZoneID (en_Name e) (Some RRTypeTxt) ''1'') (w_list_record_sets w)) (\<lambda>out.
     io_return (case out of [] \<Rightarrow> sets | txtRS # _ \<Rightarrow> sets @ [txtRS])))"

definition existingRecordSets :: "world \<Rightarrow> string \<Rightarrow> string \<Rightarrow> entry \<Rightarrow> filtered_record_sets api" where
  "existingRecordSets w ownershipTXTValue hostedZoneID e =
     io_bind (resourceRecordSetsByEntry w hostedZoneID e) (\<lambda>allRecordSets.
     let recordSets = filterRecordSets e allRecordSets in
     case validateRecordSets ownershipTXTValue recordSets of
       Some err \<Rightarrow> io_fail (ErrorfV ''validating records'' err)
     | None \<Rightarrow> io_return recordSets)"

section \<open>The repository\<close>

record alias_repository =
  ar_Upsert :: "aliases \<Rightarrow> unit api"
  ar_Delete :: "aliases \<Rightarrow> unit api"

definition requestChanges :: "world \<Rightarrow> rr_change list \<Rightarrow> string \<Rightarrow> string \<Rightarrow> unit api" where
  "requestChanges w changes hostedZoneID comment =
     io_call (ChangeResourceRecordSets hostedZoneID comment changes) (w_change_record_sets w)"

definition upsert_changes :: "aliases \<Rightarrow> entry \<Rightarrow> filtered_record_sets \<Rightarrow> rr_change list" where
  "upsert_changes a e existingRS =
     newAliasChanges (as_Target a) ChangeActionUpsert e @
     [newTXTChangeForUpsert (as_OwnershipTXTValue a) (en_Name e)
        (case fr_txt existingRS of None \<Rightarrow> [] | Some rs \<Rightarrow> rr_Records rs)]"

definition alias_Upsert :: "world \<Rightarrow> aliases \<Rightarrow> unit api" where
  "alias_Upsert w a =
     (if length (as_Entries a) = 0 then io_return ()
      else io_bind (io_foldM (\<lambda>changes e.
          io_bind (io_wrap (ErrorfV ''fetching existing DNS records'')
            (existingRecordSets w (as_OwnershipTXTValue a) (as_HostedZoneID a) e)) (\<lambda>existingRS.
          io_return (changes @ upsert_changes a e existingRS))) [] (as_Entries a)) (\<lambda>changes.
        requestChanges w changes (as_HostedZoneID a)
          ''Upserting Alias for CloudFront distribution managed by cdn-origin-controller''))"

definition delete_target :: "string \<Rightarrow> filtered_record_sets \<Rightarrow> string outcome" where
  "delete_target target recordSets =
     (case fr_address recordSets of
        [] \<Rightarrow> Ok target
      | rs # _ \<Rightarrow> out_bind (deref (rr_AliasTarget rs)) (\<lambda>t. Ok (at_DNSName t)))"

definition alias_Delete :: "world \<Rightarrow> aliases \<Rightarrow> unit api" where
  "alias_Delete w a =
     (if length (as_Entries a) = 0 then io_return ()
      else io_bind (io_foldM (\<lambda>(target, changes) e.
          io_bind (existingRecordSets w (as_OwnershipTXTValue a) (as_HostedZoneID a) e) (\<lambda>recordSets.
          case fr_txt recordSets of
            None \<Rightarrow> io_fail (Errorf ''ownership TXT record not found, can't delete address records'' [en_Name e])
          | Some txt \<Rightarrow>
              io_bind (io_lift (delete_target target recordSets)) (\<lambda>target.
              io_return (target, changes @ newAliasChanges target ChangeActionDelete e @
                [newTXTChangeForDelete (as_OwnershipTXTValue a) (en_Name e) (rr_Records txt)]))))
          (as_Target a, []) (as_Entries a)) (\<lambda>(target, changes).
        requestChanges w changes (as_HostedZoneID a)
          ''Deleting Alias for CloudFront distribution managed by cdn-origin-controller''))"

definition NewAliasRepository :: "world \<Rightarrow> alias_repository" where
  "NewAliasRepository w = \<lparr>ar_Upsert = alias_Upsert w, ar_Delete = alias_Delete w\<rparr>"

section \<open>Names\<close>

lemma normalizeDomain_idem [simp]: "normalizeDomain (normalizeDomain d) = normalizeDomain d"
  by (simp add: normalizeDomain_def go_simps)

lemma normalizeDomain_dot: "normalizeDomain d \<noteq> [] \<and> last (normalizeDomain d) = CHR ''.''"
  by (auto simp: normalizeDomain_def has_suffix_single)

lemma Domains_NewAliases [simp]: "Domains (NewAliases tgt hz own ds v6) = NormalizeDomains ds"
  by (simp add: Domains_def NewAliases_def NormalizeDomains_def Let_def)

lemma NormalizeDomains_idem [simp]: "NormalizeDomains (NormalizeDomains ds) = NormalizeDomains ds"
  by (simp add: NormalizeDomains_def)

section \<open>The values of a TXT record\<close>

lemma set_ensureTXTValue [simp]: "set (ensureTXTValue own rs) = insert own (set rs)"
  by (auto simp: ensureTXTValue_def list_ex_iff)

lemma removeOwnershipRecord_eq: "removeOwnershipRecord own rs = remove1 own rs"
  by (induction rs) (auto simp: isOwnedByThisClass_def)

text \<open>
  C32. Marking a name and unmarking it again. After the upsert the TXT record has the ownership
  value and every value it had before, and nothing else; a second upsert changes nothing. Deleting
  then restores what was there: if the name had no other TXT values the record set is deleted with
  exactly the values it has, otherwise it is written back with exactly the values before the
  upsert. A deletion of a record set never removes a value other than this class's.
\<close>

theorem txt_ownership_roundtrip:
  "set (ensureTXTValue own rs) = insert own (set rs) \<and>
   ensureTXTValue own (ensureTXTValue own rs) = ensureTXTValue own rs \<and>
   (own \<notin> set rs \<longrightarrow> newTXTChangeForDelete own name (ensureTXTValue own rs) =
      (if rs = [] then newTXTChange ChangeActionDelete name [own] else newTXTChange ChangeActionUpsert name rs)) \<and>
   (ch_Action (newTXTChangeForDelete own name rs) = ChangeActionDelete \<longrightarrow> set rs \<subseteq> {own} \<and>
      rr_Records (ch_RRSet (newTXTChangeForDelete own name rs)) = rs) \<and>
   (\<forall>v \<in> set rs. v \<noteq> own \<longrightarrow> v \<in> set (rr_Records (ch_RRSet (newTXTChangeForDelete own name rs))) \<and>
      ch_Action (newTXTChangeForDelete own name rs) = ChangeActionUpsert)"
proof -
  have "set rs \<subseteq> {own}" if "remove1 own rs = []" for rs :: "string list"
    using that by (cases rs) (auto split: if_splits)
  moreover have "remove1 own (rs @ [own]) = rs" if "own \<notin> set rs"
    using that by (simp add: remove1_append)
  ultimately show ?thesis
    by (auto simp: newTXTChangeForDelete_def newTXTChange_def removeOwnershipRecord_eq ensureTXTValue_def
        list_ex_iff rr_consts Let_def)
qed

theorem txt_ownership_roundtrip_witness:
  "newTXTChangeForDelete ''own'' ''a.com.'' (ensureTXTValue ''own'' [''spf'']) =
     newTXTChange ChangeActionUpsert ''a.com.'' [''spf'']"
  using txt_ownership_roundtrip [of "''own''" "[''spf'']" "''a.com.''"] by simp

section \<open>Validation\<close>

definition simple_routing :: "rrset \<Rightarrow> bool" where
  "simple_routing rs \<longleftrightarrow> rr_Weight rs = None \<and> rr_GeoLocation rs = None \<and> rr_CidrRoutingConfig rs = None"

lemma first_error_None: "first_error f xs = None \<longleftrightarrow> (\<forall>x \<in> set xs. f x = None)"
  by (induction xs) (auto split: option.split)

lemma ownership_loop_None:
  "ownership_loop name own rs = None \<longleftrightarrow> list_all (Not \<circ> isOwnershipRecord) (takeWhile (\<lambda>r. r \<noteq> own) rs)"
  by (induction rs) (auto simp: isOwnedByThisClass_def isOwnedByDifferentClass_def)

text \<open>
  C31. When the existing records of a name are accepted: every record has a simple routing policy,
  and either the name has no address record and no ownership mark, or its TXT record has an
  ownership mark and no mark of another class comes before this class's own. So an address record
  the controller does not own is never touched. The outcome depends on the order of the values.
\<close>

theorem validate_record_sets_iff:
  "validateRecordSets own fr = None \<longleftrightarrow>
     list_all simple_routing (fr_address fr) \<and>
     (case fr_txt fr of
        None \<Rightarrow> fr_address fr = []
      | Some txt \<Rightarrow> simple_routing txt \<and>
          (if containsOwnershipRecord (rr_Records txt)
           then list_all (Not \<circ> isOwnershipRecord) (takeWhile (\<lambda>r. r \<noteq> own) (rr_Records txt))
           else fr_address fr = []))"
proof -
  have policy: "validateRoutingPolicy rs = None \<longleftrightarrow> simple_routing rs" for rs
    by (simp add: validateRoutingPolicy_def simple_routing_def)
  have "validateRoutingPolicies fr = None \<longleftrightarrow> list_all simple_routing (fr_address fr) \<and>
      (case fr_txt fr of None \<Rightarrow> True | Some txt \<Rightarrow> simple_routing txt)"
    by (auto simp: validateRoutingPolicies_def first_error_None policy list_all_iff split: option.split)
  then show ?thesis
    by (cases "validateRoutingPolicies fr"; cases "fr_txt fr")
       (auto simp: validateRecordSets_def validateOwnership_def ownership_loop_None)
qed

section \<open>Batches\<close>

lemma emits_existing: "emits read_only (existingRecordSets w own hz e)"
  unfolding existingRecordSets_def resourceRecordSetsByEntry_def Let_def
  by (intro emits_intros) (auto split: list.split option.split intro!: emits_intros)

lemma existing_valid:
  "existingRecordSets w own hz e t = (Ok fr, t') \<Longrightarrow> validateRecordSets own fr = None"
  by (auto simp: existingRecordSets_def io_bind_Ok_iff Let_def io_fail_def split: option.splits)

lemma io_foldM_collect:
  assumes step: "\<And>s x t s' t'. f s x t = (Ok s', t') \<Longrightarrow> \<exists>y. Q x y \<and> p s' = p s @ g x y"
  shows "io_foldM f s xs t = (Ok s', t') \<Longrightarrow> \<exists>ys. list_all2 Q xs ys \<and> p s' = p s @ concat (map2 g xs ys)"
proof (induction xs arbitrary: s t)
  case (Cons x xs)
  then obtain s1 t1 where 1: "f s x t = (Ok s1, t1)" "io_foldM f s1 xs t1 = (Ok s', t')"
    by (auto simp: io_bind_Ok_iff)
  from step [OF 1(1)] obtain y where y: "Q x y" "p s1 = p s @ g x y" by blast
  from Cons.IH [OF 1(2)] obtain ys where "list_all2 Q xs ys" "p s' = p s1 @ concat (map2 g xs ys)" by blast
  with y show ?case by (intro exI [of _ "y # ys"]) simp
qed (auto intro!: exI [of _ "[]"])

lemma upsert_changes_action: "ch \<in> set (upsert_changes a e fr) \<Longrightarrow> ch_Action ch = ChangeActionUpsert"
  by (auto simp: upsert_changes_def newAliasChanges_def newAliasChange_def newTXTChangeForUpsert_def newTXTChange_def)

lemma batch_run:
  assumes reads: "emits read_only m"
  obtains (stopped) r reads where "m t = (r, t @ reads)" "\<nexists>x. r = Ok x" "list_all read_only reads"
      "\<And>f. snd (io_bind m f t) = t @ reads \<and> (\<nexists>y. fst (io_bind m f t) = Ok y)"
  | (collected) x reads where "m t = (Ok x, t @ reads)" "list_all read_only reads"
      "\<And>f. io_bind m f t = f x (t @ reads)"
proof -
  obtain r t' where mt: "m t = (r, t')" by (cases "m t")
  from reads obtain s where s: "t' = t @ s" "list_all read_only s"
    by (rule emitsE [where t = t]) (simp add: mt)
  show ?thesis
  proof (cases r)
    case (Ok x)
    with mt s show ?thesis by (intro collected) (auto simp: io_bind_def)
  next
    case (Err e)
    with mt s show ?thesis by (intro stopped) (auto simp: io_bind_def)
  next
    case Panic
    with mt s show ?thesis by (intro stopped) (auto simp: io_bind_def)
  qed
qed

definition upsert_loop :: "world \<Rightarrow> aliases \<Rightarrow> rr_change list api" where
  "upsert_loop w a = io_foldM (\<lambda>changes e.
          io_bind (io_wrap (ErrorfV ''fetching existing DNS records'')
            (existingRecordSets w (as_OwnershipTXTValue a) (as_HostedZoneID a) e)) (\<lambda>existingRS.
          io_return (changes @ upsert_changes a e existingRS))) [] (as_Entries a)"

lemma emits_upsert_loop: "emits read_only (upsert_loop w a)"
  unfolding upsert_loop_def by (intro emits_intros emits_existing)

text \<open>The record sets of a name as they were read, and what the batch holds for it.\<close>

definition was_read :: "world \<Rightarrow> aliases \<Rightarrow> entry \<Rightarrow> filtered_record_sets \<Rightarrow> bool" where
  "was_read w a e fr \<longleftrightarrow>
     (\<exists>t t'. existingRecordSets w (as_OwnershipTXTValue a) (as_HostedZoneID a) e t = (Ok fr, t'))"

definition address_change :: "string \<Rightarrow> string \<Rightarrow> string \<Rightarrow> string \<Rightarrow> rr_change" where
  "address_change action name target ty =
     \<lparr>ch_Action = action, ch_RRSet = zero_rrset\<lparr>rr_Name := name, rr_Type := ty, rr_AliasTarget :=
        Some \<lparr>at_DNSName = target, at_EvaluateTargetHealth = False, at_HostedZoneId = ''Z2FDTNDATAQYW2''\<rparr>\<rparr>\<rparr>"

definition txt_change :: "string \<Rightarrow> string \<Rightarrow> string list \<Rightarrow> rr_change" where
  "txt_change action name values =
     \<lparr>ch_Action = action, ch_RRSet = zero_rrset\<lparr>rr_Name := name, rr_Type := ''TXT'', rr_TTL := Some 300,
        rr_Records := values\<rparr>\<rparr>"

definition upserts_alias :: "aliases \<Rightarrow> entry \<times> filtered_record_sets \<Rightarrow> rr_change list \<Rightarrow> bool" where
  "upserts_alias a = (\<lambda>(e, fr) chs. \<exists>values.
     chs = map (address_change ''UPSERT'' (en_Name e) (as_Target a)) (en_Types e) @
       [txt_change ''UPSERT'' (en_Name e) values] \<and>
     set values = insert (as_OwnershipTXTValue a) (case fr_txt fr of None \<Rightarrow> {} | Some rs \<Rightarrow> set (rr_Records rs)))"

lemma newAliasChange_eq: "newAliasChange target action name = address_change action name target"
  by (rule ext) (simp add: newAliasChange_def address_change_def cfHostedZoneID_def)

lemma newTXTChange_eq: "newTXTChange action name = txt_change action name"
  by (rule ext) (simp add: newTXTChange_def txt_change_def rr_consts)

lemma upsert_changes_alias: "upserts_alias a (e, fr) (upsert_changes a e fr)"
  unfolding upserts_alias_def prod.case upsert_changes_def newAliasChanges_def newAliasChange_eq
    newTXTChangeForUpsert_def newTXTChange_eq
  by (rule exI [of _ "ensureTXTValue (as_OwnershipTXTValue a) (case fr_txt fr of None \<Rightarrow> [] | Some x \<Rightarrow> rr_Records x)"])
    (auto simp: rr_consts ensureTXTValue_def list_ex_iff split: option.split)

lemma upsert_loop_collects:
  assumes "upsert_loop w a t = (Ok chs, t')"
  obtains sets where "list_all2 (was_read w a) (as_Entries a) sets"
    and "chs = concat (map2 (upsert_changes a) (as_Entries a) sets)"
proof -
  have "\<exists>sets. list_all2 (was_read w a) (as_Entries a) sets \<and>
      chs = [] @ concat (map2 (upsert_changes a) (as_Entries a) sets)"
    by (rule io_foldM_collect [where p = "\<lambda>x. x", OF _ assms [unfolded upsert_loop_def]])
       (auto simp: io_bind_Ok_iff was_read_def)
  with that show thesis by auto
qed

lemma upserts_all: "length xs = length ys \<Longrightarrow> list_all2 (upserts_alias a) (zip xs ys) (map2 (upsert_changes a) xs ys)"
  by (auto simp: list_all2_conv_all_nth upsert_changes_alias)

lemma was_read_valid: "was_read w a e fr \<Longrightarrow> validateRecordSets (as_OwnershipTXTValue a) fr = None"
  unfolding was_read_def by (blast dest: existing_valid)

lemma alias_upsert_run:
  "\<exists>reads post. snd (alias_Upsert w a t) = t @ reads @ post \<and> list_all read_only reads \<and>
     (post = [] \<or> (\<exists>comment sets batches.
        post = [ChangeResourceRecordSets (as_HostedZoneID a) comment (concat batches)] \<and>
        list_all2 (\<lambda>e fr. was_read w a e fr \<and> validateRecordSets (as_OwnershipTXTValue a) fr = None) (as_Entries a) sets \<and>
        list_all2 (upserts_alias a) (zip (as_Entries a) sets) batches)) \<and>
     (fst (alias_Upsert w a t) = Ok () \<longrightarrow> (post = [] \<longleftrightarrow> as_Entries a = []))"
proof (cases "as_Entries a = []")
  case True
  then show ?thesis by (intro exI [of _ "[]"]) (simp add: alias_Upsert_def io_return_apply)
next
  case False
  then have run: "alias_Upsert w a = io_bind (upsert_loop w a) (\<lambda>changes.
      requestChanges w changes (as_HostedZoneID a)
          ''Upserting Alias for CloudFront distribution managed by cdn-origin-controller'')"
    by (simp add: alias_Upsert_def upsert_loop_def)
  show ?thesis
  proof (rule batch_run [OF emits_upsert_loop, of w a t])
    fix r reads
    assume "list_all read_only reads"
      and "\<And>f :: _ \<Rightarrow> unit api. snd (io_bind (upsert_loop w a) f t) = t @ reads \<and> (\<nexists>y. fst (io_bind (upsert_loop w a) f t) = Ok y)"
    then show ?thesis
      unfolding run by (intro exI [of _ reads] exI [of _ "[]"]) auto
  next
    fix chs reads
    assume collected: "upsert_loop w a t = (Ok chs, t @ reads)" "list_all read_only reads"
      "\<And>f :: _ \<Rightarrow> unit api. io_bind (upsert_loop w a) f t = f chs (t @ reads)"
    from collected(1) obtain sets where sets: "list_all2 (was_read w a) (as_Entries a) sets"
        and chs: "chs = concat (map2 (upsert_changes a) (as_Entries a) sets)"
      by (rule upsert_loop_collects)
    have "list_all2 (\<lambda>e fr. was_read w a e fr \<and> validateRecordSets (as_OwnershipTXTValue a) fr = None) (as_Entries a) sets"
      using sets by (rule list_all2_mono) (simp add: was_read_valid)
    moreover have "list_all2 (upserts_alias a) (zip (as_Entries a) sets) (map2 (upsert_changes a) (as_Entries a) sets)"
      using sets by (intro upserts_all) (rule list_all2_lengthD)
    ultimately show ?thesis
      using collected False unfolding run chs requestChanges_def by (intro exI [of _ reads] exI) auto
  qed
qed

text \<open>
  C29. An upsert is all or nothing: it reads, and then either fails without having changed anything
  or sends one single batch for the hosted zone that covers every alias, all of whose records, as
  read, passed the validation. The batch holds for each alias the address records towards the
  distribution, one per type, and the TXT record with exactly the values read and the ownership value.
\<close>

theorem alias_upsert_batch:
  "\<exists>reads post. snd (alias_Upsert w a t) = t @ reads @ post \<and> list_all read_only reads \<and>
     (post = [] \<or> (\<exists>comment sets batches.
        post = [ChangeResourceRecordSets (as_HostedZoneID a) comment (concat batches)] \<and>
        list_all2 (\<lambda>e fr. was_read w a e fr \<and> validateRecordSets (as_OwnershipTXTValue a) fr = None) (as_Entries a) sets \<and>
        list_all2 (upserts_alias a) (zip (as_Entries a) sets) batches)) \<and>
     (fst (alias_Upsert w a t) = Ok () \<longrightarrow> (post = [] \<longleftrightarrow> as_Entries a = []))"
  by (rule alias_upsert_run)

definition sample_aliases :: aliases where
  "sample_aliases = NewAliases ''d1.cloudfront.net'' ''Z1'' ''prod'' [''a.com''] False"

theorem alias_upsert_batch_witness:
  "\<exists>reads post. snd (alias_Upsert some_world sample_aliases []) = reads @ post \<and> post \<noteq> [] \<and> list_all read_only reads"
proof -
  have "fst (alias_Upsert some_world sample_aliases []) = Ok ()" and "as_Entries sample_aliases \<noteq> []"
    by (simp_all add: alias_Upsert_def sample_aliases_def NewAliases_def existingRecordSets_def
        resourceRecordSetsByEntry_def filterRecordSets_def validateRecordSets_def validateRoutingPolicies_def
        requestChanges_def io_bind_def io_call_def io_return_def io_wrap_def some_world_def Let_def)
  then show ?thesis using alias_upsert_batch [of some_world sample_aliases "[]"] by auto
qed

section \<open>Deleting\<close>

definition delete_changes :: "aliases \<Rightarrow> entry \<Rightarrow> string \<times> string list \<Rightarrow> rr_change list" where
  "delete_changes a e x = newAliasChanges (fst x) ChangeActionDelete e @
     [newTXTChangeForDelete (as_OwnershipTXTValue a) (en_Name e) (snd x)]"

definition delete_loop :: "world \<Rightarrow> aliases \<Rightarrow> (string \<times> rr_change list) api" where
  "delete_loop w a = io_foldM (\<lambda>(target, changes) e.
          io_bind (existingRecordSets w (as_OwnershipTXTValue a) (as_HostedZoneID a) e) (\<lambda>recordSets.
          case fr_txt recordSets of
            None \<Rightarrow> io_fail (Errorf ''ownership TXT record not found, can't delete address records'' [en_Name e])
          | Some txt \<Rightarrow>
              io_bind (io_lift (delete_target target recordSets)) (\<lambda>target.
              io_return (target, changes @ newAliasChanges target ChangeActionDelete e @
                [newTXTChangeForDelete (as_OwnershipTXTValue a) (en_Name e) (rr_Records txt)]))))
          (as_Target a, []) (as_Entries a)"

lemma emits_delete_loop: "emits read_only (delete_loop w a)"
  unfolding delete_loop_def split_beta by (intro emits_intros emits_existing)

text \<open>
  The values a deletion reads for an alias, accepted and with a TXT record, and what the batch holds
  for it. The target is the one of the first address record of the name, if the zone has one.
\<close>

definition deletable :: "world \<Rightarrow> aliases \<Rightarrow> entry \<Rightarrow> string \<times> string list \<Rightarrow> bool" where
  "deletable w a e x \<longleftrightarrow> (\<exists>fr txt. was_read w a e fr \<and> fr_txt fr = Some txt \<and> rr_Records txt = snd x \<and>
     validateRecordSets (as_OwnershipTXTValue a) fr = None \<and>
     (case fr_address fr of [] \<Rightarrow> True | rs # _ \<Rightarrow> map_option at_DNSName (rr_AliasTarget rs) = Some (fst x)))"

definition deletes_alias :: "aliases \<Rightarrow> entry \<times> string \<times> string list \<Rightarrow> rr_change list \<Rightarrow> bool" where
  "deletes_alias a = (\<lambda>(e, target, values) chs.
     chs = map (address_change ''DELETE'' (en_Name e) target) (en_Types e) @
       [if remove1 (as_OwnershipTXTValue a) values = [] then txt_change ''DELETE'' (en_Name e) values
        else txt_change ''UPSERT'' (en_Name e) (remove1 (as_OwnershipTXTValue a) values)])"

lemma delete_changes_alias: "deletes_alias a (e, x) (delete_changes a e x)"
  by (cases x) (simp add: deletes_alias_def delete_changes_def newAliasChanges_def newAliasChange_eq
      newTXTChangeForDelete_def newTXTChange_eq removeOwnershipRecord_eq Let_def rr_consts)

lemma deletes_all: "length xs = length ys \<Longrightarrow> list_all2 (deletes_alias a) (zip xs ys) (map2 (delete_changes a) xs ys)"
  by (auto simp: list_all2_conv_all_nth delete_changes_alias)

lemma delete_loop_collects:
  assumes "delete_loop w a t = (Ok r, t')"
  obtains xs where "list_all2 (deletable w a) (as_Entries a) xs"
    and "snd r = concat (map2 (delete_changes a) (as_Entries a) xs)"
proof -
  have "\<exists>xs. list_all2 (deletable w a) (as_Entries a) xs \<and>
      snd r = snd (as_Target a, []) @ concat (map2 (delete_changes a) (as_Entries a) xs)"
  proof (rule io_foldM_collect [where p = snd, OF _ assms [unfolded delete_loop_def]])
    fix s e t s' t'
    assume "(case s of (target, changes) \<Rightarrow> \<lambda>e.
          io_bind (existingRecordSets w (as_OwnershipTXTValue a) (as_HostedZoneID a) e) (\<lambda>recordSets.
          case fr_txt recordSets of
            None \<Rightarrow> io_fail (Errorf ''ownership TXT record not found, can't delete address records'' [en_Name e])
          | Some txt \<Rightarrow>
              io_bind (io_lift (delete_target target recordSets)) (\<lambda>target.
              io_return (target, changes @ newAliasChanges target ChangeActionDelete e @
                [newTXTChangeForDelete (as_OwnershipTXTValue a) (en_Name e) (rr_Records txt)])))) e t = (Ok s', t')"
    then have "\<exists>fr trec. was_read w a e fr \<and> fr_txt fr = Some trec \<and> delete_target (fst s) fr = Ok (fst s') \<and>
        snd s' = snd s @ newAliasChanges (fst s') ChangeActionDelete e @
                [newTXTChangeForDelete (as_OwnershipTXTValue a) (en_Name e) (rr_Records trec)]"
      by (auto simp: io_bind_Ok_iff io_fail_def io_lift_Ok_iff was_read_def split: prod.splits option.splits) blast
    then obtain fr trec where fr: "was_read w a e fr" "fr_txt fr = Some trec"
      and tgt: "delete_target (fst s) fr = Ok (fst s')"
      and chs: "snd s' = snd s @ newAliasChanges (fst s') ChangeActionDelete e @
                [newTXTChangeForDelete (as_OwnershipTXTValue a) (en_Name e) (rr_Records trec)]"
      by blast
    have "deletable w a e (fst s', rr_Records trec)"
      using fr was_read_valid [OF fr(1)] tgt unfolding deletable_def
      by (intro exI [of _ fr] exI [of _ trec])
         (auto simp: delete_target_def deref_def split: list.splits option.splits)
    with chs show "\<exists>x. deletable w a e x \<and> snd s' = snd s @ delete_changes a e x"
      by (intro exI [of _ "(fst s', rr_Records trec)"]) (simp add: delete_changes_def)
  qed
  with that show thesis by auto
qed

text \<open>
  C30. A deletion is all or nothing as well: it reads, and then either stops without having changed
  anything or sends one batch, in which every alias has a TXT record and passed the validation.
  Every address record is deleted with the target read from the zone whenever the zone has one,
  and the TXT change removes the ownership value: it keeps the other values, or deletes the record set
  when there are none.
\<close>

theorem alias_delete_batch:
  "\<exists>reads post. snd (alias_Delete w a t) = t @ reads @ post \<and> list_all read_only reads \<and>
     (post = [] \<or> (\<exists>comment xs batches.
        post = [ChangeResourceRecordSets (as_HostedZoneID a) comment (concat batches)] \<and>
        list_all2 (deletable w a) (as_Entries a) xs \<and>
        list_all2 (deletes_alias a) (zip (as_Entries a) xs) batches)) \<and>
     (fst (alias_Delete w a t) = Ok () \<longrightarrow> (post = [] \<longleftrightarrow> as_Entries a = []))"
proof (cases "as_Entries a = []")
  case True
  then show ?thesis by (intro exI [of _ "[]"]) (simp add: alias_Delete_def io_return_apply)
next
  case False
  then have run: "alias_Delete w a = io_bind (delete_loop w a) (\<lambda>(target, changes).
      requestChanges w changes (as_HostedZoneID a)
          ''Deleting Alias for CloudFront distribution managed by cdn-origin-controller'')"
    by (simp add: alias_Delete_def delete_loop_def)
  show ?thesis
  proof (rule batch_run [OF emits_delete_loop, of w a t])
    fix r reads
    assume "list_all read_only reads"
      and "\<And>f :: _ \<Rightarrow> unit api. snd (io_bind (delete_loop w a) f t) = t @ reads \<and> (\<nexists>y. fst (io_bind (delete_loop w a) f t) = Ok y)"
    then show ?thesis
      unfolding run by (intro exI [of _ reads] exI [of _ "[]"]) auto
  next
    fix x reads
    assume collected: "delete_loop w a t = (Ok x, t @ reads)" "list_all read_only reads"
      "\<And>f :: _ \<Rightarrow> unit api. io_bind (delete_loop w a) f t = f x (t @ reads)"
    from collected(1) obtain xs where xs: "list_all2 (deletable w a) (as_Entries a) xs"
        and chs: "snd x = concat (map2 (delete_changes a) (as_Entries a) xs)"
      by (rule delete_loop_collects)
    have "alias_Delete w a t = requestChanges w (snd x) (as_HostedZoneID a)
          ''Deleting Alias for CloudFront distribution managed by cdn-origin-controller'' (t @ reads)"
      unfolding run collected(3) by (simp add: split_beta)
    moreover have "list_all2 (deletes_alias a) (zip (as_Entries a) xs) (map2 (delete_changes a) (as_Entries a) xs)"
      using xs by (intro deletes_all) (rule list_all2_lengthD)
    ultimately show ?thesis
      using collected(2) xs False unfolding chs requestChanges_def by (intro exI [of _ reads] exI) auto
  qed
qed

definition marked_world :: world where
  "marked_world = some_world\<lparr>w_list_record_sets := (\<lambda>t. case last t of
     ListResourceRecordSets hz n (Some _) _ \<Rightarrow> Inr [zero_rrset\<lparr>rr_Name := n, rr_Type := RRTypeTxt,
        rr_Records := [as_OwnershipTXTValue sample_aliases]\<rparr>]
   | _ \<Rightarrow> Inr [])\<rparr>"

theorem alias_delete_batch_witness:
  "\<exists>reads post. snd (alias_Delete marked_world sample_aliases []) = reads @ post \<and> post \<noteq> [] \<and> list_all read_only reads"
proof -
  have "fst (alias_Delete marked_world sample_aliases []) = Ok ()" and "as_Entries sample_aliases \<noteq> []"
    by (simp_all add: alias_Delete_def marked_world_def sample_aliases_def NewAliases_def existingRecordSets_def
        resourceRecordSetsByEntry_def filterRecordSets_def validateRecordSets_def validateRoutingPolicies_def
        validateRoutingPolicy_def validateOwnership_def isOwnedByThisClass_def zero_rrset_def rr_consts
        delete_target_def
        requestChanges_def io_bind_def io_call_def io_lift_def io_return_def io_wrap_def some_world_def Let_def)
  then show ?thesis using alias_delete_batch [of marked_world sample_aliases "[]"] by auto
qed

section \<open>The contract with the service\<close>

fun dns_call :: "api_call \<Rightarrow> bool" where
  "dns_call (ListResourceRecordSets _ _ _ _) = True"
| "dns_call (ChangeResourceRecordSets _ _ _) = True"
| "dns_call _ = False"

locale alias_repo_contract =
  fixes repo :: alias_repository
  assumes upsert_calls: "emits (\<lambda>c. dns_call c \<and> \<not> destroys c) (ar_Upsert repo a)"
    and delete_calls: "emits dns_call (ar_Delete repo a)"
    and upsert_nothing: "as_Entries a = [] \<Longrightarrow> ar_Upsert repo a t = (Ok (), t)"
    and delete_nothing: "as_Entries a = [] \<Longrightarrow> ar_Delete repo a t = (Ok (), t)"

lemma emits_existing_dns: "emits (\<lambda>c. dns_call c \<and> \<not> destroys c) (existingRecordSets w own hz e)"
  unfolding existingRecordSets_def resourceRecordSetsByEntry_def Let_def
  by (intro emits_intros) (auto split: list.split option.split intro!: emits_intros)

lemma emits_alias_Upsert: "emits (\<lambda>c. dns_call c \<and> \<not> destroys c) (alias_Upsert w a)"
proof -
  have loop: "emits (\<lambda>c. dns_call c \<and> \<not> destroys c) (upsert_loop w a)"
    unfolding upsert_loop_def by (intro emits_intros emits_existing_dns)
  have "emits (\<lambda>c. dns_call c \<and> \<not> destroys c) (requestChanges w chs hz comment)"
    if "upsert_loop w a t = (Ok chs, t')" for chs t t' hz comment
  proof -
    from that obtain sets where "chs = concat (map2 (upsert_changes a) (as_Entries a) sets)"
      by (rule upsert_loop_collects)
    then have "\<not> list_ex (\<lambda>c. ch_Action c = ''DELETE'') chs"
      by (auto simp: list_ex_iff rr_consts dest!: upsert_changes_action)
    then show ?thesis unfolding requestChanges_def by (intro emits_call) simp
  qed
  then show ?thesis
    unfolding alias_Upsert_def upsert_loop_def [symmetric]
    by (intro emits_if emits_return emits_bind_Ok [OF loop])
qed

lemma emits_alias_Delete: "emits dns_call (alias_Delete w a)"
  unfolding alias_Delete_def requestChanges_def split_beta
  by (intro emits_intros emits_mono [OF emits_existing_dns]) simp_all

lemma alias_nothing:
  "as_Entries a = [] \<Longrightarrow> alias_Upsert w a t = (Ok (), t)"
  "as_Entries a = [] \<Longrightarrow> alias_Delete w a t = (Ok (), t)"
  by (simp_all add: alias_Upsert_def alias_Delete_def io_return_apply)

interpretation alias_repo: alias_repo_contract "NewAliasRepository w" for w
  by unfold_locales
    (simp_all add: NewAliasRepository_def emits_alias_Upsert emits_alias_Delete alias_nothing)

end
