(* ===== verification/Certificate_Model.thy ===== *)
theory Certificate_Model
  imports Oac_Repo
begin

text \<open>
  \<open>internal/certificate\<close>: finding the ACM certificate of a distribution among the issued ones by
  the host names it must serve. The loop over the pages of the listing is the one of \<open>Oac_Repo\<close>.
\<close>

section \<open>Definitions\<close>

record certificate =
  cert_arn :: string
  cert_domainName :: string
  cert_alternativeNames :: "string list"

definition New :: "string \<Rightarrow> string \<Rightarrow> string list \<Rightarrow> certificate" where
  "New arn domainName alternativeNames =
     \<lparr>cert_arn = arn, cert_domainName = domainName, cert_alternativeNames = alternativeNames\<rparr>"

definition zero_certificate :: certificate where
  "zero_certificate = \<lparr>cert_arn = [], cert_domainName = [], cert_alternativeNames = []\<rparr>"

definition cert_names :: "certificate \<Rightarrow> string list" where
  "cert_names c = cert_alternativeNames c @ [cert_domainName c]"

text \<open>The loop over the names of a certificate.\<close>

fun match_loop :: "string \<Rightarrow> string list \<Rightarrow> bool" where
  "match_loop distHost [] = False"
| "match_loop distHost (certHost # rest) =
     (if distHost = certHost then True
      else let hs = go_split CHR ''.'' distHost;
               hostDomain = go_join ''.'' (drop 1 hs);
               certHost = (if has_prefix certHost ''*.'' then replace_all certHost ''*.'' [] else certHost) in
        if certHost = hostDomain then True else match_loop distHost rest)"

definition certMatches :: "string \<Rightarrow> certificate \<Rightarrow> bool" where
  "certMatches distHost c = match_loop distHost (cert_names c)"

definition matchingDomainFilter :: "string list \<Rightarrow> certificate \<Rightarrow> bool" where
  "matchingDomainFilter hosts c = list_all (\<lambda>host. certMatches host c) hosts"

text \<open>
  The callback over a page: it collects the matching certificates and remembers an error of
  \<open>DescribeCertificate\<close>, which ends the listing. Its result, whether to go on, is \<open>lastPage\<close>.
\<close>

definition cert_error :: "string \<Rightarrow> go_error \<Rightarrow> go_error" where
  "cert_error arn err = ErrorfV (''describing certificate '' @ arn) err"

text \<open>\<open>aws.StringValueSlice\<close> reads absent names as empty.\<close>

definition new_cert :: "string \<Rightarrow> string \<Rightarrow> aws_cert_detail \<Rightarrow> certificate" where
  "new_cert arn domainName detail = New arn domainName
     (map (\<lambda>n. case n of None \<Rightarrow> [] | Some x \<Rightarrow> x) (acd_SubjectAlternativeNames detail))"

type_synonym cert_search = "certificate list \<times> go_error option"

fun visit_cert_page ::
    "world \<Rightarrow> (certificate \<Rightarrow> bool) \<Rightarrow> string option list \<Rightarrow> bool \<Rightarrow> cert_search \<Rightarrow> (cert_search \<times> bool) api" where
  "visit_cert_page w filt [] lastPage s = io_return (s, lastPage)"
| "visit_cert_page w filt (arn # arns) lastPage (certs, certDiscoveryErr) =
     io_bind (io_try (io_call (DescribeCertificate arn) (w_describe_certificate w))) (\<lambda>r. case r of
       Inl err \<Rightarrow>
         io_bind (io_lift (deref arn)) (\<lambda>a.
         io_return ((certs, Some (cert_error a err)), False))
     | Inr detail \<Rightarrow>
         io_bind (io_lift (deref (acd_CertificateArn detail))) (\<lambda>a.
         io_bind (io_lift (deref (acd_DomainName detail))) (\<lambda>dn.
         let dnCert = new_cert a dn detail in
         visit_cert_page w filt arns lastPage
           (if filt dnCert then certs @ [dnCert] else certs, certDiscoveryErr))))"

definition FindByFilter :: "world \<Rightarrow> (certificate \<Rightarrow> bool) \<Rightarrow> certificate list api" where
  "FindByFilter w filt =
     io_bind (list_pages (ListCertificates ''ISSUED'') (w_list_certificates w) (visit_cert_page w filt) ([], None))
       (\<lambda>((certs, certDiscoveryErr), err).
     let err = (case certDiscoveryErr of None \<Rightarrow> err | Some e \<Rightarrow> Some e) in
     case err of
       Some e \<Rightarrow> io_fail (ErrorfWV ErrFindCert e)
     | None \<Rightarrow> io_return certs)"

definition DiscoverByHost :: "world \<Rightarrow> string list \<Rightarrow> certificate api" where
  "DiscoverByHost w hosts =
     io_bind (io_wrap (ErrorfV ''discovery certificate'') (FindByFilter w (matchingDomainFilter hosts))) (\<lambda>certs.
     if length certs = 0 then io_fail ErrNoMatchingCert else io_return (hd certs))"

section \<open>Matching\<close>

text \<open>The name of the parent domain, and what a certificate name covers by the rules of TLS.\<close>

definition parent_domain :: "string \<Rightarrow> string" where
  "parent_domain h = go_join ''.'' (drop 1 (go_split CHR ''.'' h))"

definition covers :: "string \<Rightarrow> string \<Rightarrow> bool" where
  "covers n h \<longleftrightarrow> n = h \<or> (\<exists>d. n = ''*.'' @ d \<and> \<not> sublist ''*.'' d \<and> d = parent_domain h)"

lemma match_loop_iff:
  "match_loop h ns \<longleftrightarrow> (\<exists>n \<in> set ns. n = h \<or>
     (if has_prefix n ''*.'' then replace_all n ''*.'' [] else n) = parent_domain h)"
  by (induction ns) (auto simp: parent_domain_def Let_def)

lemma parent_domain_label: "CHR ''.'' \<notin> set l \<Longrightarrow> parent_domain (l @ ''.'' @ d) = d"
  by (simp add: parent_domain_def go_simps go_join_split)

text \<open>
  Which names a certificate matches: the names it lists, everything TLS lets its wildcard
  names cover, and, beyond TLS, also every host directly below a name it lists: a certificate for
  a plain domain matches all its direct subdomains.
\<close>

theorem cert_matches:
  "(\<forall>n \<in> set (cert_names c). covers n h \<longrightarrow> certMatches h c) \<and>
   (certMatches h c \<longrightarrow> (\<exists>n \<in> set (cert_names c). covers n h \<or> n = parent_domain h \<or>
      (has_prefix n ''*.'' \<and> replace_all n ''*.'' [] = parent_domain h))) \<and>
   (\<forall>n l. n \<in> set (cert_names c) \<and> CHR ''.'' \<notin> set l \<and> \<not> has_prefix n ''*.'' \<longrightarrow> certMatches (l @ ''.'' @ n) c)"
proof -
  have strip: "replace_all (''*.'' @ d) ''*.'' [] = d" if "\<not> sublist ''*.'' d" for d
  proof -
    have "replace_all (''*.'' @ d) ''*.'' [] = replace_all d ''*.'' []"
      by (simp add: go_simps)
    with that show ?thesis by (simp add: replace_all_absent)
  qed
  have pre: "has_prefix (''*.'' @ d) ''*.''" for d by (simp add: has_prefix_def)
  have cover: "certMatches h c" if "n \<in> set (cert_names c)" "covers n h" for n
    using that strip pre unfolding certMatches_def match_loop_iff covers_def by metis
  have below: "certMatches (l @ ''.'' @ n) c"
    if "n \<in> set (cert_names c)" "CHR ''.'' \<notin> set l" "\<not> has_prefix n ''*.''" for n l
    using that parent_domain_label [OF that(2), of n] unfolding certMatches_def match_loop_iff by metis
  have conv: "\<exists>n \<in> set (cert_names c). covers n h \<or> n = parent_domain h \<or>
      (has_prefix n ''*.'' \<and> replace_all n ''*.'' [] = parent_domain h)" if "certMatches h c"
    using that unfolding certMatches_def match_loop_iff covers_def by metis
  show ?thesis using cover below conv by blast
qed

text \<open>A certificate for a bare domain is taken for a host below it, which TLS clients reject.\<close>

theorem cert_matches_witness:
  "certMatches ''bar.foo.com'' (New ''arn'' ''foo.com'' []) \<and> \<not> covers ''foo.com'' ''bar.foo.com''"
proof
  show "certMatches ''bar.foo.com'' (New ''arn'' ''foo.com'' [])"
    using cert_matches [of "New ''arn'' ''foo.com'' []" "''bar.foo.com''"]
    by (auto simp: cert_names_def New_def has_prefix_def dest!: spec [of _ "''foo.com''"] spec [of _ "''bar''"])
qed (simp add: covers_def)

section \<open>Searching\<close>

lemma emits_visit_cert_page: "emits read_only (visit_cert_page w filt arns l s)"
  by (induction w filt arns l s rule: visit_cert_page.induct) (auto intro!: emits_intros simp: Let_def)

lemma emits_FindByFilter: "emits read_only (FindByFilter w filt)"
  unfolding FindByFilter_def split_beta Let_def
  by (intro emits_intros emits_visit_cert_page) simp

lemma emits_DiscoverByHost: "emits read_only (DiscoverByHost w hosts)"
  unfolding DiscoverByHost_def by (intro emits_intros emits_FindByFilter)

text \<open>Every certificate collected passed the filter.\<close>

lemma visit_cert_page_step:
  "visit_cert_page w filt (arn # arns) l (certs, err) t =
    (let t1 = t @ [DescribeCertificate arn] in
     case w_describe_certificate w t1 of
       Inl e \<Rightarrow> (case arn of None \<Rightarrow> (Panic, t1) | Some a \<Rightarrow> (Ok ((certs, Some (cert_error a e)), False), t1))
     | Inr detail \<Rightarrow> (case (acd_CertificateArn detail, acd_DomainName detail) of
         (Some a, Some dn) \<Rightarrow> visit_cert_page w filt arns l
            (if filt (new_cert a dn detail) then certs @ [new_cert a dn detail] else certs, err) t1
       | _ \<Rightarrow> (Panic, t1)))"
  by (auto simp: io_bind_def io_try_def io_call_def io_lift_def io_return_def deref_def Let_def
      split: option.split sum.split)

lemma visit_cert_page_filter:
  "visit_cert_page w filt arns l s t = (Ok (s', b), t') \<Longrightarrow> list_all filt (fst s) \<Longrightarrow> list_all filt (fst s')"
proof (induction arns arbitrary: s t)
  case (Cons arn arns)
  obtain certs err where s: "s = (certs, err)" by (cases s)
  from Cons.prems show ?case
    unfolding s visit_cert_page_step Let_def
    by (auto split: option.splits sum.splits if_splits dest!: Cons.IH)
qed (cases s; simp)

lemma for_pages_filter:
  "for_pages (visit_cert_page w filt) ps s t = (Ok (s', b), t') \<Longrightarrow> list_all filt (fst s) \<Longrightarrow> list_all filt (fst s')"
proof (induction ps arbitrary: s t)
  case (Cons p ps)
  obtain arns more where p: "p = (arns, more)" by (cases p)
  from Cons.prems(1) obtain s1 c t1 where 1: "visit_cert_page w filt arns (\<not> more) s t = (Ok (s1, c), t1)"
    and 2: "(if c then for_pages (visit_cert_page w filt) ps s1 else io_return (s1, True)) t1 = (Ok (s', b), t')"
    by (auto simp: p io_bind_Ok_iff split del: if_split)
  note s1 = visit_cert_page_filter [OF 1 Cons.prems(2)]
  show ?case
  proof (cases c)
    case True
    with 2 have "for_pages (visit_cert_page w filt) ps s1 t1 = (Ok (s', b), t')" by simp
    from Cons.IH [OF this s1] show ?thesis .
  next
    case False
    with 2 s1 show ?thesis by simp
  qed
qed simp

lemma FindByFilter_sound:
  assumes "FindByFilter w filt t = (Ok certs, t')"
  shows "list_all filt certs"
proof -
  from assms obtain ps s t1 t2 b where "for_pages (visit_cert_page w filt) ps ([], None) t1 = (Ok (s, b), t2)"
    and "certs = fst s"
    by (auto simp: FindByFilter_def list_pages_def io_bind_Ok_iff io_fail_def Let_def
        split: prod.splits option.splits)
  then show ?thesis using for_pages_filter by fastforce
qed

lemma visit_cert_page_continue:
  "visit_cert_page w filt arns l s t = (Ok (s', True), t') \<Longrightarrow> l"
proof (induction arns arbitrary: s t)
  case (Cons arn arns)
  obtain certs err where s: "s = (certs, err)" by (cases s)
  from Cons.prems show ?case
    unfolding s visit_cert_page_step Let_def
    by (auto split: option.splits sum.splits dest: Cons.IH split del: if_split)
qed (cases s; simp)

text \<open>After a page that is not the last one the listing stops, whatever pages follow.\<close>

lemma for_pages_first:
  "for_pages (visit_cert_page w filt) ((arns, True) # ps) s t =
   (case visit_cert_page w filt arns False s t of
      (Ok (s', c), t') \<Rightarrow> (Ok (s', True), t') | (Err e, t') \<Rightarrow> (Err e, t') | (Panic, t') \<Rightarrow> (Panic, t'))"
  by (auto simp: io_bind_def io_return_def split: prod.split outcome.split dest: visit_cert_page_continue)

lemma visit_cert_page_world:
  "w_describe_certificate w' = w_describe_certificate w \<Longrightarrow>
   visit_cert_page w' filt arns l s = visit_cert_page w filt arns l s"
  by (induction w filt arns l s rule: visit_cert_page.induct) simp_all

lemma FindByFilter_first:
  assumes "w_list_certificates w (t @ [ListCertificates ''ISSUED'']) = ((arns, True) # ps, err)"
    and "w_list_certificates w' (t @ [ListCertificates ''ISSUED'']) = ((arns, True) # ps', err')"
    and "w_describe_certificate w' = w_describe_certificate w"
  shows "FindByFilter w' filt t = FindByFilter w filt t"
  using assms(1,2) visit_cert_page_world [OF assms(3)]
  by (simp add: FindByFilter_def list_pages_def io_pages_def io_call_def io_bind_def for_pages_first
      io_return_def del: for_pages.simps split: prod.split outcome.split)

text \<open>
  C33. A certificate that is found matches every requested host, and finding one only reads. No
  certificate is ever taken from behind the first page of the listing: when there are more pages,
  the outcome is the same whatever they hold.
\<close>

theorem discover_by_host:
  assumes "w_list_certificates w (t @ [ListCertificates ''ISSUED'']) = ((arns, hasNext) # ps, err)"
  shows "(\<forall>c t'. DiscoverByHost w hosts t = (Ok c, t') \<longrightarrow> (\<forall>h \<in> set hosts. certMatches h c)) \<and>
     emits read_only (DiscoverByHost w hosts) \<and>
     (hasNext \<longrightarrow> DiscoverByHost w hosts t =
        DiscoverByHost (w\<lparr>w_list_certificates := (\<lambda>_. ((arns, True) # ps', err'))\<rparr>) hosts t)"
proof (intro conjI allI impI)
  fix c t' assume "DiscoverByHost w hosts t = (Ok c, t')"
  then obtain certs t1 where "FindByFilter w (matchingDomainFilter hosts) t = (Ok certs, t1)"
    and "certs \<noteq> []" and "c = hd certs"
    by (auto simp: DiscoverByHost_def io_bind_Ok_iff io_fail_def split: if_splits)
  then have "matchingDomainFilter hosts c"
    using FindByFilter_sound by (fastforce simp: list_all_iff)
  then show "\<forall>h \<in> set hosts. certMatches h c" by (simp add: matchingDomainFilter_def list_all_iff)
next
  show "emits read_only (DiscoverByHost w hosts)" by (rule emits_DiscoverByHost)
next
  assume hasNext
  then have "FindByFilter (w\<lparr>w_list_certificates := (\<lambda>_. ((arns, True) # ps', err'))\<rparr>)
      (matchingDomainFilter hosts) t = FindByFilter w (matchingDomainFilter hosts) t"
    using assms by (intro FindByFilter_first) simp_all
  then show "DiscoverByHost w hosts t =
        DiscoverByHost (w\<lparr>w_list_certificates := (\<lambda>_. ((arns, True) # ps', err'))\<rparr>) hosts t"
    by (simp add: DiscoverByHost_def io_bind_def io_wrap_def)
qed

text \<open>The certificate is on the second page, and not found.\<close>

definition two_pages_world :: world where
  "two_pages_world = some_world\<lparr>
     w_list_certificates := (\<lambda>_. ([([], True), ([Some ''arn''], False)], None)),
     w_describe_certificate := (\<lambda>_. Inr \<lparr>acd_CertificateArn = Some ''arn'', acd_DomainName = Some ''a.com'',
       acd_SubjectAlternativeNames = []\<rparr>)\<rparr>"

theorem discover_by_host_witness:
  "fst (DiscoverByHost two_pages_world [''a.com''] []) = Err ErrNoMatchingCert"
proof -
  have "DiscoverByHost two_pages_world [''a.com''] [] =
      DiscoverByHost (two_pages_world\<lparr>w_list_certificates := (\<lambda>_. ([([], True)], None))\<rparr>) [''a.com''] []"
    using discover_by_host [of two_pages_world "[]" "[]" True "[([Some ''arn''], False)]" None "[''a.com'']" "[]" None]
    by (simp add: two_pages_world_def)
  then show ?thesis
    by (simp add: DiscoverByHost_def FindByFilter_def list_pages_def io_pages_def io_call_def io_bind_def
        io_return_def io_wrap_def io_fail_def)
qed

section \<open>The contract with the service\<close>

record cert_service =
  certs_DiscoverByHost :: "string list \<Rightarrow> certificate api"

definition NewCertService :: "world \<Rightarrow> cert_service" where
  "NewCertService w = \<lparr>certs_DiscoverByHost = DiscoverByHost w\<rparr>"

locale cert_service_contract =
  fixes svc :: cert_service
  assumes discover_calls: "emits read_only (certs_DiscoverByHost svc hosts)"

interpretation cert_svc: cert_service_contract "NewCertService w" for w
  by unfold_locales (simp add: NewCertService_def emits_DiscoverByHost)

end
