(* ===== verification/Ingress_Fetcher.thy ===== *)
theory Ingress_Fetcher
  imports Cloud_Api Ingress_Props
begin

text \<open>
  \<open>internal/k8s/{ingress_fetcher,ingress_fetcher_v1,cdn_class_fetcher}.go\<close>: reading the Ingresses of
  the cluster and a CDN class. The interface \<open>IngressFetcher\<close> is a record of its method; the locale
  states what the service relies on.
\<close>

section \<open>Definitions\<close>

record ingress_fetcher =
  if_FetchBy :: "cdn_class \<Rightarrow> (cdn_ingress \<Rightarrow> bool) \<Rightarrow> cdn_ingress list api"

text \<open>The body of the loop over the listed Ingresses.\<close>

definition fetch_step ::
    "k8s_libs \<Rightarrow> cdn_class \<Rightarrow> (cdn_ingress \<Rightarrow> bool) \<Rightarrow> cdn_ingress list \<Rightarrow> ingress \<Rightarrow> cdn_ingress list outcome" where
  "fetch_step libs cdnClass pred result k8sIng =
     out_bind (NewCDNIngressFromV1 libs k8sIng cdnClass) (\<lambda>ing.
     if pred ing
     then out_bind (cdnIngressesForUserOrigins libs k8sIng) (\<lambda>userOriginsCDNIngresses.
       Ok ((result @ [ing]) @ userOriginsCDNIngresses))
     else Ok result)"

definition FetchBy ::
    "world \<Rightarrow> k8s_libs \<Rightarrow> cdn_class \<Rightarrow> (cdn_ingress \<Rightarrow> bool) \<Rightarrow> cdn_ingress list api" where
  "FetchBy w libs cdnClass pred =
     io_bind (io_wrap (ErrorfV ''listing Ingresses'') (io_call K8sListIngresses (w_list_ingresses w))) (\<lambda>items.
     io_lift (out_foldM (fetch_step libs cdnClass pred) [] items))"

definition NewIngressFetcherV1 :: "world \<Rightarrow> k8s_libs \<Rightarrow> ingress_fetcher" where
  "NewIngressFetcherV1 w libs = \<lparr>if_FetchBy = FetchBy w libs\<rparr>"

record class_fetcher =
  cf_FetchByName :: "string \<Rightarrow> cdn_class api"

definition FetchByName :: "world \<Rightarrow> string \<Rightarrow> cdn_class api" where
  "FetchByName w name = io_bind (io_call (K8sGetClass name) (w_get_class w)) (\<lambda>k8sClass.
     io_return (class_of k8sClass))"

definition NewCDNClassFetcher :: "world \<Rightarrow> class_fetcher" where
  "NewCDNClassFetcher w = \<lparr>cf_FetchByName = FetchByName w\<rparr>"

section \<open>What a fetch returns\<close>

text \<open>What one Ingress of the cluster adds to the result, when it can be read.\<close>

definition contributes ::
    "k8s_libs \<Rightarrow> cdn_class \<Rightarrow> (cdn_ingress \<Rightarrow> bool) \<Rightarrow> ingress \<Rightarrow> cdn_ingress list \<Rightarrow> bool" where
  "contributes libs class pred k part \<longleftrightarrow> (\<exists>ing. NewCDNIngressFromV1 libs k class = Ok ing \<and>
     (if pred ing then (\<exists>uo. cdnIngressesForUserOrigins libs k = Ok uo \<and> part = ing # uo) else part = []))"

lemma fetch_step_Ok_iff:
  "fetch_step libs class pred acc k = Ok res \<longleftrightarrow> (\<exists>part. contributes libs class pred k part \<and> res = acc @ part)"
  by (auto simp: fetch_step_def contributes_def out_bind_Ok_iff)

lemma fetch_loop_Ok_iff:
  "out_foldM (fetch_step libs class pred) acc items = Ok res \<longleftrightarrow>
     (\<exists>parts. list_all2 (contributes libs class pred) items parts \<and> res = acc @ concat parts)"
proof (induction items arbitrary: acc)
  case (Cons k items)
  have "out_foldM (fetch_step libs class pred) acc (k # items) = Ok res \<longleftrightarrow>
      (\<exists>part parts. contributes libs class pred k part \<and>
         list_all2 (contributes libs class pred) items parts \<and> res = (acc @ part) @ concat parts)"
    unfolding out_foldM.simps out_bind_Ok_iff fetch_step_Ok_iff Cons.IH by blast
  then show ?case unfolding list_all2_Cons1 by (metis append_assoc concat.simps(2))
qed auto

lemma fetch_by_iff:
  "FetchBy w libs class pred t = (Ok ings, t') \<longleftrightarrow>
     t' = t @ [K8sListIngresses] \<and>
     (\<exists>items parts. w_list_ingresses w t' = Inr items \<and>
        list_all2 (contributes libs class pred) items parts \<and> ings = concat parts)"
  by (auto simp: FetchBy_def io_bind_Ok_iff io_call_Ok_iff io_lift_Ok_iff fetch_loop_Ok_iff)

lemma fetch_calls_once: "snd (FetchBy w libs class pred t) = t @ [K8sListIngresses]"
  by (simp add: FetchBy_def io_bind_def io_wrap_def io_call_def io_lift_def split: sum.split)

text \<open>
  What the fetcher returns: it makes one listing, and succeeds exactly when every Ingress of the
  cluster can be translated (not only those of the group or the class at hand) and the user origins
  of the accepted ones can be read; the result is, in the order of the listing, every accepted
  Ingress followed by its user origins, which the predicate is not asked about.
\<close>

theorem fetch_by:
  "FetchBy w libs class pred t = (Ok ings, t') \<longleftrightarrow>
     t' = t @ [K8sListIngresses] \<and>
     (\<exists>items parts. w_list_ingresses w t' = Inr items \<and>
        list_all2 (contributes libs class pred) items parts \<and> ings = concat parts)"
  by (rule fetch_by_iff)

section \<open>The contract with the service\<close>

locale fetcher_contract =
  fixes fetcher :: ingress_fetcher
  assumes fetch_calls: "emits read_only (if_FetchBy fetcher class pred)"

lemma emits_FetchBy: "emits read_only (FetchBy w libs class pred)"
  unfolding FetchBy_def by (intro emits_intros) simp

interpretation v1_fetcher: fetcher_contract "NewIngressFetcherV1 w libs" for w libs
  by unfold_locales (simp add: NewIngressFetcherV1_def emits_FetchBy)

lemma emits_FetchByName: "emits read_only (FetchByName w name)"
  unfolding FetchByName_def by (intro emits_intros) simp

text \<open>The contract of \<open>CDNClassFetcher\<close> with the controller.\<close>

locale class_fetcher_contract =
  fixes classes :: class_fetcher
  assumes class_calls: "emits read_only (cf_FetchByName classes name)"

interpretation cdn_classes: class_fetcher_contract "NewCDNClassFetcher w" for w
  by unfold_locales (simp add: NewCDNClassFetcher_def emits_FetchByName)

text \<open>
  One Ingress whose tags or headers annotation cannot be read, in whatever group or class, makes
  every fetch of the controller fail.
\<close>

lemma fetch_poisoned:
  assumes "w_list_ingresses w (t @ [K8sListIngresses]) = Inr items" and "k \<in> set items"
    and "\<And>ing. NewCDNIngressFromV1 libs k class \<noteq> Ok ing"
  shows "FetchBy w libs class pred t \<noteq> (Ok ings, t')"
proof
  assume "FetchBy w libs class pred t = (Ok ings, t')"
  then obtain parts where "list_all2 (contributes libs class pred) items parts"
    using assms(1) by (auto simp: fetch_by_iff)
  with assms(2) obtain part where "contributes libs class pred k part"
    by (auto simp: list_all2_conv_all_nth in_set_conv_nth)
  with assms(3) show False by (auto simp: contributes_def)
qed

text \<open>No Ingress is accepted: the result is empty, and conversely.\<close>

lemma fetch_empty_iff:
  assumes "FetchBy w libs class pred t = (Ok ings, t')"
  shows "ings = [] \<longleftrightarrow> (\<exists>items. w_list_ingresses w t' = Inr items \<and>
    (\<forall>k \<in> set items. \<exists>ing. NewCDNIngressFromV1 libs k class = Ok ing \<and> \<not> pred ing))"
proof -
  from assms obtain items parts where items: "w_list_ingresses w t' = Inr items"
    and all: "list_all2 (contributes libs class pred) items parts" and ings: "ings = concat parts"
    by (auto simp: fetch_by_iff)
  have "concat parts = [] \<longleftrightarrow> (\<forall>k \<in> set items. \<exists>ing. NewCDNIngressFromV1 libs k class = Ok ing \<and> \<not> pred ing)"
    using all
  proof (induction rule: list_all2_induct)
    case (Cons k ks part parts)
    have "part = [] \<longleftrightarrow> (\<exists>ing. NewCDNIngressFromV1 libs k class = Ok ing \<and> \<not> pred ing)"
      using Cons.hyps(1) by (auto simp: contributes_def split: if_splits)
    with Cons.IH show ?case by simp
  qed simp
  with items ings show ?thesis by simp
qed

end
