(* ===== verification/Cdn_Service.thy ===== *)
theory Cdn_Service
  imports Dist_Repo Alias_Repo Certificate_Model Ingress_Fetcher
begin

text \<open>
  \<open>internal/cloudfront/service.go\<close>: the reconciliation of an Ingress. The service holds the
  interfaces it calls (repositories, fetcher, certificate service) as records of their methods;
  the Kubernetes client and the event recorder are the \<open>world\<close>. This theory holds the definitions;
  \<open>Service_Props\<close> states what they do.
\<close>

section \<open>The multierror library\<close>

text \<open>
  \<open>multierror.Append\<close> and \<open>ErrorOrNil\<close>; a nil \<open>*multierror.Error\<close> is \<open>None\<close>, another one is the list
  of its errors, whose length \<open>Len\<close> returns. As an \<open>error\<close> the value is \<open>MultiError\<close>.
\<close>

record multierr_lib =
  me_Append :: "go_error list option \<Rightarrow> go_error option list \<Rightarrow> go_error list"
  me_ErrorOrNil :: "go_error list option \<Rightarrow> go_error option"

fun flat_errors :: "go_error option \<Rightarrow> go_error list" where
  "flat_errors None = []"
| "flat_errors (Some (MultiError es)) = es"
| "flat_errors (Some e) = [e]"

text \<open>The documented behaviour: nil errors are dropped, multierrors are flattened.\<close>

definition multierr_spec :: "multierr_lib \<Rightarrow> bool" where
  "multierr_spec lib \<longleftrightarrow>
     (\<forall>m es. me_Append lib m es = (case m of None \<Rightarrow> [] | Some xs \<Rightarrow> xs) @ concat (map flat_errors es)) \<and>
     (\<forall>m. me_ErrorOrNil lib m = (case m of None \<Rightarrow> None | Some xs \<Rightarrow> if xs = [] then None else Some (MultiError xs)))"

section \<open>The service\<close>

record service =
  sv_world :: world
  sv_libs :: k8s_libs
  sv_multierr :: multierr_lib
  sv_cfg :: config
  sv_aliases :: alias_repository
  sv_dists :: distribution_repository
  sv_fetcher :: ingress_fetcher
  sv_certs :: cert_service
  sv_orders :: orders
  sv_ord_hosts :: "string order"
  sv_ord_paths :: "path_key order"
  sv_ord_fas :: "string order"

definition reasonFailed :: string where "reasonFailed = ''FailedToReconcile''"
definition reasonSuccess :: string where "reasonSuccess = ''SuccessfullyReconciled''"
definition EventTypeWarning :: string where "EventTypeWarning = ''Warning''"
definition EventTypeNormal :: string where "EventTypeNormal = ''Normal''"

abbreviation ing_target :: "ingress \<Rightarrow> event_target" where
  "ing_target ing \<equiv> OnIngress (om_namespace ing) (om_name ing)"

definition err_of :: "go_error + 'a \<Rightarrow> go_error option" where
  "err_of r = (case r of Inl e \<Rightarrow> Some e | Inr _ \<Rightarrow> None)"

subsection \<open>Reporting\<close>

definition recordFailureOnIngress :: "ingress \<Rightarrow> unit api" where
  "recordFailureOnIngress ing = io_notify (K8sEvent (ing_target ing) EventTypeWarning reasonFailed)"

definition handleFailure :: "go_error \<Rightarrow> ingress \<Rightarrow> 'a api" where
  "handleFailure err ing = io_bind (recordFailureOnIngress ing) (\<lambda>_. io_fail err)"

definition handleFailureWithStatus :: "go_error \<Rightarrow> ingress \<Rightarrow> cdn_status \<Rightarrow> unit api" where
  "handleFailureWithStatus err ing status =
     io_bind (recordFailureOnIngress ing) (\<lambda>_.
     io_bind (io_notify (K8sEvent (OnStatus (cs_name status)) EventTypeWarning reasonFailed)) (\<lambda>_.
     io_fail err))"

text \<open>The status is updated in memory only.\<close>

definition handleSuccess :: "ingress \<Rightarrow> cdn_status \<Rightarrow> cdn_status api" where
  "handleSuccess ing status =
     io_bind (io_notify (K8sEvent (ing_target ing) EventTypeNormal reasonSuccess)) (\<lambda>_.
     let status = SetDNSSync True status in
     io_bind (io_notify (K8sEvent (OnStatus (cs_name status)) EventTypeNormal reasonSuccess)) (\<lambda>_.
     io_return status))"

definition handleResult :: "ingress \<Rightarrow> cdn_status \<Rightarrow> go_error list \<Rightarrow> unit api" where
  "handleResult ing cdnStatus errs =
     (if length errs > 0 then handleFailureWithStatus (MultiError errs) ing cdnStatus
      else io_bind (handleSuccess ing cdnStatus) (\<lambda>_. io_return ()))"

subsection \<open>Computing the desired state\<close>

definition validateIngress :: "service \<Rightarrow> ingress \<Rightarrow> unit api" where
  "validateIngress s ing =
     io_bind (if length (UsedDeprecatedFields ing) > 0
       then io_notify (K8sEvent (ing_target ing) EventTypeWarning ''UsingDeprecatedFields'')
       else io_return ()) (\<lambda>_.
     io_lift (ValidateIngressFunctionAssociations (sv_libs s) (sv_ord_fas s) ing))"

definition validateCreation :: "service \<Rightarrow> distribution \<Rightarrow> ingress \<Rightarrow> unit outcome" where
  "validateCreation s desiredDist ing =
     (if Dist_Exists desiredDist \<or> Dist_IsEmpty desiredDist \<or> om_deletion ing \<noteq> None then Ok ()
      else if \<not> IsCreationAllowed (sv_cfg s) (om_namespace ing) (om_name ing)
      then Err (Errorf ''creation of new CloudFront distributions is blocked'' [])
      else Ok ())"

definition isPartOfDesiredState :: "cdn_ingress \<Rightarrow> cdn_ingress \<Rightarrow> bool" where
  "isPartOfDesiredState reconciling ing =
     (let isPartOfGroup = Group ing = Group reconciling;
          hasBeenProvisioned = length (OriginHost ing) > 0 in
      \<not> IsBeingRemoved ing \<and> isPartOfGroup \<and> hasBeenProvisioned)"

definition desiredIngresses :: "service \<Rightarrow> cdn_ingress \<Rightarrow> cdn_ingress list api" where
  "desiredIngresses s reconciling =
     io_wrap (ErrorfV ''listing active Ingresses that belong to group'')
       (if_FetchBy (sv_fetcher s) (Class reconciling) (isPartOfDesiredState reconciling))"

definition discoverCert :: "service \<Rightarrow> cdn_ingress list \<Rightarrow> certificate api" where
  "discoverCert s ingresses =
     (let alternateDomains = concat (map AlternateDomainNames ingresses) in
      io_wrap (ErrorfV ''alternate domains'') (certs_DiscoverByHost (sv_certs s) alternateDomains))"

definition s3Prefix :: "config \<Rightarrow> string \<Rightarrow> string" where
  "s3Prefix cfg grp =
     (if length (CloudFrontS3BucketLogPrefix cfg) = 0 then grp
      else CloudFrontS3BucketLogPrefix cfg @ ''/'' @ grp)"

definition keepCurrentWebACLConfig ::
    "service \<Rightarrow> distribution_builder \<Rightarrow> string \<Rightarrow> distribution_builder api" where
  "keepCurrentWebACLConfig s b distARN =
     io_bind (io_lift (extractID distARN)) (\<lambda>distributionID.
     io_bind (io_wrap (ErrorfV ''getting distribution config by ID'')
       (distr_ConfigByID (sv_dists s) distributionID)) (\<lambda>(cfg, _).
     io_return (case dc_WebACLId cfg of
       None \<Rightarrow> b
     | Some i \<Rightarrow> if length i > 0 then WithWebACL i b else b)))"

text \<open>The body of the loop over the Ingresses.\<close>

definition add_ingress :: "service \<Rightarrow> shared_params \<Rightarrow> distribution_builder \<Rightarrow> cdn_ingress \<Rightarrow> distribution_builder" where
  "add_ingress s shared b ing =
     AppendTags (Tags ing) (WithAlternateDomains (AlternateDomainNames ing)
       (WithOrigin (newOrigin (ord_behaviors (sv_orders s)) ing (sv_cfg s) shared) b))"

text \<open>What the configuration adds to the builder after the loop.\<close>

definition add_config :: "config \<Rightarrow> string \<Rightarrow> distribution_builder \<Rightarrow> distribution_builder" where
  "add_config cfg grp b =
     (let b = (if CloudFrontEnableIPV6 cfg then WithIPv6 b else b);
          b = (if CloudFrontEnableLogging cfg \<and> length (CloudFrontS3BucketLog cfg) > 0
               then WithLogging (CloudFrontS3BucketLog cfg) (s3Prefix cfg grp) b else b) in
      if length (CloudFrontCustomTags cfg) > 0 then AppendTags (CloudFrontCustomTags cfg) b else b)"

definition newDistribution ::
    "service \<Rightarrow> cdn_ingress list \<Rightarrow> string \<Rightarrow> shared_params \<Rightarrow> string \<Rightarrow> distribution api" where
  "newDistribution s ingresses grp shared distARN =
     (let cfg = sv_cfg s; b = NewDistributionBuilder grp cfg in
      io_bind (if TLSIsEnabled cfg
        then io_bind (io_wrap (ErrorfV ''discovering TLS cert'') (discoverCert s ingresses)) (\<lambda>cert.
          io_return (WithTLS (cert_arn cert) (CloudFrontSecurityPolicy cfg) b))
        else io_return b) (\<lambda>b.
      let b = add_config cfg grp (foldl (add_ingress s shared) b ingresses) in
      io_bind (if length (WebACLARN shared) > 0 then io_return (WithWebACL (WebACLARN shared) b)
        else if length distARN > 0
        then io_wrap (ErrorfV ''setting webacl config'') (keepCurrentWebACLConfig s b distARN)
        else io_return b) (\<lambda>b.
      io_bind (if length distARN > 0 then io_lift (WithARN distARN b) else io_return b) (\<lambda>b.
      io_lift (DistributionBuilder_Build (sv_orders s) b)))))"

definition desiredState :: "service \<Rightarrow> cdn_ingress \<Rightarrow> (cdn_ingress list \<times> distribution) api" where
  "desiredState s reconciling =
     io_bind (desiredIngresses s reconciling) (\<lambda>ings.
     io_bind (io_lift (out_wrap (ErrorfV ''shared ingress params'')
       (NewSharedIngressParams (sv_ord_hosts s) (sv_ord_paths s) ings))) (\<lambda>sharedParams.
     io_bind (io_try (distr_ARNByGroup (sv_dists s) (Group reconciling))) (\<lambda>r.
     io_bind (case r of
         Inr arn \<Rightarrow> io_return arn
       | Inl err \<Rightarrow> if \<not> errors_Is err ErrDistNotFound
           then io_fail (ErrorfV ''fetching existing CloudFront ID based on group'' err)
           else io_return []) (\<lambda>existingDistARN.
     io_bind (io_wrap (ErrorfV ''building desired distribution'')
       (newDistribution s ings (Group reconciling) sharedParams existingDistARN)) (\<lambda>desiredDist.
     io_return (ings, desiredDist))))))"

subsection \<open>The status\<close>

definition newCDNStatus :: "cdn_ingress list \<Rightarrow> distribution \<Rightarrow> cdn_status" where
  "newCDNStatus ings dist =
     foldl (\<lambda>status ing. SetIngressRef False (ci_namespace ing) (ci_name ing) status)
       (zero_cdn_status\<lparr>cs_name := dist_Group dist\<rparr>) ings"

definition fetchOrGenerateCDNStatus :: "service \<Rightarrow> cdn_ingress list \<Rightarrow> distribution \<Rightarrow> cdn_status api" where
  "fetchOrGenerateCDNStatus s desiredIngs dist =
     io_bind (io_try (io_call (K8sGetStatus (dist_Group dist)) (w_get_status (sv_world s)))) (\<lambda>r. case r of
       Inl err \<Rightarrow> if is_not_found err then io_return (newCDNStatus desiredIngs dist)
         else io_fail (ErrorfV ''fetching CDNStatus'' err)
     | Inr status \<Rightarrow> io_return status)"

text \<open>The second component is the error; a failed creation leaves the object as it was.\<close>

definition upsertCDNStatus :: "service \<Rightarrow> cdn_status \<Rightarrow> (cdn_status \<times> go_error option) api" where
  "upsertCDNStatus s status =
     io_bind (if \<not> Status_Exists status
       then io_try (io_call (K8sCreateStatus status) (w_create_status (sv_world s)))
       else io_return (Inr status)) (\<lambda>created. case created of
       Inl err \<Rightarrow> io_return (status, Some err)
     | Inr status \<Rightarrow>
         io_bind (io_try (io_call (K8sUpdateStatus status) (w_update_status (sv_world s)))) (\<lambda>updated.
         case updated of
           Inl err \<Rightarrow> io_return (status, Some err)
         | Inr status \<Rightarrow> io_return (status, None)))"

definition deleteCDNStatus :: "service \<Rightarrow> cdn_status \<Rightarrow> go_error option api" where
  "deleteCDNStatus s cdnStatus =
     io_bind (io_try (io_call (K8sDeleteStatus cdnStatus) (w_delete_status (sv_world s)))) (\<lambda>r.
     io_return (case r of
       Inl err \<Rightarrow> if \<not> is_not_found err then Some err else None
     | Inr _ \<Rightarrow> None))"

subsection \<open>The distribution\<close>

definition updateDistribution :: "service \<Rightarrow> distribution \<Rightarrow> distribution api" where
  "updateDistribution s dist = io_wrap (ErrorfV ''updating Distribution'') (distr_Sync (sv_dists s) dist)"

definition createDistribution :: "service \<Rightarrow> distribution \<Rightarrow> distribution api" where
  "createDistribution s dist = io_wrap (ErrorfV ''creating Distribution'') (distr_Create (sv_dists s) dist)"

definition deleteDistribution :: "service \<Rightarrow> distribution \<Rightarrow> unit api" where
  "deleteDistribution s dist =
     (if \<not> Dist_Exists dist then io_return ()
      else if \<not> DeletionEnabled (sv_cfg s) then io_return ()
      else distr_Delete (sv_dists s) dist)"

definition upsertDistribution ::
    "service \<Rightarrow> distribution \<Rightarrow> cdn_status \<Rightarrow> ingress \<Rightarrow> (distribution \<times> go_error option \<times> cdn_status) api" where
  "upsertDistribution s dist status ing =
     io_bind (io_try (if Dist_Exists dist then updateDistribution s dist else createDistribution s dist)) (\<lambda>r.
     let status = SetIngressRef (err_of r = None) (om_namespace ing) (om_name ing) status in
     io_return (case r of
       Inl err \<Rightarrow> (zero_distribution, Some err, status)
     | Inr existingDist \<Rightarrow> (existingDist, None,
         SetAliases (dist_AlternateDomains existingDist)
           (SetInfo (dist_ID existingDist) (dist_ARN existingDist) (dist_Address existingDist) status))))"

definition syncDist ::
    "service \<Rightarrow> distribution \<Rightarrow> cdn_status \<Rightarrow> ingress \<Rightarrow> (distribution \<times> go_error option \<times> cdn_status) api" where
  "syncDist s desiredDist cdnStatus ing =
     (if Dist_IsEmpty desiredDist
      then io_bind (io_try (deleteDistribution s desiredDist)) (\<lambda>r.
        io_return (desiredDist, err_of r, cdnStatus))
      else upsertDistribution s desiredDist cdnStatus ing)"

subsection \<open>The aliases\<close>

definition getDeletions :: "string list \<Rightarrow> string list \<Rightarrow> string list" where
  "getDeletions desiredDomains currentDomains = filter (\<lambda>d. \<not> contains desiredDomains d) currentDomains"

definition newAliases ::
    "service \<Rightarrow> distribution \<Rightarrow> cdn_status \<Rightarrow> cdn_class \<Rightarrow> aliases \<times> aliases" where
  "newAliases s dist status class =
     (let deleting = (case cs_dns status of
            None \<Rightarrow> []
          | Some d \<Rightarrow> getDeletions (NormalizeDomains (dist_AlternateDomains dist)) (dns_records d));
          deleting = (if \<not> DeletionEnabled (sv_cfg s) then [] else deleting) in
      (NewAliases (dist_Address dist) (HostedZoneID class) (TXTOwnerValue class)
         (dist_AlternateDomains dist) (dist_IPv6Enabled dist),
       NewAliases (dist_Address dist) (HostedZoneID class) (TXTOwnerValue class)
         deleting (dist_IPv6Enabled dist)))"

definition syncAliases ::
    "service \<Rightarrow> cdn_status \<Rightarrow> distribution \<Rightarrow> cdn_class \<Rightarrow> (cdn_status \<times> go_error option) api" where
  "syncAliases s cdnStatus dist class =
     (let (upserting, deleting) = newAliases s dist cdnStatus class in
      io_bind (io_try (ar_Upsert (sv_aliases s) upserting)) (\<lambda>up.
      let errUpsert = err_of up;
          st = (if errUpsert = None then UpsertDNSRecords (Domains upserting) cdnStatus else cdnStatus) in
      io_bind (io_try (ar_Delete (sv_aliases s) deleting)) (\<lambda>del.
      let errDelete = err_of del;
          st = (if errDelete = None then RemoveDNSRecords (Domains deleting) st else st) in
      io_return (if errUpsert \<noteq> None \<or> errDelete \<noteq> None
        then (SetDNSSync False st,
              me_ErrorOrNil (sv_multierr s) (Some (me_Append (sv_multierr s) None [errUpsert, errDelete])))
        else (st, me_ErrorOrNil (sv_multierr s) None)))))"

subsection \<open>The finalizer\<close>

text \<open>The error and the object after the request: the response on success.\<close>

definition reconcileFinalizer :: "service \<Rightarrow> ingress \<Rightarrow> bool \<Rightarrow> (go_error option \<times> ingress) api" where
  "reconcileFinalizer s obj shouldHaveFinalizer =
     (let obj = (if shouldHaveFinalizer then AddFinalizer (sv_libs s) obj else RemoveFinalizer (sv_libs s) obj) in
      io_bind (io_try (io_call (K8sUpdateIngress obj) (w_update_ingress (sv_world s)))) (\<lambda>r.
      io_return (case r of Inl err \<Rightarrow> (Some err, obj) | Inr obj' \<Rightarrow> (None, obj'))))"

section \<open>Reconcile\<close>

text \<open>Making the world match the desired state: the second half of \<open>Reconcile\<close>.\<close>

definition reconcile_aws ::
    "service \<Rightarrow> ingress \<Rightarrow> cdn_class \<Rightarrow> distribution \<Rightarrow> cdn_status \<Rightarrow> (cdn_status \<times> go_error list) api" where
  "reconcile_aws s ing class desiredDist cdnStatus =
     io_bind (syncDist s desiredDist cdnStatus ing) (\<lambda>(existingDist, err, cdnStatus).
     let errs = me_Append (sv_multierr s) (Some []) [err] in
     if CreateAlias class
     then io_bind (syncAliases s cdnStatus existingDist class) (\<lambda>(cdnStatus, err).
       io_return (cdnStatus, me_Append (sv_multierr s) (Some errs) [err]))
     else io_return (cdnStatus, errs))"

definition reconcile_k8s ::
    "service \<Rightarrow> ingress \<Rightarrow> distribution \<Rightarrow> cdn_status \<Rightarrow> go_error list \<Rightarrow> unit api" where
  "reconcile_k8s s ing desiredDist cdnStatus errs =
     (let shouldHaveFinalizer = length errs > 0 \<or> \<not> IsBeingRemovedFromDesiredState ing in
      io_bind (reconcileFinalizer s ing shouldHaveFinalizer) (\<lambda>(err, ing).
      let errs = (case err of
            None \<Rightarrow> errs
          | Some e \<Rightarrow> me_Append (sv_multierr s) (Some errs) [Some (ErrorfV ''reconciling finalizer for ingress'' e)]);
          cdnStatus = (if length errs = 0 \<and> IsBeingRemovedFromDesiredState ing
            then RemoveIngressRef (om_namespace ing) (om_name ing) cdnStatus else cdnStatus) in
      io_bind (if length errs = 0 \<and> Dist_IsEmpty desiredDist
        then io_bind (deleteCDNStatus s cdnStatus) (\<lambda>err. io_return (cdnStatus, err))
        else upsertCDNStatus s cdnStatus) (\<lambda>(cdnStatus, err).
      handleResult ing cdnStatus (me_Append (sv_multierr s) (Some errs) [err]))))"

text \<open>What is needed before anything is changed.\<close>

definition reconcile_plan ::
    "service \<Rightarrow> ingress \<Rightarrow> cdn_ingress \<Rightarrow> (distribution \<times> cdn_status) api" where
  "reconcile_plan s ing reconciling =
     io_bind (io_wrap (ErrorfV ''computing desired state'') (desiredState s reconciling)) (\<lambda>(desiredIngs, desiredDist).
     io_bind (io_lift (validateCreation s desiredDist ing)) (\<lambda>_.
     io_bind (io_wrap (ErrorfV ''validating creation'')
       (fetchOrGenerateCDNStatus s desiredIngs desiredDist)) (\<lambda>cdnStatus.
     io_return (desiredDist, cdnStatus))))"

definition Reconcile :: "service \<Rightarrow> ingress \<Rightarrow> cdn_class \<Rightarrow> unit api" where
  "Reconcile s ing class =
     io_bind (io_try (io_wrap (ErrorfV ''validating Ingress'') (validateIngress s ing))) (\<lambda>v. case v of
       Inl err \<Rightarrow> handleFailure err ing
     | Inr _ \<Rightarrow>
     io_bind (io_try (io_lift (NewCDNIngressFromV1 (sv_libs s) ing class))) (\<lambda>r. case r of
       Inl err \<Rightarrow> handleFailure err ing
     | Inr reconciling \<Rightarrow>
     if HasFinalizer ing \<and> \<not> HasGroupAnnotation ing
     then io_bind (reconcileFinalizer s ing False) (\<lambda>(err, _). fail_or_return err)
     else io_bind (io_try (reconcile_plan s ing reconciling)) (\<lambda>plan. case plan of
       Inl err \<Rightarrow> handleFailure err ing
     | Inr (desiredDist, cdnStatus) \<Rightarrow>
     io_bind (reconcile_aws s ing (Class reconciling) desiredDist cdnStatus) (\<lambda>(cdnStatus, errs).
     reconcile_k8s s ing desiredDist cdnStatus errs))))"

end
