(* ===== verification/Desired_State.thy ===== *)
theory Desired_State
  imports Cdn_Service
begin

text \<open>
  The first half of a reconciliation: what \<open>newDistribution\<close> builds from the Ingresses of a group, and
  that computing the desired state only reads.
\<close>

section \<open>The builder's fields\<close>

lemma WithAlternateDomains_eq:
  "WithAlternateDomains ds b = b\<lparr>db_alternateDomains := add_all_absent (db_alternateDomains b) ds\<rparr>"
proof (induction ds arbitrary: b)
  case (Cons x ds)
  then show ?case
    by (simp add: WithAlternateDomains_def add_all_absent_def add_if_absent_def contains_def list_ex_iff)
qed (simp add: WithAlternateDomains_def)

lemmas builder_ops = WithOrigin_def WithAlternateDomains_eq AppendTags_def WithIPv6_def WithLogging_def
  WithTLS_def WithWebACL_def

definition put_origins :: "(string, origin) gomap \<Rightarrow> origin list \<Rightarrow> (string, origin) gomap" where
  "put_origins m as = fold (\<lambda>a. AList.update (or_Host a) a) as m"

lemma db_customOrigins_fold: "db_customOrigins (fold WithOrigin as b) = put_origins (db_customOrigins b) as"
  unfolding put_origins_def by (induction as arbitrary: b) (simp_all add: WithOrigin_def)

abbreviation ingress_origin :: "service \<Rightarrow> shared_params \<Rightarrow> cdn_ingress \<Rightarrow> origin" where
  "ingress_origin s shared ing \<equiv> newOrigin (ord_behaviors (sv_orders s)) ing (sv_cfg s) shared"

lemma add_ingress_fields [simp]:
  "db_customOrigins (add_ingress s shared b ing) =
     AList.update (or_Host (ingress_origin s shared ing)) (ingress_origin s shared ing) (db_customOrigins b)"
  "db_alternateDomains (add_ingress s shared b ing) = add_all_absent (db_alternateDomains b) (AlternateDomainNames ing)"
  "db_group (add_ingress s shared b ing) = db_group b" "db_id (add_ingress s shared b ing) = db_id b"
  "db_arn (add_ingress s shared b ing) = db_arn b" "db_tls (add_ingress s shared b ing) = db_tls b"
  "db_webACLID (add_ingress s shared b ing) = db_webACLID b"
  "db_ipv6Enabled (add_ingress s shared b ing) = db_ipv6Enabled b"
  "db_defaultOriginDomain (add_ingress s shared b ing) = db_defaultOriginDomain b"
  by (simp_all add: add_ingress_def builder_ops)

lemma add_ingresses_fields [simp]:
  "db_customOrigins (foldl (add_ingress s shared) b ings) = put_origins (db_customOrigins b) (map (ingress_origin s shared) ings)"
  "db_group (foldl (add_ingress s shared) b ings) = db_group b" "db_id (foldl (add_ingress s shared) b ings) = db_id b"
  "db_arn (foldl (add_ingress s shared) b ings) = db_arn b" "db_tls (foldl (add_ingress s shared) b ings) = db_tls b"
  "db_webACLID (foldl (add_ingress s shared) b ings) = db_webACLID b"
  "db_ipv6Enabled (foldl (add_ingress s shared) b ings) = db_ipv6Enabled b"
  "db_defaultOriginDomain (foldl (add_ingress s shared) b ings) = db_defaultOriginDomain b"
  by (induction ings arbitrary: b) (simp_all add: put_origins_def)

lemma add_ingresses_domains [simp]:
  "set (db_alternateDomains (foldl (add_ingress s shared) b ings)) =
     set (db_alternateDomains b) \<union> (\<Union>ing \<in> set ings. set (AlternateDomainNames ing))"
  by (induction ings arbitrary: b) auto

lemma add_config_fields [simp]:
  "db_customOrigins (add_config cfg g b) = db_customOrigins b"
  "db_alternateDomains (add_config cfg g b) = db_alternateDomains b"
  "db_group (add_config cfg g b) = db_group b" "db_id (add_config cfg g b) = db_id b"
  "db_arn (add_config cfg g b) = db_arn b" "db_tls (add_config cfg g b) = db_tls b"
  "db_webACLID (add_config cfg g b) = db_webACLID b"
  "db_ipv6Enabled (add_config cfg g b) = (CloudFrontEnableIPV6 cfg \<or> db_ipv6Enabled b)"
  "db_defaultOriginDomain (add_config cfg g b) = db_defaultOriginDomain b"
  by (simp_all add: add_config_def Let_def builder_ops)

section \<open>The steps of newDistribution\<close>

text \<open>What the whole construction leaves in the builder it hands to \<open>Build\<close>.\<close>

definition final_builder ::
    "service \<Rightarrow> cdn_ingress list \<Rightarrow> string \<Rightarrow> shared_params \<Rightarrow> string \<Rightarrow> distribution_builder \<Rightarrow> bool" where
  "final_builder s ings grp shared arn b \<longleftrightarrow>
     db_customOrigins b = put_origins [] (map (ingress_origin s shared) ings) \<and>
     set (db_alternateDomains b) = (\<Union>ing \<in> set ings. set (AlternateDomainNames ing)) \<and>
     db_group b = grp \<and> db_arn b = arn \<and> db_defaultOriginDomain b = DefaultOriginDomain (sv_cfg s) \<and>
     (if arn = [] then db_id b = [] else extractID arn = Ok (db_id b)) \<and>
     db_ipv6Enabled b = CloudFrontEnableIPV6 (sv_cfg s) \<and>
     tls_Enabled (db_tls b) = TLSIsEnabled (sv_cfg s) \<and>
     (WebACLARN shared \<noteq> [] \<longrightarrow> db_webACLID b = WebACLARN shared) \<and>
     (WebACLARN shared = [] \<and> arn = [] \<longrightarrow> db_webACLID b = [])"

lemma keepCurrentWebACLConfig_fields:
  assumes "keepCurrentWebACLConfig s b arn t = (Ok b', t')"
  shows "\<exists>i. b' = b\<lparr>db_webACLID := i\<rparr>"
proof -
  have "\<exists>i. b = b\<lparr>db_webACLID := i\<rparr>" by (rule exI [of _ "db_webACLID b"]) simp
  with assms show ?thesis
    by (auto simp: keepCurrentWebACLConfig_def io_bind_Ok_iff io_lift_Ok_iff WithWebACL_def
        split: option.splits if_splits)
qed

lemma newDistribution_builder:
  assumes "newDistribution s ings grp shared arn t = (Ok d, t')"
  shows "\<exists>b. final_builder s ings grp shared arn b \<and> DistributionBuilder_Build (sv_orders s) b = Ok d"
proof -
  let ?cfg = "sv_cfg s"
  let ?b0 = "NewDistributionBuilder grp ?cfg"
  let ?mk = "\<lambda>b. add_config ?cfg grp (foldl (add_ingress s shared) b ings)"
  from assms obtain b1 t1 b2 t2 b3 t3 where
    1: "(if TLSIsEnabled ?cfg
        then io_bind (io_wrap (ErrorfV ''discovering TLS cert'') (discoverCert s ings)) (\<lambda>cert.
          io_return (WithTLS (cert_arn cert) (CloudFrontSecurityPolicy ?cfg) ?b0))
        else io_return ?b0) t = (Ok b1, t1)" and
    2: "(if length (WebACLARN shared) > 0 then io_return (WithWebACL (WebACLARN shared) (?mk b1))
        else if length arn > 0
        then io_wrap (ErrorfV ''setting webacl config'') (keepCurrentWebACLConfig s (?mk b1) arn)
        else io_return (?mk b1)) t1 = (Ok b2, t2)" and
    3: "(if length arn > 0 then io_lift (WithARN arn b2) else io_return b2) t2 = (Ok b3, t3)" and
    4: "io_lift (DistributionBuilder_Build (sv_orders s) b3) t3 = (Ok d, t')"
    unfolding newDistribution_def Let_def io_bind_Ok_iff by blast
  have b1: "db_customOrigins b1 = [] \<and> db_alternateDomains b1 = [] \<and> db_group b1 = grp \<and> db_arn b1 = [] \<and>
      db_id b1 = [] \<and> db_defaultOriginDomain b1 = DefaultOriginDomain ?cfg \<and> \<not> db_ipv6Enabled b1 \<and> tls_Enabled (db_tls b1) = TLSIsEnabled ?cfg \<and> db_webACLID b1 = []"
    using 1 by (auto simp: io_bind_Ok_iff builder_ops NewDistributionBuilder_def zero_tls_def split: if_splits)
  have b2: "\<exists>i. b2 = (?mk b1)\<lparr>db_webACLID := i\<rparr> \<and> (WebACLARN shared \<noteq> [] \<longrightarrow> i = WebACLARN shared) \<and>
      (WebACLARN shared = [] \<and> arn = [] \<longrightarrow> i = db_webACLID (?mk b1))"
  proof (cases "WebACLARN shared = [] \<and> arn \<noteq> []")
    case True
    with 2 have "keepCurrentWebACLConfig s (?mk b1) arn t1 = (Ok b2, t2)" by simp
    from keepCurrentWebACLConfig_fields [OF this] True show ?thesis by blast
  next
    case False
    then show ?thesis
    proof (cases "WebACLARN shared = []")
      case True
      with False 2 have "b2 = ?mk b1" by simp
      with True False show ?thesis by (intro exI [of _ "db_webACLID (?mk b1)"]) simp
    next
      case False
      with 2 have "b2 = (?mk b1)\<lparr>db_webACLID := WebACLARN shared\<rparr>" by (simp add: WithWebACL_def)
      with False show ?thesis by blast
    qed
  qed
  then obtain i where b2: "b2 = (?mk b1)\<lparr>db_webACLID := i\<rparr>" and
    i: "WebACLARN shared \<noteq> [] \<longrightarrow> i = WebACLARN shared" "WebACLARN shared = [] \<and> arn = [] \<longrightarrow> i = db_webACLID (?mk b1)"
    by blast
  have "final_builder s ings grp shared arn b3"
  proof (cases "arn = []")
    case True
    with 3 have "b3 = b2" by simp
    with True b1 b2 i show ?thesis by (simp add: final_builder_def)
  next
    case False
    with 3 obtain x where "extractID arn = Ok x" "b3 = b2\<lparr>db_id := x, db_arn := arn\<rparr>"
      by (auto simp: io_lift_Ok_iff WithARN_def out_bind_Ok_iff)
    with False b1 b2 i show ?thesis by (simp add: final_builder_def)
  qed
  with 4 show ?thesis by (auto simp: io_lift_Ok_iff)
qed

section \<open>The desired distribution\<close>

lemma put_origins_keyed:
  "keyed (put_origins [] as)"
  "map_of (put_origins [] as) h = last_for as h"
proof -
  let ?b = "NewDistributionBuilder [] sample_cfg"
  have b: "db_customOrigins ?b = []" by (simp add: NewDistributionBuilder_def)
  note f = fold_WithOrigin [of ?b as, unfolded b db_customOrigins_fold, OF keyed_Nil]
  show "keyed (put_origins [] as)" using f by blast
  show "map_of (put_origins [] as) h = last_for as h" using f [of h] by (simp split: option.splits)
qed

lemma last_for_iff:
  "(\<exists>a. last_for as h = Some a) \<longleftrightarrow> h \<in> or_Host ` set as"
  "last_for as h = Some a \<Longrightarrow> or_Host a = h \<and> a \<in> set as"
  unfolding last_for_def
   apply (metis (mono_tags, lifting) find_None_iff2 imageE image_eqI not_None_eq set_rev)
  by (metis (mono_tags, lifting) find_Some_iff nth_mem set_rev)

lemma newOrigin_Host [simp]: "or_Host (newOrigin ord ing cfg shared) = OriginHost ing"
  if "is_order ord"
  using that by (simp add: newOrigin_eq)

lemma last_for_hosts:
  assumes "set xs = {a. last_for as (or_Host a) = Some a}"
  shows "or_Host ` set xs = or_Host ` set as"
proof (intro equalityI subsetI)
  fix h assume "h \<in> or_Host ` set xs"
  then show "h \<in> or_Host ` set as" using assms last_for_iff(1) by blast
next
  fix h assume "h \<in> or_Host ` set as"
  then obtain a where a: "last_for as h = Some a" using last_for_iff(1) by blast
  then have "or_Host a = h" using last_for_iff(2) by blast
  with a assms show "h \<in> or_Host ` set xs" by blast
qed

lemma desired_facts:
  assumes "wf_orders (sv_orders s)" and "newDistribution s ings grp shared arn t = (Ok d, t')"
  shows "dist_Group d = grp \<and> dist_ARN d = arn \<and>
     (if arn = [] then dist_ID d = [] else extractID arn = Ok (dist_ID d)) \<and>
     distinct (map or_Host (dist_CustomOrigins d)) \<and>
     set (map or_Host (dist_CustomOrigins d)) = OriginHost ` set ings \<and>
     set (dist_CustomOrigins d) = {a. last_for (map (ingress_origin s shared) ings) (or_Host a) = Some a} \<and>
     set (dist_AlternateDomains d) = (\<Union>ing \<in> set ings. set (AlternateDomainNames ing)) \<and>
     dist_IPv6Enabled d = CloudFrontEnableIPV6 (sv_cfg s) \<and>
     tls_Enabled (dist_TLS d) = TLSIsEnabled (sv_cfg s) \<and>
     or_Host (dist_DefaultOrigin d) = DefaultOriginDomain (sv_cfg s) \<and>
     dist_WebACLID d \<in> (if WebACLARN shared \<noteq> [] then {WebACLARN shared} else if arn = [] then {[]} else UNIV)"
proof -
  obtain b where b: "final_builder s ings grp shared arn b" and build: "DistributionBuilder_Build (sv_orders s) b = Ok d"
    using newDistribution_builder [OF assms(2)] by blast
  have keyed: "keyed (db_customOrigins b)" using b put_origins_keyed(1) by (simp add: final_builder_def)
  have look: "map_of (db_customOrigins b) h = last_for (map (ingress_origin s shared) ings) h" for h
    using b put_origins_keyed(2) by (simp add: final_builder_def)
  note origins = Build_Ok_origins [OF assms(1) keyed build, unfolded look]
  have ord: "is_order (ord_behaviors (sv_orders s))" using assms(1) by (simp add: wf_orders_def)
  have hosts: "or_Host ` set (map (ingress_origin s shared) ings) = OriginHost ` set ings"
    by (simp add: image_image ord)
  have "set (map or_Host (dist_CustomOrigins d)) = OriginHost ` set ings"
    using last_for_hosts [OF origins(2)] unfolding hosts by simp
  moreover obtain as where "d = (build_draft (sv_orders s) b)\<lparr>dist_CustomOrigins := as\<rparr>"
    using Build_Ok_fields [OF build] by blast
  then have "dist_Group d = db_group b" "dist_ARN d = db_arn b" "dist_ID d = db_id b"
    "dist_AlternateDomains d = db_alternateDomains b" "dist_IPv6Enabled d = db_ipv6Enabled b"
    "dist_TLS d = db_tls b" "dist_WebACLID d = db_webACLID b"
    "or_Host (dist_DefaultOrigin d) = db_defaultOriginDomain b"
    by (simp_all add: build_draft_def)
  ultimately show ?thesis using b origins unfolding final_builder_def by simp
qed

text \<open>
  C14. The distribution a group of Ingresses stands for, for every iteration order of the maps: it
  belongs to the group; its identifier is the part of the existing ARN after the slash, or empty
  when there is none; it has exactly one origin per host of the Ingresses, translated from the last
  Ingress with that host; its aliases are the alternate domain names of all of them; TLS and IPv6
  are those of the configuration; and a Web ACL declared by the Ingresses wins over the existing one.
\<close>

theorem desired_distribution:
  assumes "wf_orders (sv_orders s)" and "newDistribution s ings grp shared arn t = (Ok d, t')"
  shows "dist_Group d = grp \<and> dist_ARN d = arn \<and>
     (if arn = [] then dist_ID d = [] else extractID arn = Ok (dist_ID d)) \<and>
     distinct (map or_Host (dist_CustomOrigins d)) \<and>
     set (map or_Host (dist_CustomOrigins d)) = OriginHost ` set ings \<and>
     set (dist_CustomOrigins d) = {a. last_for (map (ingress_origin s shared) ings) (or_Host a) = Some a} \<and>
     set (dist_AlternateDomains d) = (\<Union>ing \<in> set ings. set (AlternateDomainNames ing)) \<and>
     dist_IPv6Enabled d = CloudFrontEnableIPV6 (sv_cfg s) \<and>
     tls_Enabled (dist_TLS d) = TLSIsEnabled (sv_cfg s) \<and>
     dist_WebACLID d \<in> (if WebACLARN shared \<noteq> [] then {WebACLARN shared} else if arn = [] then {[]} else UNIV)"
  using desired_facts [OF assms] by blast

text \<open>A service for examples that never calls anything but an empty account.\<close>

definition quiet_service :: service where
  "quiet_service = \<lparr>sv_world = some_world, sv_libs = sample_libs,
     sv_multierr = \<lparr>me_Append = \<lambda>m es. [], me_ErrorOrNil = \<lambda>m. None\<rparr>,
     sv_cfg = sample_cfg\<lparr>CloudFrontSecurityPolicy := []\<rparr>, sv_aliases = NewAliasRepository some_world,
     sv_dists = NewDistRepository (sample_repo some_world False), sv_fetcher = NewIngressFetcherV1 some_world sample_libs,
     sv_certs = NewCertService some_world, sv_orders = sample_orders, sv_ord_hosts = rev, sv_ord_paths = rev,
     sv_ord_fas = rev\<rparr>"

definition two_hosts :: "cdn_ingress list" where
  "two_hosts = [blank_ing\<lparr>OriginHost := ''a''\<rparr>, blank_ing\<lparr>OriginHost := ''b''\<rparr>, blank_ing\<lparr>OriginHost := ''a''\<rparr>]"

lemma quiet_builds:
  "\<exists>d t'. newDistribution quiet_service two_hosts ''g'' \<lparr>WebACLARN = ''acl'', sp_paths = []\<rparr> [] [] = (Ok d, t')"
proof -
  have "case fst (newDistribution quiet_service two_hosts ''g'' \<lparr>WebACLARN = ''acl'', sp_paths = []\<rparr> [] []) of
      Ok _ \<Rightarrow> True | _ \<Rightarrow> False"
    by code_simp
  then show ?thesis
    by (cases "newDistribution quiet_service two_hosts ''g'' \<lparr>WebACLARN = ''acl'', sp_paths = []\<rparr> [] []")
      (simp split: outcome.splits)
qed

theorem desired_distribution_witness:
  "\<exists>d t'. newDistribution quiet_service two_hosts ''g'' \<lparr>WebACLARN = ''acl'', sp_paths = []\<rparr> [] [] = (Ok d, t') \<and>
     set (map or_Host (dist_CustomOrigins d)) = {''a'', ''b''} \<and> dist_WebACLID d = ''acl''"
proof -
  obtain d t' where run: "newDistribution quiet_service two_hosts ''g'' \<lparr>WebACLARN = ''acl'', sp_paths = []\<rparr> [] [] = (Ok d, t')"
    using quiet_builds by blast
  have wf: "wf_orders (sv_orders quiet_service)" by (simp add: quiet_service_def wf_orders_def sample_orders_def)
  have hosts: "OriginHost ` set two_hosts = {''a'', ''b''}" by (auto simp: two_hosts_def)
  note r = desired_distribution [OF wf run]
  have "set (map or_Host (dist_CustomOrigins d)) = {''a'', ''b''}" using r unfolding hosts by blast
  moreover have "dist_WebACLID d \<in> {''acl''}" using r by simp
  ultimately show ?thesis using run by blast
qed

text \<open>The identifier comes from the existing ARN.\<close>

lemma desired_id:
  assumes "newDistribution s ings grp shared arn t = (Ok d, t')"
  shows "if arn = [] then dist_ID d = [] else extractID arn = Ok (dist_ID d)"
proof -
  obtain b where b: "final_builder s ings grp shared arn b" and build: "DistributionBuilder_Build (sv_orders s) b = Ok d"
    using newDistribution_builder [OF assms] by blast
  have "dist_ID d = db_id b" using Build_Ok_fields [OF build] by (auto simp: build_draft_def)
  with b show ?thesis by (simp add: final_builder_def)
qed

text \<open>A group without active Ingresses, and only it, has an empty distribution.\<close>

lemma desired_empty_iff:
  assumes "wf_orders (sv_orders s)" and "newDistribution s ings grp shared arn t = (Ok d, t')"
  shows "Dist_IsEmpty d \<longleftrightarrow> ings = []"
proof -
  obtain b where b: "final_builder s ings grp shared arn b" and build: "DistributionBuilder_Build (sv_orders s) b = Ok d"
    using newDistribution_builder [OF assms(2)] by blast
  have keyed: "keyed (db_customOrigins b)" using b put_origins_keyed(1) by (simp add: final_builder_def)
  have look: "map_of (db_customOrigins b) h = last_for (map (ingress_origin s shared) ings) h" for h
    using b put_origins_keyed(2) by (simp add: final_builder_def)
  have "or_Host ` set (dist_CustomOrigins d) = or_Host ` set (map (ingress_origin s shared) ings)"
    using last_for_hosts [OF Build_Ok_origins(2) [OF assms(1) keyed build, unfolded look]] .
  then have "dist_CustomOrigins d = [] \<longleftrightarrow> ings = []" by auto
  then show ?thesis by (simp add: Dist_IsEmpty_def)
qed

end
