(* ===== verification/Service_Calls.thy ===== *)
theory Service_Calls
  imports Desired_State
begin

text \<open>
  Which requests a reconciliation makes, in which order, and under which conditions. The lemmas are
  proved for every service whose parts keep their contracts (locale \<open>service_parts\<close>) and used for the
  service \<open>main.go\<close> wires.
\<close>

section \<open>Kinds of requests\<close>

fun is_event :: "api_call \<Rightarrow> bool" where
  "is_event (K8sEvent _ _ _) = True"
| "is_event _ = False"

fun k8s_write :: "api_call \<Rightarrow> bool" where
  "k8s_write (K8sCreateStatus _) = True"
| "k8s_write (K8sUpdateStatus _) = True"
| "k8s_write (K8sDeleteStatus _) = True"
| "k8s_write (K8sUpdateIngress _) = True"
| "k8s_write (K8sEvent _ _ _) = True"
| "k8s_write _ = False"

lemma call_kinds:
  "is_event c \<Longrightarrow> k8s_write c" "is_event c \<Longrightarrow> \<not> destroys c" "k8s_write c \<Longrightarrow> \<not> destroys c"
  "k8s_write c \<Longrightarrow> \<not> deletes_distribution c" "k8s_write c \<Longrightarrow> \<not> creates_distribution c"
  "read_only c \<Longrightarrow> \<not> deletes_distribution c" "read_only c \<Longrightarrow> \<not> creates_distribution c"
  "dns_call c \<Longrightarrow> \<not> deletes_distribution c" "dns_call c \<Longrightarrow> \<not> creates_distribution c"
  "deletes_distribution c \<Longrightarrow> destroys c"
  by (cases c; simp)+

section \<open>Parts of the service\<close>

locale service_parts =
  dists: dist_repo_contract "sv_dists s" "DeletionEnabled (sv_cfg s)" +
  als: alias_repo_contract "sv_aliases s" +
  certs: cert_service_contract "sv_certs s" +
  fetch: fetcher_contract "sv_fetcher s" for s :: service
begin

lemma emits_validate: "emits is_event (validateIngress s ing)"
  unfolding validateIngress_def by (intro emits_intros emits_notify) simp

lemma emits_newDistribution: "emits read_only (newDistribution s ings grp shared arn)"
  unfolding newDistribution_def discoverCert_def keepCurrentWebACLConfig_def Let_def split_beta
  by (intro emits_intros certs.discover_calls dists.config_calls)

lemma emits_desiredState: "emits read_only (desiredState s reconciling)"
  unfolding desiredState_def desiredIngresses_def
  by (intro emits_intros fetch.fetch_calls dists.arn_calls emits_newDistribution)

lemma emits_plan: "emits read_only (reconcile_plan s ing reconciling)"
  unfolding reconcile_plan_def fetchOrGenerateCDNStatus_def split_beta
  by (intro emits_intros emits_desiredState) simp

lemma emits_failure: "emits is_event (handleFailure e ing)"
  unfolding handleFailure_def recordFailureOnIngress_def by (intro emits_intros emits_notify) simp

lemma emits_k8s: "emits k8s_write (reconcile_k8s s ing d st errs)"
  unfolding reconcile_k8s_def reconcileFinalizer_def deleteCDNStatus_def upsertCDNStatus_def
    handleResult_def handleFailureWithStatus_def handleSuccess_def recordFailureOnIngress_def
    Let_def split_beta
  by (intro emits_intros emits_notify) simp_all

text \<open>A distribution is changed by exactly one of its three operations.\<close>

lemma emits_syncDist:
  assumes "\<And>d. \<not> Dist_IsEmpty d \<Longrightarrow> Dist_Exists d \<Longrightarrow> emits P (distr_Sync (sv_dists s) d)"
    and "\<not> Dist_IsEmpty d \<Longrightarrow> \<not> Dist_Exists d \<Longrightarrow> emits P (distr_Create (sv_dists s) d)"
    and "Dist_IsEmpty d \<Longrightarrow> Dist_Exists d \<Longrightarrow> DeletionEnabled (sv_cfg s) \<Longrightarrow> emits P (distr_Delete (sv_dists s) d)"
  shows "emits P (syncDist s d st ing)"
  unfolding syncDist_def upsertDistribution_def deleteDistribution_def updateDistribution_def
    createDistribution_def Let_def
  by (intro emits_intros assms) simp_all

lemma no_deletions: "\<not> DeletionEnabled (sv_cfg s) \<Longrightarrow> as_Entries (snd (newAliases s dist st class)) = []"
  by (simp add: newAliases_def NewAliases_def Let_def)

lemma emits_syncAliases:
  assumes "\<And>c. dns_call c \<Longrightarrow> \<not> destroys c \<Longrightarrow> P c"
    and "\<And>c. DeletionEnabled (sv_cfg s) \<Longrightarrow> dns_call c \<Longrightarrow> P c"
  shows "emits P (syncAliases s st dist class)"
proof -
  have "emits P (ar_Delete (sv_aliases s) (snd (newAliases s dist st class)))"
  proof (cases "DeletionEnabled (sv_cfg s)")
    case True
    then show ?thesis by (intro emits_mono [OF als.delete_calls]) (rule assms(2))
  next
    case False
    then show ?thesis by (simp add: emits_def als.delete_nothing no_deletions)
  qed
  moreover have "emits P (ar_Upsert (sv_aliases s) a)" for a
    by (intro emits_mono [OF als.upsert_calls]) (auto intro: assms(1))
  ultimately show ?thesis
    unfolding syncAliases_def Let_def split_beta by (intro emits_intros)
qed

lemma emits_aws:
  assumes "emits P (syncDist s d st ing)" and "\<And>st dist. emits P (syncAliases s st dist class)"
  shows "emits P (reconcile_aws s ing class d st)"
  unfolding reconcile_aws_def Let_def split_beta by (intro emits_intros assms)

end

section \<open>The course of a reconciliation\<close>

text \<open>
  A reconciliation either stops before it changed anything, or only releases an Ingress that lost
  its group, or has a plan and carries it out.
\<close>

definition carry_out :: "service \<Rightarrow> ingress \<Rightarrow> cdn_class \<Rightarrow> distribution \<Rightarrow> cdn_status \<Rightarrow> unit api" where
  "carry_out s ing class d st =
     io_bind (reconcile_aws s ing class d st) (\<lambda>(st, errs). reconcile_k8s s ing d st errs)"

lemma Class_NewCDNIngressFromV1:
  "NewCDNIngressFromV1 libs ing class = Ok ci \<Longrightarrow> Class ci = class \<and> Group ci = groupAnnotationValue ing"
  by (auto simp: NewCDNIngressFromV1_def out_bind_Ok_iff)

lemma Reconcile_eq:
  "Reconcile s ing class =
     io_bind (io_try (io_wrap (ErrorfV ''validating Ingress'') (validateIngress s ing))) (\<lambda>v. case v of
       Inl err \<Rightarrow> handleFailure err ing
     | Inr _ \<Rightarrow> (case NewCDNIngressFromV1 (sv_libs s) ing class of
         Panic \<Rightarrow> io_lift Panic
       | Err err \<Rightarrow> handleFailure err ing
       | Ok reconciling \<Rightarrow>
           if HasFinalizer ing \<and> \<not> HasGroupAnnotation ing
           then io_bind (reconcileFinalizer s ing False) (\<lambda>(err, _). fail_or_return err)
           else io_bind (io_try (reconcile_plan s ing reconciling)) (\<lambda>plan. case plan of
               Inl err \<Rightarrow> handleFailure err ing
             | Inr (d, st) \<Rightarrow> carry_out s ing class d st)))"
proof -
  have lifted: "io_bind (io_try (io_lift r)) f =
      (case r of Panic \<Rightarrow> io_lift Panic | Err e \<Rightarrow> f (Inl e) | Ok x \<Rightarrow> f (Inr x))" for r and f :: "go_error + 'b \<Rightarrow> 'a api"
    by (rule ext) (simp add: io_bind_def io_try_def io_lift_def split: outcome.split)
  show ?thesis
    unfolding Reconcile_def lifted carry_out_def
    by (intro arg_cong2 [where f = io_bind] refl ext sum.case_cong outcome.case_cong if_cong)
      (auto dest: Class_NewCDNIngressFromV1)
qed

context service_parts
begin

lemma handleFailure_run: "handleFailure e ing t = (Err e, t @ [K8sEvent (ing_target ing) EventTypeWarning reasonFailed])"
  by (simp add: handleFailure_def recordFailureOnIngress_def io_notify_def io_bind_call io_fail_def)

lemma reconcile_cases:
  obtains (failed) u where "snd (Reconcile s ing class t) = t @ u"
      and "list_all (\<lambda>c. read_only c \<or> is_event c) u" and "fst (Reconcile s ing class t) \<noteq> Ok ()"
  | (groupless) u where "HasFinalizer ing" and "\<not> HasGroupAnnotation ing" and "list_all is_event u"
      and "snd (Reconcile s ing class t) = t @ u @ [K8sUpdateIngress (RemoveFinalizer (sv_libs s) ing)]"
      and "\<forall>t. \<exists>x. w_update_ingress (sv_world s) t = Inr x \<Longrightarrow> fst (Reconcile s ing class t) = Ok ()"
  | (planned) ci u d st t2 where "NewCDNIngressFromV1 (sv_libs s) ing class = Ok ci"
      and "\<not> (HasFinalizer ing \<and> \<not> HasGroupAnnotation ing)" and "list_all is_event u"
      and "reconcile_plan s ing ci (t @ u) = (Ok (d, st), t2)"
      and "Reconcile s ing class t = carry_out s ing class d st t2"
proof -
  let ?v = "io_try (io_wrap (ErrorfV ''validating Ingress'') (validateIngress s ing))"
  obtain r t1 where v: "?v t = (r, t1)" by (cases "?v t")
  have "emits is_event ?v" by (intro emits_intros emits_validate)
  then obtain u where u: "t1 = t @ u" "list_all is_event u"
    by (rule emitsE [where t = t]) (simp add: v)
  then have u': "list_all (\<lambda>c. read_only c \<or> is_event c) u" by (simp add: list_all_iff)
  have run: "io_bind ?v f t = f x t1" if "r = Ok x" for x and f :: "go_error + unit \<Rightarrow> unit api"
    using v that by (simp add: io_bind_def)
  show thesis
  proof (cases "r = Ok (Inr ())")
    case False
    then consider (e) e where "r = Ok (Inl e)" | "r = Panic" | e where "r = Err e"
      by (metis old.unit.exhaust outcome.exhaust sum.exhaust)
    then show ?thesis
    proof cases
      case e
      then show ?thesis
        by (intro failed [of "u @ [K8sEvent (ing_target ing) EventTypeWarning reasonFailed]"])
          (simp_all add: Reconcile_eq run [OF e] handleFailure_run u u')
    qed (intro failed [of u]; simp add: Reconcile_eq io_bind_def v u u')+
  next
    case True
    note run' = run [OF True]
    note R = Reconcile_eq [of s ing "class", THEN fun_cong, of t, unfolded run', simplified sum.case]
    show ?thesis
    proof (cases "NewCDNIngressFromV1 (sv_libs s) ing class")
      case (Ok ci)
      show ?thesis
      proof (cases "HasFinalizer ing \<and> \<not> HasGroupAnnotation ing")
        case True
        have "snd (Reconcile s ing class t) = t @ u @ [K8sUpdateIngress (RemoveFinalizer (sv_libs s) ing)]"
          unfolding R Ok using True
          by (simp add: reconcileFinalizer_def Let_def io_bind_def io_try_def io_call_def io_return_def
              fail_or_return_def io_fail_def u split: sum.split option.split)
        moreover have "fst (Reconcile s ing class t) = Ok ()" if up: "\<forall>t. \<exists>x. w_update_ingress (sv_world s) t = Inr x"
        proof -
          obtain x where "w_update_ingress (sv_world s) (t @ u @ [K8sUpdateIngress (RemoveFinalizer (sv_libs s) ing)]) = Inr x"
            using up by blast
          then show ?thesis
            unfolding R Ok using True
            by (simp add: reconcileFinalizer_def Let_def io_bind_def io_try_def io_call_def io_return_def
                fail_or_return_def u)
        qed
        ultimately show ?thesis using True u by (intro groupless [of u]) simp_all
      next
        case False
        obtain p t2 where p: "reconcile_plan s ing ci t1 = (p, t2)" by (cases "reconcile_plan s ing ci t1")
        from emits_plan [of ing ci] obtain w where w: "t2 = t1 @ w" "list_all read_only w"
          by (rule emitsE [where t = t1]) (simp add: p)
        then have w': "list_all (\<lambda>c. read_only c \<or> is_event c) w" by (simp add: list_all_iff)
        show ?thesis
        proof (cases p)
          case (Ok ds)
          obtain d st where ds: "ds = (d, st)" by (cases ds)
          show ?thesis
            by (rule planned [of ci u d st t2])
              (use u p Ok ds \<open>NewCDNIngressFromV1 (sv_libs s) ing class = Ok ci\<close> in
                \<open>simp_all add: R io_bind_try False\<close>)
        next
          case (Err e)
          show ?thesis
            by (rule failed [of "u @ w @ [K8sEvent (ing_target ing) EventTypeWarning reasonFailed]"])
              (simp_all add: R Ok False io_bind_try p [unfolded u(1)] Err handleFailure_run u w u' w')
        next
          case Panic
          show ?thesis
            by (rule failed [of "u @ w"]) (simp_all add: R Ok False io_bind_try p [unfolded u(1)] Panic u w u' w')
        qed
      qed
    next
      case (Err e)
      show ?thesis
        by (rule failed [of "u @ [K8sEvent (ing_target ing) EventTypeWarning reasonFailed]"])
          (simp_all add: R Err handleFailure_run u u')
    next
      case Panic
      show ?thesis by (rule failed [of u]) (simp_all add: R Panic io_lift_def u u')
    qed
  qed
qed

end

end
