(* ===== verification/Service_Props.thy ===== *)
theory Service_Props
  imports Service_Calls
begin

text \<open>
  The service as \<open>main.go\<close> wires it, and the safety of its reconciliations: what is never destroyed,
  when a distribution is created or deleted, and when an Ingress is released.
\<close>

section \<open>The wiring of main.go\<close>

text \<open>The iteration orders of the maps a reconciliation ranges over.\<close>

record main_orders =
  mo_build :: orders
  mo_hosts :: "string order"
  mo_paths :: "path_key order"
  mo_fas :: "string order"
  mo_headers :: "string order"
  mo_tags :: "string order"

definition main_service ::
    "world \<Rightarrow> k8s_libs \<Rightarrow> multierr_lib \<Rightarrow> poll_lib \<Rightarrow> main_orders \<Rightarrow> config \<Rightarrow> service" where
  "main_service w libs me poll mo cfg =
     \<lparr>sv_world = w, sv_libs = libs, sv_multierr = me, sv_cfg = cfg,
      sv_aliases = NewAliasRepository w,
      sv_dists = NewDistRepository (main_repo w cfg poll (mo_headers mo) (mo_tags mo)),
      sv_fetcher = NewIngressFetcherV1 w libs,
      sv_certs = NewCertService w,
      sv_orders = mo_build mo, sv_ord_hosts = mo_hosts mo, sv_ord_paths = mo_paths mo,
      sv_ord_fas = mo_fas mo\<rparr>"

lemma main_service_simps [simp]:
  "sv_cfg (main_service w libs me poll mo cfg) = cfg"
  "sv_libs (main_service w libs me poll mo cfg) = libs"
  "sv_orders (main_service w libs me poll mo cfg) = mo_build mo"
  "sv_multierr (main_service w libs me poll mo cfg) = me"
  "sv_world (main_service w libs me poll mo cfg) = w"
  by (simp_all add: main_service_def)

interpretation main: service_parts "main_service w libs me poll mo cfg" for w libs me poll mo cfg
  unfolding service_parts_def main_service_def
  using main_dist.dist_repo_contract_axioms alias_repo.alias_repo_contract_axioms
    cert_svc.cert_service_contract_axioms v1_fetcher.fetcher_contract_axioms
  by simp

section \<open>Nothing is destroyed while deletion is disabled\<close>

context service_parts
begin

lemma emits_groupless: "emits k8s_write (io_bind (reconcileFinalizer s ing b) (\<lambda>(err, _). fail_or_return err))"
  unfolding reconcileFinalizer_def fail_or_return_def Let_def split_beta
  by (intro emits_intros) simp_all

lemma emits_Reconcile:
  assumes "\<And>c. read_only c \<Longrightarrow> P c" and "\<And>c. k8s_write c \<Longrightarrow> P c"
    and "\<And>d st. emits P (syncDist s d st ing)" and "\<And>st dist. emits P (syncAliases s st dist class)"
  shows "emits P (Reconcile s ing class)"
proof -
  have "emits P (carry_out s ing class d st)" for d st
    unfolding carry_out_def split_beta
    by (intro emits_bind emits_aws assms(3,4)) (rule emits_mono [OF emits_k8s assms(2)])
  moreover have "emits P (handleFailure e ing)" for e
    by (rule emits_mono [OF emits_failure]) (rule assms(2) [OF call_kinds(1)])
  moreover have "emits P (validateIngress s ing)"
    by (rule emits_mono [OF emits_validate]) (rule assms(2) [OF call_kinds(1)])
  moreover have "emits P (reconcile_plan s ing ci)" for ci
    by (rule emits_mono [OF emits_plan assms(1)])
  moreover have "emits P (io_bind (reconcileFinalizer s ing False) (\<lambda>(err, _). fail_or_return err))"
    by (rule emits_mono [OF emits_groupless assms(2)])
  ultimately show ?thesis
    unfolding Reconcile_eq
    by (intro emits_bind emits_try emits_wrap)
      (auto intro!: emits_intros split: outcome.split sum.split)
qed

lemma nothing_destroyed:
  assumes "\<not> DeletionEnabled (sv_cfg s)"
  shows "emits (Not \<circ> destroys) (Reconcile s ing class)"
proof (rule emits_Reconcile)
  have sync: "cloudfront_call c \<and> \<not> deletes_distribution c \<and> (destroys c \<longrightarrow> DeletionEnabled (sv_cfg s)) \<Longrightarrow>
      (Not \<circ> destroys) c" for c
    using assms by simp
  show "emits (Not \<circ> destroys) (syncDist s d st ing)" for d st
    by (intro emits_syncDist emits_mono [OF dists.sync_calls sync] emits_mono [OF dists.create_calls sync])
      (use assms in auto)
  show "emits (Not \<circ> destroys) (syncAliases s st dist class)" for st dist
    by (rule emits_syncAliases) (use assms in auto)
qed (simp_all add: read_only_not_destroys call_kinds)

end

section \<open>Examples to evaluate with\<close>

definition sample_multierr :: multierr_lib where
  "sample_multierr =
     \<lparr>me_Append = (\<lambda>m es. (case m of None \<Rightarrow> [] | Some xs \<Rightarrow> xs) @ concat (map flat_errors es)),
      me_ErrorOrNil = (\<lambda>m. case m of None \<Rightarrow> None | Some xs \<Rightarrow> if xs = [] then None else Some (MultiError xs))\<rparr>"

lemma sample_multierr_spec: "multierr_spec sample_multierr"
  by (simp add: multierr_spec_def sample_multierr_def)

definition sample_mo :: main_orders where
  "sample_mo = \<lparr>mo_build = sample_orders, mo_hosts = rev, mo_paths = rev, mo_fas = rev, mo_headers = rev, mo_tags = rev\<rparr>"

definition sample_service :: "world \<Rightarrow> bool \<Rightarrow> service" where
  "sample_service w del = main_service w sample_libs sample_multierr sample_poll sample_mo
     (sample_cfg\<lparr>DeletionEnabled := del\<rparr>)"

section \<open>Nothing is changed without a plan\<close>

text \<open>The calls of the second half of a reconciliation of the wired service.\<close>

lemma main_sync_calls:
  assumes "poll_spec poll" and "\<And>c. cloudfront_call c \<Longrightarrow> P c"
  shows "emits P (syncDist (main_service w libs me poll mo cfg) d st ing)"
proof (rule main.emits_syncDist)
  let ?s = "main_service w libs me poll mo cfg"
  show "emits P (distr_Delete (sv_dists ?s) d)"
    unfolding main_service_def NewDistRepository_def
    using emits_mono [OF emits_dist_Delete [OF assms(1)], of d P] assms(2) by simp
qed (rule emits_mono [OF main.dists.sync_calls] emits_mono [OF main.dists.create_calls], simp add: assms(2))+

lemma main_aws_calls:
  assumes "poll_spec poll" and "\<And>c. cloudfront_call c \<Longrightarrow> P c" and "\<And>c. dns_call c \<Longrightarrow> P c"
  shows "emits P (reconcile_aws (main_service w libs me poll mo cfg) ing class d st)"
  by (intro main.emits_aws main_sync_calls [OF assms(1)] main.emits_syncAliases) (auto intro: assms(2,3))

lemma main_carry_out:
  assumes "poll_spec poll" and "\<And>c. cloudfront_call c \<Longrightarrow> P c" and "\<And>c. dns_call c \<Longrightarrow> P c"
    and "\<And>c. k8s_write c \<Longrightarrow> P c"
  shows "emits P (carry_out (main_service w libs me poll mo cfg) ing class d st)"
  unfolding carry_out_def split_beta
  by (intro emits_bind main_aws_calls assms emits_mono [OF main.emits_k8s assms(4)])

lemmas main_carry_out_extends = main_carry_out [where P = "\<lambda>_. True", simplified]

text \<open>
  C11. Everything is decided before anything is changed. A reconciliation first only reads and emits
  events; it changes something only in two cases: the Ingress has the finalizer but lost its group,
  and then the one change is to release it; or the desired state, the permission to create and the
  status record have all been determined without error, from exactly those reads.
\<close>

theorem writes_need_a_plan:
  assumes "poll_spec poll"
  shows "\<exists>pre post. snd (Reconcile (main_service w libs me poll mo cfg) ing class t) = t @ pre @ post \<and>
     list_all (\<lambda>c. read_only c \<or> is_event c) pre \<and>
     (post = [] \<or>
      (HasFinalizer ing \<and> \<not> HasGroupAnnotation ing \<and> post = [K8sUpdateIngress (RemoveFinalizer libs ing)]) \<or>
      (\<exists>ci u d st. NewCDNIngressFromV1 libs ing class = Ok ci \<and> list_all is_event u \<and>
         reconcile_plan (main_service w libs me poll mo cfg) ing ci (t @ u) = (Ok (d, st), t @ pre)))"
proof (cases rule: main.reconcile_cases [of w libs me poll mo cfg ing "class" t])
  case (failed u)
  then show ?thesis by (intro exI [of _ u] exI [of _ "[]"]) simp
next
  case (groupless u)
  then show ?thesis
    by (intro exI [of _ u] exI [of _ "[K8sUpdateIngress (RemoveFinalizer libs ing)]"]) (simp add: list_all_iff)
next
  case (planned ci u d st t2)
  from main.emits_plan [of w libs me poll mo cfg ing ci] obtain v where v: "t2 = (t @ u) @ v" "list_all read_only v"
    by (rule emitsE [where t = "t @ u"]) (simp add: planned(4))
  from main_carry_out_extends [OF assms] obtain post where "snd (carry_out (main_service w libs me poll mo cfg) ing class d st t2) = t2 @ post"
    by (rule emitsE)
  with planned v show ?thesis
    by (intro exI [of _ "u @ v"] exI [of _ post]) (auto simp: list_all_iff)
qed

theorem writes_need_a_plan_witness:
  "\<exists>pre post. snd (Reconcile (sample_service some_world True) sample_ingress zero_class []) = pre @ post \<and>
     list_all (\<lambda>c. read_only c \<or> is_event c) pre"
  using writes_need_a_plan [OF sample_poll_spec, of some_world sample_libs sample_multierr sample_mo
    "sample_cfg\<lparr>DeletionEnabled := True\<rparr>" sample_ingress zero_class "[]"]
  unfolding sample_service_def append_Nil by metis

section \<open>When a distribution is created or deleted\<close>

text \<open>What a plan rests on.\<close>

lemma existing_arn_iff:
  "(case r of Inr arn \<Rightarrow> io_return arn
    | Inl err \<Rightarrow> if \<not> errors_Is err ErrDistNotFound then io_fail (f err) else io_return []) t = (Ok arn, t') \<longleftrightarrow>
   t' = t \<and> (case r of Inr a \<Rightarrow> arn = a | Inl e \<Rightarrow> errors_Is e ErrDistNotFound \<and> arn = [])"
  by (auto simp: io_return_apply io_fail_apply split: sum.splits)

lemma plan_Ok:
  assumes "reconcile_plan s ing ci t = (Ok (d, st), t')"
  obtains ings ta shared r tb arn tc where "desiredIngresses s ci t = (Ok ings, ta)"
    and "io_try (distr_ARNByGroup (sv_dists s) (Group ci)) ta = (Ok r, tb)"
    and "case r of Inr a \<Rightarrow> arn = a | Inl e \<Rightarrow> errors_Is e ErrDistNotFound \<and> arn = []"
    and "newDistribution s ings (Group ci) shared arn tb = (Ok d, tc)"
    and "validateCreation s d ing = Ok ()"
    and "fetchOrGenerateCDNStatus s ings d tc = (Ok st, t')"
    and "NewSharedIngressParams (sv_ord_hosts s) (sv_ord_paths s) ings = Ok shared"
proof -
  from assms obtain ings0 tc where
    state: "desiredState s ci t = (Ok (ings0, d), tc)" and rest: "validateCreation s d ing = Ok ()"
      "fetchOrGenerateCDNStatus s ings0 d tc = (Ok st, t')"
    unfolding reconcile_plan_def split_beta io_bind_Ok_iff io_wrap_Ok_iff io_lift_Ok_iff by auto
  from state obtain ings ta shared r tb arn where
    "desiredIngresses s ci t = (Ok ings, ta)"
    "io_try (distr_ARNByGroup (sv_dists s) (Group ci)) ta = (Ok r, tb)"
    "case r of Inr a \<Rightarrow> arn = a | Inl e \<Rightarrow> errors_Is e ErrDistNotFound \<and> arn = []"
    "newDistribution s ings (Group ci) shared arn tb = (Ok d, tc)" "ings0 = ings"
    "NewSharedIngressParams (sv_ord_hosts s) (sv_ord_paths s) ings = Ok shared"
    unfolding desiredState_def split_beta io_bind_Ok_iff io_wrap_Ok_iff io_lift_Ok_iff existing_arn_iff
    by auto
  with rest show thesis by (intro that) simp_all
qed

text \<open>An active Ingress of a group: it is not being removed and has a load balancer.\<close>

definition active_in :: "string \<Rightarrow> ingress \<Rightarrow> bool" where
  "active_in grp k \<longleftrightarrow> groupAnnotationValue k = grp \<and> \<not> IsBeingRemovedFromDesiredState k \<and>
     HasLoadBalancer (ObjIngress k)"

lemma part_of_desired_iff:
  "NewCDNIngressFromV1 libs k class = Ok i \<Longrightarrow> NewCDNIngressFromV1 libs ing class' = Ok ci \<Longrightarrow>
     isPartOfDesiredState ci i \<longleftrightarrow> active_in (groupAnnotationValue ing) k"
  by (auto simp: NewCDNIngressFromV1_def out_bind_Ok_iff isPartOfDesiredState_def active_in_def Let_def)

text \<open>The request for the resources that carry the ownership tag and the group's tag.\<close>

abbreviation group_lookup :: "string \<Rightarrow> api_call" where
  "group_lookup grp \<equiv> GetResources ownershipTagKey ownershipTagValue groupTagKey grp"

text \<open>The identifier of the distribution the lookup found; empty when there is none.\<close>

fun found_id :: "string option list \<Rightarrow> string option" where
  "found_id [] = Some []"
| "found_id [None] = Some []"
| "found_id [Some arn] = (if arn = [] then Some [] else case extractID arn of Ok i \<Rightarrow> Some i | _ \<Rightarrow> None)"
| "found_id _ = None"

lemma main_lookup:
  assumes "io_try (distr_ARNByGroup (sv_dists (main_service w libs me poll mo cfg)) grp) t = (Ok r, t')"
    and "case r of Inr a \<Rightarrow> arn = a | Inl e \<Rightarrow> errors_Is e ErrDistNotFound \<and> arn = []"
    and "if arn = [] then i = [] else extractID arn = Ok i"
  shows "t' = t @ [group_lookup grp] \<and> (\<exists>ps. w_get_resources w t' = Inr ps \<and> found_id ps = Some i)"
proof -
  let ?repo = "main_repo w cfg poll (mo_headers mo) (mo_tags mo)"
  obtain res t1 where run: "ARNByGroup ?repo grp t = (res, t1)" by (cases "ARNByGroup ?repo grp t")
  note facts = ARNByGroup_run [of t grp ?repo, unfolded run Let_def prod.case main_repo_simps]
  have t1: "t1 = t @ [group_lookup grp]" using facts by (rule conjunct1)
  have found: "res = Ok a \<longleftrightarrow> (\<exists>p. w_get_resources w t1 = Inr [p] \<and> a = (case p of None \<Rightarrow> [] | Some x \<Rightarrow> x))" for a
    using facts unfolding t1 by blast
  have missing: "res = Err e \<and> errors_Is e ErrDistNotFound \<longleftrightarrow> w_get_resources w t1 = Inr [] \<and> e = ErrDistNotFound" for e
    using facts unfolding t1 by blast
  have "t' = t1" and r: "res = (case r of Inr a \<Rightarrow> Ok a | Inl e \<Rightarrow> Err e)"
    using assms(1) run
    by (auto simp: main_service_def NewDistRepository_def io_try_def split: outcome.splits sum.splits)
  moreover have "\<exists>ps. w_get_resources w t1 = Inr ps \<and> found_id ps = Some i"
  proof (cases r)
    case (Inl e)
    with assms(2,3) r missing [of e] show ?thesis by auto
  next
    case (Inr a)
    with assms(2) r found [of arn] obtain p where p: "w_get_resources w t1 = Inr [p]" "arn = (case p of None \<Rightarrow> [] | Some x \<Rightarrow> x)"
      by auto
    with assms(3) show ?thesis by (cases p) (auto split: if_splits)
  qed
  ultimately show ?thesis using t1 by simp
qed

text \<open>What the wired service has read when it has a plan.\<close>

lemma main_plan_reads:
  assumes "wf_orders (mo_build mo)" and ci: "NewCDNIngressFromV1 libs ing class = Ok ci"
    and plan: "reconcile_plan (main_service w libs me poll mo cfg) ing ci t = (Ok (d, st), t')"
  obtains items ps y where "w_list_ingresses w (t @ [K8sListIngresses]) = Inr items"
    and "Dist_IsEmpty d \<longleftrightarrow> (\<forall>k \<in> set items. \<not> active_in (groupAnnotationValue ing) k)"
    and "w_get_resources w (t @ [K8sListIngresses, group_lookup (groupAnnotationValue ing)]) = Inr ps"
    and "found_id ps = Some (dist_ID d)"
    and "validateCreation (main_service w libs me poll mo cfg) d ing = Ok ()"
    and "t' = t @ [K8sListIngresses, group_lookup (groupAnnotationValue ing)] @ y"
proof -
  let ?s = "main_service w libs me poll mo cfg"
  from plan obtain ings ta shared r tb arn tc where
    fetch: "desiredIngresses ?s ci t = (Ok ings, ta)" and
    lookup: "io_try (distr_ARNByGroup (sv_dists ?s) (Group ci)) ta = (Ok r, tb)"
      "case r of Inr a \<Rightarrow> arn = a | Inl e \<Rightarrow> errors_Is e ErrDistNotFound \<and> arn = []" and
    dist: "newDistribution ?s ings (Group ci) shared arn tb = (Ok d, tc)" and
    valid: "validateCreation ?s d ing = Ok ()" and
    status: "fetchOrGenerateCDNStatus ?s ings d tc = (Ok st, t')" and
    "NewSharedIngressParams (sv_ord_hosts ?s) (sv_ord_paths ?s) ings = Ok shared"
    by (rule plan_Ok)
  from Class_NewCDNIngressFromV1 [OF ci] have fields: "Class ci = class" "Group ci = groupAnnotationValue ing"
    by simp_all
  from fetch have fetch: "FetchBy w libs class (isPartOfDesiredState ci) t = (Ok ings, ta)"
    by (simp add: desiredIngresses_def main_service_def NewIngressFetcherV1_def fields)
  then obtain items parts where items: "w_list_ingresses w ta = Inr items" and ta: "ta = t @ [K8sListIngresses]"
    and all: "list_all2 (contributes libs class (isPartOfDesiredState ci)) items parts"
    unfolding fetch_by_iff by blast
  have ok: "\<exists>i. NewCDNIngressFromV1 libs k class = Ok i" if "k \<in> set items" for k
    using all that by (auto simp: list_all2_conv_all_nth in_set_conv_nth contributes_def)
  have "Dist_IsEmpty d \<longleftrightarrow> ings = []"
    by (rule desired_empty_iff [OF _ dist]) (simp add: assms(1))
  also have "\<dots> \<longleftrightarrow> (\<forall>k \<in> set items. \<exists>i. NewCDNIngressFromV1 libs k class = Ok i \<and> \<not> isPartOfDesiredState ci i)"
    using fetch_empty_iff [OF fetch] items by auto
  also have "\<dots> \<longleftrightarrow> (\<forall>k \<in> set items. \<not> active_in (groupAnnotationValue ing) k)"
    using ok part_of_desired_iff [OF _ ci] by blast
  finally have empty: "Dist_IsEmpty d \<longleftrightarrow> (\<forall>k \<in> set items. \<not> active_in (groupAnnotationValue ing) k)" .
  have tb: "tb = ta @ [group_lookup (groupAnnotationValue ing)]"
    "\<exists>ps. w_get_resources w tb = Inr ps \<and> found_id ps = Some (dist_ID d)"
    using main_lookup [OF lookup desired_id [OF dist]] unfolding fields by blast+
  then obtain ps where ps: "w_get_resources w tb = Inr ps" "found_id ps = Some (dist_ID d)" by blast
  have "emits read_only (fetchOrGenerateCDNStatus ?s ings d)"
    unfolding fetchOrGenerateCDNStatus_def by (intro emits_intros) simp
  then obtain y2 where y2: "t' = tc @ y2" by (rule emitsE [where t = tc]) (simp add: status)
  have "emits read_only (newDistribution ?s ings (Group ci) shared arn)" by (rule main.emits_newDistribution)
  then obtain y1 where "tc = tb @ y1" by (rule emitsE [where t = tb]) (simp add: dist)
  with y2 obtain y where "t' = tb @ y" by auto
  with items ta empty tb ps valid show thesis by (intro that [of items ps y]) simp_all
qed

text \<open>A call that is made only while carrying out a plan.\<close>

lemma main_planned_call:
  assumes "poll_spec poll"
    and "snd (Reconcile (main_service w libs me poll mo cfg) ing class t) = t @ v" and "c \<in> set v"
    and "\<not> read_only c" and "\<not> k8s_write c"
  obtains ci u d st x y where "NewCDNIngressFromV1 libs ing class = Ok ci"
    and "v = (u @ y) @ x" and "c \<in> set x"
    and "reconcile_plan (main_service w libs me poll mo cfg) ing ci (t @ u) = (Ok (d, st), (t @ u) @ y)"
    and "snd (carry_out (main_service w libs me poll mo cfg) ing class d st ((t @ u) @ y)) = ((t @ u) @ y) @ x"
proof (cases rule: main.reconcile_cases [of w libs me poll mo cfg ing "class" t])
  case (failed u)
  with assms(2) have "v = u" by simp
  with assms(3-5) failed show ?thesis by (auto simp: list_all_iff dest: call_kinds(1))
next
  case (groupless u)
  with assms(2) have "v = u @ [K8sUpdateIngress (RemoveFinalizer libs ing)]" by simp
  with assms(3-5) groupless show ?thesis by (auto simp: list_all_iff dest: call_kinds(1))
next
  case (planned ci u d st t2)
  from main.emits_plan [of w libs me poll mo cfg ing ci] obtain y where y: "t2 = (t @ u) @ y" "list_all read_only y"
    by (rule emitsE [where t = "t @ u"]) (simp add: planned(4))
  from main_carry_out_extends [OF assms(1)] obtain x
    where x: "snd (carry_out (main_service w libs me poll mo cfg) ing class d st t2) = t2 @ x"
    by (rule emitsE)
  with assms(2) planned(5) y have v: "v = (u @ y) @ x" by simp
  have "c \<in> set x"
    using assms(3-5) planned(3) y(2) unfolding v by (auto simp: list_all_iff dest: call_kinds(1))
  with v x y(1) planned(1,4) show ?thesis by (intro that [of ci u y x d st]) simp_all
qed

text \<open>
  Such a call comes after the listing and the lookup of the group, and carries out a distribution
  that both determine.
\<close>

lemma main_justified_call:
  assumes "poll_spec poll" and "wf_orders (mo_build mo)"
    and "snd (Reconcile (main_service w libs me poll mo cfg) ing class t) = t @ v" and "c \<in> set v"
    and "\<not> read_only c" and "\<not> k8s_write c"
  obtains u x items ps d st t2 x' where "v = u @ [K8sListIngresses, group_lookup (groupAnnotationValue ing)] @ x"
    and "c \<in> set x" and "w_list_ingresses w (t @ u @ [K8sListIngresses]) = Inr items"
    and "w_get_resources w (t @ u @ [K8sListIngresses, group_lookup (groupAnnotationValue ing)]) = Inr ps"
    and "found_id ps = Some (dist_ID d)"
    and "Dist_IsEmpty d \<longleftrightarrow> (\<forall>k \<in> set items. \<not> active_in (groupAnnotationValue ing) k)"
    and "validateCreation (main_service w libs me poll mo cfg) d ing = Ok ()"
    and "snd (carry_out (main_service w libs me poll mo cfg) ing class d st t2) = t2 @ x'" and "c \<in> set x'"
proof -
  from assms(1,3-6) obtain ci u d st x y where ci: "NewCDNIngressFromV1 libs ing class = Ok ci"
    and v: "v = (u @ y) @ x" and c: "c \<in> set x"
    and plan: "reconcile_plan (main_service w libs me poll mo cfg) ing ci (t @ u) = (Ok (d, st), (t @ u) @ y)"
    and run: "snd (carry_out (main_service w libs me poll mo cfg) ing class d st ((t @ u) @ y)) = ((t @ u) @ y) @ x"
    by (rule main_planned_call)
  from assms(2) ci plan show thesis
  proof (rule main_plan_reads)
    fix items ps z
    assume "(t @ u) @ y = (t @ u) @ [K8sListIngresses, group_lookup (groupAnnotationValue ing)] @ z"
    then have "v = u @ [K8sListIngresses, group_lookup (groupAnnotationValue ing)] @ (z @ x)" using v by simp
    moreover assume "w_list_ingresses w ((t @ u) @ [K8sListIngresses]) = Inr items"
      and "w_get_resources w ((t @ u) @ [K8sListIngresses, group_lookup (groupAnnotationValue ing)]) = Inr ps"
      and "found_id ps = Some (dist_ID d)"
      and "Dist_IsEmpty d \<longleftrightarrow> (\<forall>k \<in> set items. \<not> active_in (groupAnnotationValue ing) k)"
      and "validateCreation (main_service w libs me poll mo cfg) d ing = Ok ()"
    ultimately show thesis using run c by (intro that [of u "z @ x" items ps d st "(t @ u) @ y" x]) simp_all
  qed
qed

lemma main_deletes:
  assumes "poll_spec poll" and "wf_orders (mo_build mo)"
    and "snd (Reconcile (main_service w libs me poll mo cfg) ing class t) = t @ v"
    and "DeleteDistribution i tag \<in> set v"
  shows "DeletionEnabled cfg \<and> (\<exists>u x items ps. let grp = groupAnnotationValue ing in
     v = u @ [K8sListIngresses, group_lookup grp] @ x \<and> DeleteDistribution i tag \<in> set x \<and>
     w_list_ingresses w (t @ u @ [K8sListIngresses]) = Inr items \<and> (\<forall>k \<in> set items. \<not> active_in grp k) \<and>
     w_get_resources w (t @ u @ [K8sListIngresses, group_lookup grp]) = Inr ps \<and> found_id ps = Some i)"
proof -
  let ?s = "main_service w libs me poll mo cfg" and ?c = "DeleteDistribution i tag"
  from assms obtain u x items ps d st t2 x' where v: "v = u @ [K8sListIngresses, group_lookup (groupAnnotationValue ing)] @ x"
    and c: "?c \<in> set x" and items: "w_list_ingresses w (t @ u @ [K8sListIngresses]) = Inr items"
    and ps: "w_get_resources w (t @ u @ [K8sListIngresses, group_lookup (groupAnnotationValue ing)]) = Inr ps"
      "found_id ps = Some (dist_ID d)"
    and empty: "Dist_IsEmpty d \<longleftrightarrow> (\<forall>k \<in> set items. \<not> active_in (groupAnnotationValue ing) k)"
    and run: "snd (carry_out ?s ing class d st t2) = t2 @ x'" "?c \<in> set x'"
    by (rule main_justified_call) simp_all
  have "DeletionEnabled cfg \<and> Dist_IsEmpty d \<and> i = dist_ID d"
  proof (rule ccontr)
    assume other: "\<not> (DeletionEnabled cfg \<and> Dist_IsEmpty d \<and> i = dist_ID d)"
    have del: "emits (\<lambda>c. c \<noteq> ?c) (distr_Delete (sv_dists ?s) d)" if "Dist_IsEmpty d" "DeletionEnabled cfg"
      unfolding main_service_def NewDistRepository_def
      using emits_mono [OF emits_dist_Delete [OF assms(1)], of d "\<lambda>c. c \<noteq> ?c"] other that by fastforce
    have "emits (\<lambda>c. c \<noteq> ?c) (syncDist ?s d st ing)"
      by (intro main.emits_syncDist emits_mono [OF main.dists.sync_calls] emits_mono [OF main.dists.create_calls] del)
        auto
    moreover have "emits (\<lambda>c. c \<noteq> ?c) (syncAliases ?s st dist class)" for st dist
      by (rule main.emits_syncAliases) (auto dest: call_kinds)
    ultimately have "emits (\<lambda>c. c \<noteq> ?c) (carry_out ?s ing class d st)"
      unfolding carry_out_def split_beta
      by (intro emits_bind main.emits_aws emits_mono [OF main.emits_k8s]) (auto dest: call_kinds)
    then show False
      by (rule emitsE [where t = t2]) (use run in \<open>auto simp: list_all_iff\<close>)
  qed
  with v c items ps empty show ?thesis
    unfolding Let_def by (intro conjI exI [of _ u] exI [of _ x] exI [of _ items] exI [of _ ps]) simp_all
qed

text \<open>
  C10. A distribution is deleted only when nothing uses it any more: deletion is enabled; the listing
  of all Ingresses that this very reconciliation made before contains no active Ingress of its group
  (one that is not being removed, belongs to the group and has a load balancer); and the distribution
  is the one that carries the tags of that group.
\<close>

theorem deletion_only_when_unused:
  assumes "poll_spec poll" and "wf_orders (mo_build mo)"
    and "snd (Reconcile (main_service w libs me poll mo cfg) ing class t) = t @ v"
    and "DeleteDistribution i tag \<in> set v"
  shows "DeletionEnabled cfg \<and> (\<exists>u x items ps. let grp = groupAnnotationValue ing in
     v = u @ [K8sListIngresses, group_lookup grp] @ x \<and> DeleteDistribution i tag \<in> set x \<and>
     w_list_ingresses w (t @ u @ [K8sListIngresses]) = Inr items \<and> (\<forall>k \<in> set items. \<not> active_in grp k) \<and>
     w_get_resources w (t @ u @ [K8sListIngresses, group_lookup grp]) = Inr ps \<and> found_id ps = Some i)"
  using assms by (rule main_deletes)

text \<open>An Ingress being deleted, the only one of a group whose distribution exists.\<close>

definition retired_ingress :: ingress where
  "retired_ingress = \<lparr>om_namespace = ''prod'', om_name = ''web'',
     om_annotations = [(CDNGroupAnnotation, ''g''), (CDNClassAnnotation, ''c'')],
     om_finalizers = [CDNFinalizer], om_deletion = Some ''2024'',
     ing_rules = [], ing_lb = [''lb.example''], ing_rest = []\<rparr>"

definition retired_world :: world where
  "retired_world = some_world\<lparr>w_list_ingresses := \<lambda>_. Inr [retired_ingress],
     w_get_resources := \<lambda>_. Inr [Some ''arn:aws:cloudfront::1:distribution/E1''],
     w_update_ingress := \<lambda>_. Inr retired_ingress\<rparr>"

definition plain_cfg :: "bool \<Rightarrow> config" where
  "plain_cfg del = sample_cfg\<lparr>CloudFrontSecurityPolicy := [], DeletionEnabled := del\<rparr>"

definition plain_service :: "world \<Rightarrow> bool \<Rightarrow> service" where
  "plain_service w del = main_service w sample_libs sample_multierr sample_poll sample_mo (plain_cfg del)"

definition alias_class_object :: cdn_class_object where
  "alias_class_object = \<lparr>class_name = ''default'',
     class_Spec = \<lparr>spec_CertificateArn = [], spec_HostedZoneID = ''Z1'', spec_CreateAlias = True, spec_TXTOwnerValue = ''own''\<rparr>,
     class_Status = \<lparr>status_Conditions = []\<rparr>\<rparr>"

definition alias_class :: cdn_class where
  "alias_class = \<lparr>HostedZoneID = ''Z1'', CreateAlias = True, TXTOwnerValue = ''own''\<rparr>"

lemma wf_sample_mo [simp]: "wf_orders (mo_build sample_mo)"
  by (simp add: sample_mo_def sample_orders_def wf_orders_def)

lemma retired_deletes:
  "DeleteDistribution ''E1'' (Some ''v2'') \<in> set (snd (Reconcile (plain_service retired_world True) retired_ingress alias_class []))"
  by code_simp

theorem deletion_only_when_unused_witness:
  "\<exists>u x. snd (Reconcile (plain_service retired_world True) retired_ingress alias_class []) =
     u @ [K8sListIngresses, group_lookup ''g''] @ x \<and> \<not> active_in ''g'' retired_ingress"
proof -
  let ?v = "snd (Reconcile (plain_service retired_world True) retired_ingress alias_class [])"
  have v: "snd (Reconcile (main_service retired_world sample_libs sample_multierr sample_poll sample_mo (plain_cfg True))
      retired_ingress alias_class []) = [] @ ?v"
    by (simp add: plain_service_def)
  have "w_list_ingresses retired_world t = Inr [retired_ingress]" for t
    by (simp add: retired_world_def)
  moreover have "groupAnnotationValue retired_ingress = ''g''" by code_simp
  ultimately show ?thesis
    using deletion_only_when_unused [OF sample_poll_spec wf_sample_mo v retired_deletes] by (auto simp: Let_def)
qed

section \<open>Creation is permitted\<close>

lemma main_creates:
  assumes "poll_spec poll"
    and "snd (carry_out (main_service w libs me poll mo cfg) ing class d st t) = t @ x"
    and "c \<in> set x" and "creates_distribution c"
  shows "\<not> Dist_IsEmpty d \<and> \<not> Dist_Exists d"
proof (rule ccontr)
  let ?s = "main_service w libs me poll mo cfg"
  assume other: "\<not> (\<not> Dist_IsEmpty d \<and> \<not> Dist_Exists d)"
  have del: "emits (Not \<circ> creates_distribution) (distr_Delete (sv_dists ?s) d)"
    unfolding main_service_def NewDistRepository_def
    using emits_mono [OF emits_dist_Delete [OF assms(1)], of d "Not \<circ> creates_distribution"] by simp
  have "emits (Not \<circ> creates_distribution) (syncDist ?s d st ing)"
    by (intro main.emits_syncDist emits_mono [OF main.dists.sync_calls] del) (use other in simp_all)
  moreover have "emits (Not \<circ> creates_distribution) (syncAliases ?s st dist class)" for st dist
    by (rule main.emits_syncAliases) (simp_all add: call_kinds)
  ultimately have "emits (Not \<circ> creates_distribution) (carry_out ?s ing class d st)"
    unfolding carry_out_def split_beta
    by (intro emits_bind main.emits_aws emits_mono [OF main.emits_k8s]) (simp_all add: call_kinds)
  then show False
    by (rule emitsE [where t = t]) (use assms in \<open>auto simp: list_all_iff\<close>)
qed

text \<open>
  C9. A distribution is created only where it may be: the configuration allows creation for the
  Ingress (creation is not blocked, or the Ingress is on the allow list) or the Ingress is itself
  being deleted; the listing made by this reconciliation contains an active Ingress of the group;
  and the lookup that followed it found no distribution with the tags of the group.
\<close>

theorem creation_needs_permission:
  assumes "poll_spec poll" and "wf_orders (mo_build mo)"
    and "snd (Reconcile (main_service w libs me poll mo cfg) ing class t) = t @ v"
    and "c \<in> set v" and "creates_distribution c"
  shows "(IsCreationAllowed cfg (om_namespace ing) (om_name ing) \<or> om_deletion ing \<noteq> None) \<and>
     (\<exists>u x items ps. let grp = groupAnnotationValue ing in
       v = u @ [K8sListIngresses, group_lookup grp] @ x \<and> c \<in> set x \<and>
       w_list_ingresses w (t @ u @ [K8sListIngresses]) = Inr items \<and> (\<exists>k \<in> set items. active_in grp k) \<and>
       w_get_resources w (t @ u @ [K8sListIngresses, group_lookup grp]) = Inr ps \<and> found_id ps = Some [])"
proof -
  let ?s = "main_service w libs me poll mo cfg"
  have kind: "\<not> read_only c" "\<not> k8s_write c" using assms(5) call_kinds by blast+
  from assms(1-4) kind obtain u x items ps d st t2 x'
    where v: "v = u @ [K8sListIngresses, group_lookup (groupAnnotationValue ing)] @ x"
    and c: "c \<in> set x" and items: "w_list_ingresses w (t @ u @ [K8sListIngresses]) = Inr items"
    and ps: "w_get_resources w (t @ u @ [K8sListIngresses, group_lookup (groupAnnotationValue ing)]) = Inr ps"
      "found_id ps = Some (dist_ID d)"
    and empty: "Dist_IsEmpty d \<longleftrightarrow> (\<forall>k \<in> set items. \<not> active_in (groupAnnotationValue ing) k)"
    and valid: "validateCreation ?s d ing = Ok ()"
    and run: "snd (carry_out ?s ing class d st t2) = t2 @ x'" "c \<in> set x'"
    by (rule main_justified_call)
  have new: "\<not> Dist_IsEmpty d" "\<not> Dist_Exists d" using main_creates [OF assms(1) run assms(5)] by simp_all
  with valid have "IsCreationAllowed cfg (om_namespace ing) (om_name ing) \<or> om_deletion ing \<noteq> None"
    by (auto simp: validateCreation_def split: if_splits)
  moreover have "dist_ID d = []" using new by (simp add: Dist_Exists_def)
  moreover have "\<exists>k \<in> set items. active_in (groupAnnotationValue ing) k" using new empty by blast
  ultimately show ?thesis using v c items ps
    unfolding Let_def by (intro conjI exI [of _ u] exI [of _ x] exI [of _ items] exI [of _ ps]) simp_all
qed

text \<open>A first Ingress of a group.\<close>

definition fresh_ingress :: ingress where
  "fresh_ingress = \<lparr>om_namespace = ''prod'', om_name = ''web'',
     om_annotations = [(CDNGroupAnnotation, ''g''), (CDNClassAnnotation, ''c''),
       (cfAlternateDomainNamesAnnotation, ''www.x'')],
     om_finalizers = [], om_deletion = None,
     ing_rules = [Some [\<lparr>hp_path = ''/a'', hp_type = Some ''Prefix''\<rparr>]],
     ing_lb = [''lb.example''], ing_rest = []\<rparr>"

definition fresh_world :: world where
  "fresh_world = some_world\<lparr>w_list_ingresses := \<lambda>_. Inr [fresh_ingress],
     w_update_ingress := \<lambda>_. Inr fresh_ingress\<rparr>"

lemma fresh_creates:
  "list_ex creates_distribution (snd (Reconcile (plain_service fresh_world True) fresh_ingress alias_class []))"
  by code_simp

theorem creation_needs_permission_witness:
  "IsCreationAllowed (plain_cfg True) ''prod'' ''web''"
proof -
  let ?v = "snd (Reconcile (plain_service fresh_world True) fresh_ingress alias_class [])"
  obtain c where c: "c \<in> set ?v" "creates_distribution c"
    using fresh_creates by (auto simp: list_ex_iff)
  have v: "snd (Reconcile (main_service fresh_world sample_libs sample_multierr sample_poll sample_mo (plain_cfg True))
      fresh_ingress alias_class []) = [] @ ?v"
    by (simp add: plain_service_def)
  from creation_needs_permission [OF sample_poll_spec wf_sample_mo v c]
  show ?thesis by (simp add: fresh_ingress_def)
qed

end
