(* ===== verification/Service_Status.thy ===== *)
theory Service_Status
  imports Service_Props
begin

text \<open>
  The finalizer, the status record and the DNS records across a reconciliation: the Ingress is
  released last, what a successful reconciliation has recorded, and how the recorded DNS names
  follow the aliases of the distribution.
\<close>

section \<open>Collected errors\<close>

text \<open>The errors that leave a collection of errors empty: none, or an empty collection.\<close>

definition no_error :: "go_error option \<Rightarrow> bool" where
  "no_error e \<longleftrightarrow> flat_errors e = []"

lemma no_error_iff: "no_error e \<longleftrightarrow> e = None \<or> e = Some (MultiError [])"
  unfolding no_error_def by (cases e rule: flat_errors.cases) auto

lemma multierr_simps:
  assumes "multierr_spec me"
  shows "me_Append me (Some xs) [e] = xs @ flat_errors e"
    and "me_Append me None [e, e'] = flat_errors e @ flat_errors e'"
    and "me_ErrorOrNil me None = None"
    and "me_ErrorOrNil me (Some xs) = (if xs = [] then None else Some (MultiError xs))"
  using assms by (simp_all add: multierr_spec_def)

lemma aws_clean:
  assumes "multierr_spec (sv_multierr s)" and "reconcile_aws s ing class d st t = (Ok (st', []), t')"
  shows "\<exists>dist e st1 t1. syncDist s d st ing t = (Ok (dist, e, st1), t1) \<and> no_error e \<and>
     (if CreateAlias class then \<exists>e. syncAliases s st1 dist class t1 = (Ok (st', e), t') \<and> no_error e
      else st' = st1 \<and> t' = t1)"
proof -
  from assms(2) obtain x t1 where sync: "syncDist s d st ing t = (Ok x, t1)"
    and rest: "(let errs = me_Append (sv_multierr s) (Some []) [fst (snd x)] in
       if CreateAlias class
       then io_bind (syncAliases s (snd (snd x)) (fst x) class) (\<lambda>p.
         io_return (fst p, me_Append (sv_multierr s) (Some errs) [snd p]))
       else io_return (snd (snd x), errs)) t1 = (Ok (st', []), t')"
    unfolding reconcile_aws_def split_beta io_bind_Ok_iff by blast
  obtain dist e st1 where x: "x = (dist, e, st1)" by (cases x)
  have "no_error e \<and> (if CreateAlias class then \<exists>e. syncAliases s st1 dist class t1 = (Ok (st', e), t') \<and> no_error e
      else st' = st1 \<and> t' = t1)"
  proof (cases "CreateAlias class")
    case True
    with rest obtain p where "syncAliases s st1 dist class t1 = (Ok p, t')" "st' = fst p"
      "flat_errors e @ flat_errors (snd p) = []"
      by (auto simp: x Let_def multierr_simps [OF assms(1)] io_bind_Ok_iff)
    with True show ?thesis by (cases p) (auto simp: no_error_def)
  next
    case False
    with rest show ?thesis by (simp add: x Let_def multierr_simps [OF assms(1)] no_error_def)
  qed
  with sync x show ?thesis by blast
qed

section \<open>The finalizer\<close>

text \<open>The documented behaviour of \<open>controllerutil.AddFinalizer\<close>.\<close>

definition finalizer_spec :: "k8s_libs \<Rightarrow> bool" where
  "finalizer_spec libs \<longleftrightarrow> (\<forall>fs f. f \<in> set (lib_AddFinalizer libs fs f))"

lemma HasFinalizer_Add: "finalizer_spec libs \<Longrightarrow> HasFinalizer (AddFinalizer libs (i :: ingress))"
  by (simp add: finalizer_spec_def HasFinalizer_def AddFinalizer_def contains_def list_ex_iff)

text \<open>The object written by the second half of a reconciliation.\<close>

definition released :: "k8s_libs \<Rightarrow> ingress \<Rightarrow> go_error list \<Rightarrow> ingress" where
  "released libs ing errs = (if length errs > 0 \<or> \<not> IsBeingRemovedFromDesiredState ing
     then AddFinalizer libs ing else RemoveFinalizer libs ing)"

lemma emits_k8s_updates:
  "emits (\<lambda>c. \<forall>i. c = K8sUpdateIngress i \<longrightarrow> i = released (sv_libs s) ing errs) (reconcile_k8s s ing d st errs)"
  unfolding reconcile_k8s_def reconcileFinalizer_def deleteCDNStatus_def upsertCDNStatus_def
    handleResult_def handleFailureWithStatus_def handleSuccess_def recordFailureOnIngress_def
    Let_def split_beta
  by (intro emits_intros emits_notify) (simp_all add: released_def)

lemma not_update_ingress:
  "cloudfront_call c \<Longrightarrow> c \<noteq> K8sUpdateIngress i" "dns_call c \<Longrightarrow> c \<noteq> K8sUpdateIngress i"
  "read_only c \<Longrightarrow> c \<noteq> K8sUpdateIngress i" "is_event c \<Longrightarrow> c \<noteq> K8sUpdateIngress i"
  by (cases c; simp)+

lemma released_after_aws:
  assumes "poll_spec poll" and "multierr_spec me" and "finalizer_spec libs"
    and run: "snd (carry_out (main_service w libs me poll mo cfg) ing class d st t2) = t2 @ x"
    and "K8sUpdateIngress i \<in> set x" and "\<not> HasFinalizer i"
  shows "IsBeingRemovedFromDesiredState ing \<and>
     (\<exists>dist e st1 t3. syncDist (main_service w libs me poll mo cfg) d st ing t2 = (Ok (dist, e, st1), t3) \<and> no_error e \<and>
        (CreateAlias class \<longrightarrow> (\<exists>st2 e t4.
           syncAliases (main_service w libs me poll mo cfg) st1 dist class t3 = (Ok (st2, e), t4) \<and> no_error e)))"
proof -
  let ?s = "main_service w libs me poll mo cfg"
  obtain r t3 where aws: "reconcile_aws ?s ing class d st t2 = (r, t3)" by (cases "reconcile_aws ?s ing class d st t2")
  have "emits (\<lambda>c. c \<noteq> K8sUpdateIngress i) (reconcile_aws ?s ing class d st)"
    by (rule main_aws_calls [OF assms(1)]) (simp_all add: not_update_ingress)
  then obtain z where z: "t3 = t2 @ z" "K8sUpdateIngress i \<notin> set z"
    by (rule emitsE [where t = t2]) (auto simp: aws list_all_iff)
  have "snd (carry_out ?s ing class d st t2) = t3" if "\<nexists>p. r = Ok p"
    using that by (cases r) (simp_all add: carry_out_def io_bind_def aws)
  with run z assms(5) obtain st' errs where r: "r = Ok (st', errs)" by fastforce
  have tail: "snd (reconcile_k8s ?s ing d st' errs t3) = t2 @ x"
    using run by (simp add: carry_out_def io_bind_def aws r)
  have "emits (\<lambda>c. \<forall>i. c = K8sUpdateIngress i \<longrightarrow> i = released libs ing errs) (reconcile_k8s ?s ing d st' errs)"
    using emits_k8s_updates [of ?s ing errs d st'] by simp
  then obtain y where "snd (reconcile_k8s ?s ing d st' errs t3) = t3 @ y"
    and upd: "list_all (\<lambda>c. \<forall>i. c = K8sUpdateIngress i \<longrightarrow> i = released libs ing errs) y"
    by (rule emitsE)
  with tail z assms(5) have "K8sUpdateIngress i \<in> set y" by auto
  with upd have "i = released libs ing errs" by (auto simp: list_all_iff)
  with assms(6) HasFinalizer_Add [OF assms(3)] have "errs = []" and gone: "IsBeingRemovedFromDesiredState ing"
    by (auto simp: released_def split: if_splits)
  with aws r have "reconcile_aws ?s ing class d st t2 = (Ok (st', []), t3)" by simp
  from aws_clean [OF _ this] assms(2) gone show ?thesis by (simp split: if_splits) blast
qed

text \<open>
  C7. An Ingress is released last. Whenever a reconciliation writes the Ingress without the
  finalizer, then either the Ingress has the finalizer but lost its group, or it is being deleted
  and everything that had to happen in AWS before has succeeded: the distribution has been updated
  or deleted, and the aliases have been synchronised if the class asks for it, without an error.
\<close>

theorem finalizer_released_last:
  assumes "poll_spec poll" and "multierr_spec me" and "finalizer_spec libs"
    and "snd (Reconcile (main_service w libs me poll mo cfg) ing class t) = t @ v"
    and "K8sUpdateIngress i \<in> set v" and "\<not> HasFinalizer i"
  shows "(HasFinalizer ing \<and> \<not> HasGroupAnnotation ing) \<or>
     (om_deletion ing \<noteq> None \<and>
      (\<exists>ci u d st t2 dist e st1 t3. reconcile_plan (main_service w libs me poll mo cfg) ing ci (t @ u) = (Ok (d, st), t2) \<and>
         syncDist (main_service w libs me poll mo cfg) d st ing t2 = (Ok (dist, e, st1), t3) \<and> no_error e \<and>
         (CreateAlias class \<longrightarrow> (\<exists>st2 e t4.
            syncAliases (main_service w libs me poll mo cfg) st1 dist class t3 = (Ok (st2, e), t4) \<and> no_error e))))"
proof (cases rule: main.reconcile_cases [of w libs me poll mo cfg ing "class" t])
  case (failed u)
  with assms(4) have "v = u" by simp
  with assms(5) failed show ?thesis by (auto simp: list_all_iff dest: not_update_ingress)
next
  case (groupless u)
  then show ?thesis by simp
next
  case (planned ci u d st t2)
  let ?s = "main_service w libs me poll mo cfg"
  from main.emits_plan [of w libs me poll mo cfg ing ci] obtain y where y: "t2 = (t @ u) @ y" "list_all read_only y"
    by (rule emitsE [where t = "t @ u"]) (simp add: planned(4))
  from main_carry_out_extends [OF assms(1)] obtain x where x: "snd (carry_out ?s ing class d st t2) = t2 @ x"
    by (rule emitsE)
  with assms(4) planned(5) y have "v = u @ y @ x" by simp
  with assms(5) planned(3) y(2) have "K8sUpdateIngress i \<in> set x" by (auto simp: list_all_iff dest: not_update_ingress)
  from released_after_aws [OF assms(1-3) x this assms(6)] obtain dist e st1 t3 where
    "IsBeingRemovedFromDesiredState ing" "syncDist ?s d st ing t2 = (Ok (dist, e, st1), t3)" "no_error e"
    "CreateAlias class \<longrightarrow> (\<exists>st2 e t4. syncAliases ?s st1 dist class t3 = (Ok (st2, e), t4) \<and> no_error e)"
    by blast
  moreover from this(1) planned(2) have "om_deletion ing \<noteq> None" by (auto simp: IsBeingRemovedFromDesiredState_def)
  ultimately show ?thesis using planned(4) by blast
qed

fun releases :: "api_call \<Rightarrow> bool" where
  "releases (K8sUpdateIngress i) \<longleftrightarrow> \<not> HasFinalizer i"
| "releases _ = False"

lemma retired_releases:
  "list_ex releases (snd (Reconcile (plain_service retired_world True) retired_ingress alias_class []))"
  by code_simp

lemma sample_finalizer_spec: "finalizer_spec sample_libs"
  by (simp add: finalizer_spec_def sample_libs_def)

theorem finalizer_released_last_witness:
  "\<exists>d st t dist e st1 t'. syncDist (plain_service retired_world True) d st retired_ingress t = (Ok (dist, e, st1), t') \<and> no_error e"
proof -
  let ?v = "snd (Reconcile (plain_service retired_world True) retired_ingress alias_class [])"
  have "\<exists>c \<in> set ?v. releases c" using retired_releases unfolding list_ex_iff .
  then obtain i where i: "K8sUpdateIngress i \<in> set ?v" "\<not> HasFinalizer i" by (metis releases.elims(2))
  have v: "snd (Reconcile (main_service retired_world sample_libs sample_multierr sample_poll sample_mo (plain_cfg True))
      retired_ingress alias_class []) = [] @ ?v"
    by (simp add: plain_service_def)
  have "HasGroupAnnotation retired_ingress"
    by (simp add: HasGroupAnnotation_def retired_ingress_def map_get_def)
  with finalizer_released_last [OF sample_poll_spec sample_multierr_spec sample_finalizer_spec v i]
  show ?thesis unfolding plain_service_def by blast
qed

section \<open>What a successful reconciliation has recorded\<close>

text \<open>The requests that record a status: its deletion, or its creation if needed and its update.\<close>

definition records_status :: "distribution \<Rightarrow> cdn_status \<Rightarrow> api_call list \<Rightarrow> bool" where
  "records_status d st calls \<longleftrightarrow>
     (if Dist_IsEmpty d then calls = [K8sDeleteStatus st]
      else if Status_Exists st then calls = [K8sUpdateStatus st]
      else (\<exists>created. calls = [K8sCreateStatus st, K8sUpdateStatus created]))"

lemma notify_run: "io_bind (io_notify c) f t = f () (t @ [c])"
  by (simp add: io_notify_def io_bind_call)

lemma handleResult_Ok:
  "handleResult ing st errs t = (Ok (), t') \<Longrightarrow> errs = [] \<and>
     t' = t @ [K8sEvent (ing_target ing) EventTypeNormal reasonSuccess,
               K8sEvent (OnStatus (cs_name st)) EventTypeNormal reasonSuccess]"
  by (auto simp: handleResult_def handleFailureWithStatus_def handleSuccess_def recordFailureOnIngress_def
      notify_run io_fail_apply io_bind_assoc Let_def SetDNSSync_def split: if_splits)

lemma upsertCDNStatus_calls:
  assumes "upsertCDNStatus s st t = (Ok (st', e), t')" and "no_error e"
    and "\<And>x. w_create_status (sv_world s) x \<noteq> Inl (MultiError [])"
  shows "if Status_Exists st then t' = t @ [K8sUpdateStatus st]
      else \<exists>created. t' = t @ [K8sCreateStatus st, K8sUpdateStatus created]"
proof (cases "Status_Exists st")
  case True
  with assms(1) show ?thesis
    by (auto simp: upsertCDNStatus_def io_bind_try_call io_return_apply split: sum.splits)
next
  case False
  show ?thesis
  proof (cases "w_create_status (sv_world s) (t @ [K8sCreateStatus st])")
    case (Inl err)
    with False assms(1) have "e = Some err"
      by (simp add: upsertCDNStatus_def io_bind_try_call io_return_apply)
    with Inl assms(2,3) show ?thesis by (auto simp: no_error_iff)
  next
    case (Inr created)
    with False assms(1) show ?thesis
      by (auto simp: upsertCDNStatus_def io_bind_try_call io_return_apply split: sum.splits)
  qed
qed

lemma deleteCDNStatus_calls: "snd (deleteCDNStatus s st t) = t @ [K8sDeleteStatus st]"
  by (simp add: deleteCDNStatus_def io_bind_try_call io_return_apply)

lemma reconcileFinalizer_run:
  "reconcileFinalizer s ing (length errs > 0 \<or> \<not> IsBeingRemovedFromDesiredState ing) t =
     (let o' = released (sv_libs s) ing errs; t1 = t @ [K8sUpdateIngress o'] in
      (Ok (case w_update_ingress (sv_world s) t1 of Inl e \<Rightarrow> (Some e, o') | Inr i \<Rightarrow> (None, i)), t1))"
  unfolding reconcileFinalizer_def Let_def io_bind_try_call released_def
  by (simp add: io_return_apply)

lemma reconcile_k8s_Ok:
  assumes "multierr_spec (sv_multierr s)" and "reconcile_k8s s ing d st errs t = (Ok (), t')"
    and "\<And>x. w_create_status (sv_world s) x \<noteq> Inl (MultiError [])"
  shows "errs = [] \<and> (\<exists>ing' calls name.
     t' = t @ [K8sUpdateIngress (released (sv_libs s) ing [])] @ calls @
       [K8sEvent (ing_target ing') EventTypeNormal reasonSuccess, K8sEvent (OnStatus name) EventTypeNormal reasonSuccess] \<and>
     w_update_ingress (sv_world s) (t @ [K8sUpdateIngress (released (sv_libs s) ing [])]) = Inr ing' \<and>
     records_status d (if IsBeingRemovedFromDesiredState ing'
       then RemoveIngressRef (om_namespace ing') (om_name ing') st else st) calls)"
proof -
  define t1 where "t1 = t @ [K8sUpdateIngress (released (sv_libs s) ing errs)]"
  define fe where "fe = (case w_update_ingress (sv_world s) t1 of Inl e \<Rightarrow> Some e | Inr i \<Rightarrow> None)"
  define ing' where "ing' = (case w_update_ingress (sv_world s) t1 of Inl e \<Rightarrow> released (sv_libs s) ing errs | Inr i \<Rightarrow> i)"
  define errs2 where "errs2 = (case fe of None \<Rightarrow> errs | Some e \<Rightarrow> errs @ [ErrorfV ''reconciling finalizer for ingress'' e])"
  define st2 where "st2 = (if length errs2 = 0 \<and> IsBeingRemovedFromDesiredState ing'
       then RemoveIngressRef (om_namespace ing') (om_name ing') st else st)"
  define X where "X = (if length errs2 = 0 \<and> Dist_IsEmpty d
        then io_bind (deleteCDNStatus s st2) (\<lambda>err. io_return (st2, err)) else upsertCDNStatus s st2)"
  have fin: "reconcileFinalizer s ing (length errs > 0 \<or> \<not> IsBeingRemovedFromDesiredState ing) t = (Ok (fe, ing'), t1)"
    unfolding reconcileFinalizer_run Let_def t1_def [symmetric] fe_def ing'_def by (simp split: sum.split)
  have errs2: "(case fe of None \<Rightarrow> errs | Some e \<Rightarrow> me_Append (sv_multierr s) (Some errs)
      [Some (ErrorfV ''reconciling finalizer for ingress'' e)]) = errs2"
    unfolding errs2_def multierr_simps [OF assms(1)] by (simp split: option.split)
  have run: "io_bind (reconcileFinalizer s ing (length errs > 0 \<or> \<not> IsBeingRemovedFromDesiredState ing)) F t = F (fe, ing') t1"
    for F :: "go_error option \<times> ingress \<Rightarrow> unit api"
    by (simp only: io_bind_def fin prod.case outcome.case)
  have "io_bind X (\<lambda>(st', err). handleResult ing' st' (me_Append (sv_multierr s) (Some errs2) [err])) t1 = (Ok (), t')"
    using assms(2) [unfolded reconcile_k8s_def Let_def run prod.case errs2, folded st2_def, folded X_def] .
  then obtain y t2 where y: "X t1 = (Ok y, t2)"
    and "handleResult ing' (fst y) (me_Append (sv_multierr s) (Some errs2) [snd y]) t2 = (Ok (), t')"
    unfolding split_beta io_bind_Ok_iff by blast
  from handleResult_Ok [OF this(2)] have e: "errs2 = []" "no_error (snd y)"
    and t': "t' = t2 @ [K8sEvent (ing_target ing') EventTypeNormal reasonSuccess,
      K8sEvent (OnStatus (cs_name (fst y))) EventTypeNormal reasonSuccess]"
    by (simp_all add: multierr_simps [OF assms(1)] no_error_def)
  from e(1) have "fe = None" "errs = []" by (auto simp: errs2_def split: option.splits)
  then have upd: "w_update_ingress (sv_world s) t1 = Inr ing'"
    by (auto simp: fe_def ing'_def split: sum.splits)
  have "\<exists>calls. t2 = t1 @ calls \<and> records_status d st2 calls"
  proof (cases "Dist_IsEmpty d")
    case True
    with y e(1) have "io_bind (deleteCDNStatus s st2) (\<lambda>err. io_return (st2, err)) t1 = (Ok y, t2)"
      by (simp add: X_def)
    then have "t2 = snd (deleteCDNStatus s st2 t1)" by (auto simp: io_bind_Ok_iff)
    with True show ?thesis by (simp add: deleteCDNStatus_calls records_status_def)
  next
    case False
    with y have "upsertCDNStatus s st2 t1 = (Ok (fst y, snd y), t2)" by (simp add: X_def)
    from upsertCDNStatus_calls [OF this e(2) assms(3)] False show ?thesis
      by (auto simp: records_status_def split: if_splits)
  qed
  then obtain calls where "t2 = t1 @ calls" "records_status d st2 calls" by blast
  with t' upd \<open>errs = []\<close> e(1) show ?thesis
    unfolding t1_def st2_def by (intro conjI exI [of _ ing'] exI [of _ calls] exI [of _ "cs_name (fst y)"]) simp_all
qed

text \<open>What a successful upsert leaves in the status.\<close>

lemma syncDist_info:
  assumes "syncDist s d st ing t = (Ok (dist, e, st1), t')" and "\<not> Dist_IsEmpty d"
    and "e \<noteq> Some (MultiError [])" and "no_error e"
  shows "cs_id st1 = dist_ID dist \<and> cs_arn st1 = dist_ARN dist \<and> cs_address st1 = dist_Address dist \<and>
    cs_aliases st1 = dist_AlternateDomains dist"
  using assms
  by (auto simp: syncDist_def upsertDistribution_def io_bind_try no_error_iff err_of_def SetAliases_def SetInfo_def
      io_return_apply Let_def split: prod.splits outcome.splits sum.splits)

text \<open>The course of a plan that is carried out with success.\<close>

lemma carry_out_Ok:
  assumes "multierr_spec me" and "\<And>x. w_create_status w x \<noteq> Inl (MultiError [])"
    and "carry_out (main_service w libs me poll mo cfg) ing class d st t2 = (Ok (), t')"
  shows "\<exists>dist e st1 t3 st2 t4 ing' calls name.
     syncDist (main_service w libs me poll mo cfg) d st ing t2 = (Ok (dist, e, st1), t3) \<and> no_error e \<and>
     (if CreateAlias class
      then \<exists>e. syncAliases (main_service w libs me poll mo cfg) st1 dist class t3 = (Ok (st2, e), t4) \<and> no_error e
      else st2 = st1 \<and> t4 = t3) \<and>
     t' = t4 @ [K8sUpdateIngress (released libs ing [])] @ calls @
       [K8sEvent (ing_target ing') EventTypeNormal reasonSuccess, K8sEvent (OnStatus name) EventTypeNormal reasonSuccess] \<and>
     w_update_ingress w (t4 @ [K8sUpdateIngress (released libs ing [])]) = Inr ing' \<and>
     records_status d (if IsBeingRemovedFromDesiredState ing'
       then RemoveIngressRef (om_namespace ing') (om_name ing') st2 else st2) calls"
proof -
  let ?s = "main_service w libs me poll mo cfg"
  from assms(3) obtain p t4 where aws: "reconcile_aws ?s ing class d st t2 = (Ok p, t4)"
    and k8s: "reconcile_k8s ?s ing d (fst p) (snd p) t4 = (Ok (), t')"
    unfolding carry_out_def split_beta by (auto simp: io_bind_Ok_iff)
  have me: "multierr_spec (sv_multierr ?s)" and cr: "\<And>x. w_create_status (sv_world ?s) x \<noteq> Inl (MultiError [])"
    using assms(1,2) by simp_all
  note tail = reconcile_k8s_Ok [OF me k8s cr, unfolded main_service_simps]
  then have "reconcile_aws ?s ing class d st t2 = (Ok (fst p, []), t4)" using aws by (cases p) simp
  from aws_clean [OF me this] obtain dist e st1 t1 where "syncDist ?s d st ing t2 = (Ok (dist, e, st1), t1)" "no_error e"
    "if CreateAlias class then \<exists>e. syncAliases ?s st1 dist class t1 = (Ok (fst p, e), t4) \<and> no_error e
     else fst p = st1 \<and> t4 = t1"
    by blast
  with tail show ?thesis by blast
qed

lemma reconcile_success_run:
  assumes "multierr_spec me" and "\<And>x. w_create_status w x \<noteq> Inl (MultiError [])"
    and "Reconcile (main_service w libs me poll mo cfg) ing class t = (Ok (), t')"
    and "HasGroupAnnotation ing"
  shows "\<exists>ci u d st t2 dist e st1 t3 st2 t4 ing' calls name. list_all is_event u \<and>
     reconcile_plan (main_service w libs me poll mo cfg) ing ci (t @ u) = (Ok (d, st), t2) \<and>
     syncDist (main_service w libs me poll mo cfg) d st ing t2 = (Ok (dist, e, st1), t3) \<and> no_error e \<and>
     (if CreateAlias class
      then \<exists>e. syncAliases (main_service w libs me poll mo cfg) st1 dist class t3 = (Ok (st2, e), t4) \<and> no_error e
      else st2 = st1 \<and> t4 = t3) \<and>
     t' = t4 @ [K8sUpdateIngress (released libs ing [])] @ calls @
       [K8sEvent (ing_target ing') EventTypeNormal reasonSuccess, K8sEvent (OnStatus name) EventTypeNormal reasonSuccess] \<and>
     w_update_ingress w (t4 @ [K8sUpdateIngress (released libs ing [])]) = Inr ing' \<and>
     records_status d (if IsBeingRemovedFromDesiredState ing'
       then RemoveIngressRef (om_namespace ing') (om_name ing') st2 else st2) calls"
proof (cases rule: main.reconcile_cases [of w libs me poll mo cfg ing "class" t])
  case (failed u)
  with assms(3) show ?thesis by simp
next
  case (groupless u)
  with assms(4) show ?thesis by simp
next
  case (planned ci u d st t2)
  from assms(3) planned(5) have "carry_out (main_service w libs me poll mo cfg) ing class d st t2 = (Ok (), t')" by simp
  from carry_out_Ok [OF assms(1,2) this] planned(3,4) show ?thesis by blast
qed

text \<open>
  C8. A successful reconciliation of an Ingress with a group, request by request: after the reads
  that made the plan, the distribution is synchronised and then, if the class asks for it, the
  aliases, without error; then the Ingress is written, without the finalizer exactly when it leaves
  the group; then the status is recorded: deleted when the group is empty, otherwise created if it
  does not exist yet and updated, with the reference of a leaving Ingress removed; and the last two
  requests are the success events. The DNS flag that is set with the events is not recorded.
\<close>

theorem reconcile_success:
  assumes "multierr_spec me" and "\<And>x. w_create_status w x \<noteq> Inl (MultiError [])"
    and "Reconcile (main_service w libs me poll mo cfg) ing class t = (Ok (), t')"
    and "HasGroupAnnotation ing"
  shows "\<exists>ci u d st t2 dist e st1 t3 st2 t4 ing' calls name. list_all is_event u \<and>
     reconcile_plan (main_service w libs me poll mo cfg) ing ci (t @ u) = (Ok (d, st), t2) \<and>
     syncDist (main_service w libs me poll mo cfg) d st ing t2 = (Ok (dist, e, st1), t3) \<and> no_error e \<and>
     (if CreateAlias class
      then \<exists>e. syncAliases (main_service w libs me poll mo cfg) st1 dist class t3 = (Ok (st2, e), t4) \<and> no_error e
      else st2 = st1 \<and> t4 = t3) \<and>
     t' = t4 @ [K8sUpdateIngress (released libs ing [])] @ calls @
       [K8sEvent (ing_target ing') EventTypeNormal reasonSuccess, K8sEvent (OnStatus name) EventTypeNormal reasonSuccess] \<and>
     w_update_ingress w (t4 @ [K8sUpdateIngress (released libs ing [])]) = Inr ing' \<and>
     records_status d (if IsBeingRemovedFromDesiredState ing'
       then RemoveIngressRef (om_namespace ing') (om_name ing') st2 else st2) calls"
  by (rule reconcile_success_run [OF assms])

lemma fresh_succeeds:
  "fst (Reconcile (plain_service fresh_world True) fresh_ingress alias_class []) = Ok ()"
  by code_simp

theorem reconcile_success_witness:
  "\<exists>d st t dist e st1 t'. syncDist (plain_service fresh_world True) d st fresh_ingress t = (Ok (dist, e, st1), t') \<and> no_error e"
proof -
  have run: "Reconcile (main_service fresh_world sample_libs sample_multierr sample_poll sample_mo (plain_cfg True))
      fresh_ingress alias_class [] = (Ok (), snd (Reconcile (plain_service fresh_world True) fresh_ingress alias_class []))"
    using fresh_succeeds by (simp add: plain_service_def prod_eq_iff)
  have grp: "HasGroupAnnotation fresh_ingress"
    by (simp add: HasGroupAnnotation_def fresh_ingress_def map_get_def)
  have cr: "w_create_status fresh_world x \<noteq> Inl (MultiError [])" for x
    by (simp add: fresh_world_def some_world_def)
  from reconcile_success [OF sample_multierr_spec cr run grp] show ?thesis
    unfolding plain_service_def by blast
qed

section \<open>The recorded DNS names\<close>

text \<open>The recorded names that a synchronisation asks to delete.\<close>

definition deletions :: "service \<Rightarrow> distribution \<Rightarrow> cdn_status \<Rightarrow> string list" where
  "deletions s dist st = (if DeletionEnabled (sv_cfg s)
     then (case cs_dns st of None \<Rightarrow> [] | Some d \<Rightarrow>
       getDeletions (NormalizeDomains (dist_AlternateDomains dist)) (dns_records d)) else [])"

lemma Domains_newAliases:
  "Domains (fst (newAliases s dist st class)) = NormalizeDomains (dist_AlternateDomains dist)"
  "Domains (snd (newAliases s dist st class)) = NormalizeDomains (deletions s dist st)"
  by (simp_all add: newAliases_def deletions_def Let_def split: option.split)

lemma syncAliases_cases:
  assumes "syncAliases s st dist class t = (Ok (st', e), t')"
  obtains up del t1 where "io_try (ar_Upsert (sv_aliases s) (fst (newAliases s dist st class))) t = (Ok up, t1)"
    and "io_try (ar_Delete (sv_aliases s) (snd (newAliases s dist st class))) t1 = (Ok del, t')"
    and "let st1 = (if err_of up = None then UpsertDNSRecords (Domains (fst (newAliases s dist st class))) st else st);
             st2 = (if err_of del = None then RemoveDNSRecords (Domains (snd (newAliases s dist st class))) st1 else st1) in
         st' = (if err_of up \<noteq> None \<or> err_of del \<noteq> None then SetDNSSync False st2 else st2)"
proof -
  let ?a = "newAliases s dist st class"
  from assms obtain up t1 del t2 where 1: "io_try (ar_Upsert (sv_aliases s) (fst ?a)) t = (Ok up, t1)"
    and 2: "io_try (ar_Delete (sv_aliases s) (snd ?a)) t1 = (Ok del, t2)"
    and "\<exists>x y. (let st1 = (if err_of up = None then UpsertDNSRecords (Domains (fst ?a)) st else st);
        st2 = (if err_of del = None then RemoveDNSRecords (Domains (snd ?a)) st1 else st1) in
        io_return (if err_of up \<noteq> None \<or> err_of del \<noteq> None then (SetDNSSync False st2, x) else (st2, y)))
        t2 = (Ok (st', e), t')"
    unfolding syncAliases_def Let_def split_beta io_bind_Ok_iff by blast
  then show thesis by (intro that [of up t1 del]) (auto simp: Let_def split: if_splits)
qed

lemma set_NormalizeDomains_normal:
  "list_all (\<lambda>r. normalizeDomain r = r) rs \<Longrightarrow> NormalizeDomains rs = rs"
  by (induction rs) (simp_all add: NormalizeDomains_def)

text \<open>They are the obsolete ones.\<close>

definition obsolete_records :: "service \<Rightarrow> distribution \<Rightarrow> cdn_status \<Rightarrow> string set" where
  "obsolete_records s dist st =
     (if DeletionEnabled (sv_cfg s) then status_records st - set (NormalizeDomains (dist_AlternateDomains dist)) else {})"

lemma set_deletions: "set (deletions s dist st) = obsolete_records s dist st"
proof (cases "DeletionEnabled (sv_cfg s)")
  case True
  show ?thesis
  proof (cases "cs_dns st")
    case None
    then have "deletions s dist st = []" by (simp add: deletions_def)
    with True None show ?thesis by (simp add: obsolete_records_def status_records_def)
  next
    case (Some d)
    with True have "deletions s dist st = filter (\<lambda>r. r \<notin> set (NormalizeDomains (dist_AlternateDomains dist))) (dns_records d)"
      by (simp add: deletions_def getDeletions_def contains_def list_ex_iff)
    with True Some show ?thesis by (auto simp: obsolete_records_def status_records_def)
  qed
next
  case False
  then have "deletions s dist st = []" by (simp add: deletions_def)
  with False show ?thesis by (simp add: obsolete_records_def)
qed

lemma deleted_domains:
  assumes "\<forall>r \<in> status_records st. normalizeDomain r = r"
  shows "set (Domains (snd (newAliases s dist st class))) = obsolete_records s dist st"
proof -
  have "list_all (\<lambda>r. normalizeDomain r = r) (deletions s dist st)"
    using assms set_deletions [of s dist st] by (auto simp: list_all_iff obsolete_records_def split: if_splits)
  from set_NormalizeDomains_normal [OF this] show ?thesis
    by (simp add: Domains_newAliases set_deletions)
qed

lemma normal_NormalizeDomains: "r \<in> set (NormalizeDomains ds) \<Longrightarrow> normalizeDomain r = r"
  by (auto simp: NormalizeDomains_def)


definition old_status :: cdn_status where
  "old_status = zero_cdn_status\<lparr>cs_name := ''g'', cs_resource_version := ''1'',
     cs_dns := Some \<lparr>dns_records = [''old.x.'', ''www.x.''], dns_synced = True\<rparr>\<rparr>"

definition www_dist :: distribution where
  "www_dist = zero_distribution\<lparr>dist_ID := ''E1'', dist_Address := ''d1.cloudfront.net'',
     dist_AlternateDomains := [''www.x''], dist_CustomOrigins := [zero_origin\<lparr>or_Host := ''h''\<rparr>]\<rparr>"

lemma sample_sync_aliases:
  "\<exists>st' e t'. syncAliases (plain_service some_world True) old_status www_dist alias_class [] = (Ok (st', e), t')"
proof -
  have "case fst (syncAliases (plain_service some_world True) old_status www_dist alias_class []) of
      Ok _ \<Rightarrow> True | _ \<Rightarrow> False"
    by code_simp
  then show ?thesis by (cases "syncAliases (plain_service some_world True) old_status www_dist alias_class []")
    (auto split: outcome.splits)
qed

lemma old_status_ok: "wf_status old_status" "\<forall>r \<in> status_records old_status. normalizeDomain r = r"
proof -
  show "wf_status old_status" by (simp add: wf_status_def old_status_def zero_cdn_status_def)
  have "normalizeDomain ''old.x.'' = ''old.x.''" "normalizeDomain ''www.x.'' = ''www.x.''" by code_simp+
  then show "\<forall>r \<in> status_records old_status. normalizeDomain r = r"
    by (simp add: old_status_def status_records_def)
qed


section \<open>A failed synchronisation\<close>

text \<open>
  C12. A failed create or update of a distribution takes the DNS records of the group with it. The
  service goes on with an empty distribution, so with deletion enabled every recorded name is
  considered obsolete: nothing is created, and the deletion of the address records of all recorded
  names is requested although the group still has active Ingresses and a working distribution. Only
  the A records are named, since the empty distribution has no IPv6.
\<close>

theorem failed_sync_drops_aliases:
  assumes "syncDist s d st ing t = (Ok (dist, e, st'), t')" and "\<not> Dist_IsEmpty d" and "e \<noteq> None"
    and "DeletionEnabled (sv_cfg s)" and "cs_dns st = Some rec"
  shows "as_Entries (fst (newAliases s dist st' class)) = [] \<and>
     Domains (snd (newAliases s dist st' class)) = NormalizeDomains (dns_records rec) \<and>
     as_Target (snd (newAliases s dist st' class)) = [] \<and>
     list_all (\<lambda>en. en_Types en = [RRTypeA]) (as_Entries (snd (newAliases s dist st' class)))"
proof -
  have "dist = zero_distribution" and st': "cs_dns st' = cs_dns st"
    using assms(1-3)
    by (auto simp: syncDist_def upsertDistribution_def io_bind_try err_of_def io_return_apply Let_def
        SetIngressRef_def split: prod.splits outcome.splits sum.splits)
  moreover from this(1) have "deletions s dist st' = dns_records rec"
    using assms(4,5) st' by (simp add: deletions_def getDeletions_def zero_distribution_def NormalizeDomains_def contains_def)
  ultimately show ?thesis
    unfolding Domains_newAliases
    by (simp add: newAliases_def NewAliases_def zero_distribution_def Let_def list_all_iff)
qed

text \<open>A world in which the update of the distribution fails while the group has an active Ingress.\<close>

definition throttled_world :: world where
  "throttled_world = some_world\<lparr>w_list_ingresses := \<lambda>_. Inr [fresh_ingress],
     w_get_resources := \<lambda>_. Inr [Some ''arn:aws:cloudfront::1:distribution/E1''],
     w_get_status := \<lambda>_. Inr old_status,
     w_update_ingress := \<lambda>_. Inr fresh_ingress,
     w_update_distribution := \<lambda>_. Inl (AwsError ''Throttling'' []),
     w_list_record_sets := \<lambda>t. (case last t of
       ListResourceRecordSets hz n (Some _) _ \<Rightarrow> Inr [zero_rrset\<lparr>rr_Name := n, rr_Type := RRTypeTxt,
         rr_Records := [as_OwnershipTXTValue (NewAliases [] [] ''own'' [] False)]\<rparr>]
     | _ \<Rightarrow> Inr [])\<rparr>"

lemma throttled_sync:
  "case fst (syncDist (plain_service throttled_world True) www_dist old_status fresh_ingress []) of
     Ok (_, Some _, _) \<Rightarrow> True | _ \<Rightarrow> False"
  by code_simp

text \<open>The whole reconciliation of the active Ingress deletes the DNS records of its group.\<close>

fun deletes_records :: "string \<Rightarrow> api_call \<Rightarrow> bool" where
  "deletes_records n (ChangeResourceRecordSets _ _ chs) =
     list_ex (\<lambda>c. ch_Action c = ChangeActionDelete \<and> rr_Name (ch_RRSet c) = n \<and> rr_Type (ch_RRSet c) = RRTypeA) chs"
| "deletes_records n _ = False"

lemma throttled_deletes_records:
  "list_ex (deletes_records ''www.x.'') (snd (Reconcile (plain_service throttled_world True) fresh_ingress alias_class []))"
  by code_simp

theorem failed_sync_drops_aliases_witness:
  "\<exists>dist e st' t'. syncDist (plain_service throttled_world True) www_dist old_status fresh_ingress [] = (Ok (dist, e, st'), t') \<and>
     Domains (snd (newAliases (plain_service throttled_world True) dist st' alias_class)) = [''old.x.'', ''www.x.'']"
proof -
  obtain dist err st' t' where run: "syncDist (plain_service throttled_world True) www_dist old_status fresh_ingress [] =
      (Ok (dist, Some err, st'), t')"
    using throttled_sync
    by (cases "syncDist (plain_service throttled_world True) www_dist old_status fresh_ingress []")
      (auto split: outcome.splits prod.splits option.splits)
  have names: "NormalizeDomains [''old.x.'', ''www.x.''] = [''old.x.'', ''www.x.'']" by code_simp
  have "\<not> Dist_IsEmpty www_dist" by (simp add: Dist_IsEmpty_def www_dist_def)
  moreover have "DeletionEnabled (sv_cfg (plain_service throttled_world True))"
    by (simp add: plain_service_def plain_cfg_def)
  moreover have "cs_dns old_status = Some \<lparr>dns_records = [''old.x.'', ''www.x.''], dns_synced = True\<rparr>"
    by (simp add: old_status_def)
  ultimately show ?thesis using failed_sync_drops_aliases [OF run] run names by auto
qed

end
