(* ===== verification/Served.thy ===== *)
theory Served
  imports Service_Status
begin

text \<open>
  What a successful reconciliation means for the users of the cluster: the configuration CloudFront
  was sent serves every active Ingress of the group, host by host and path by path, and nothing else.
\<close>

section \<open>What an Ingress asks for\<close>

text \<open>The path patterns of a path and type, and the pairs of origin host and pattern that are routed.\<close>

definition key_patterns :: "string \<times> string \<Rightarrow> string set" where
  "key_patterns x = set (pathPatternsForPath \<lparr>PathPattern = fst x, PathType = snd x, path_fa = empty_fa\<rparr>)"

definition lb_host :: "ingress \<Rightarrow> string" where
  "lb_host k = ing_lb k ! 0"

definition user_origins :: "k8s_libs \<Rightarrow> ingress \<Rightarrow> cdn_ingress list" where
  "user_origins libs k = (case cdnIngressesForUserOrigins libs k of Ok uo \<Rightarrow> uo | _ \<Rightarrow> [])"

definition routed_hosts :: "k8s_libs \<Rightarrow> ingress \<Rightarrow> string set" where
  "routed_hosts libs k = insert (lb_host k) (OriginHost ` set (user_origins libs k))"

definition routed_patterns :: "k8s_libs \<Rightarrow> ingress \<Rightarrow> (string \<times> string) set" where
  "routed_patterns libs k =
     (\<Union>p \<in> set (spec_paths k). Pair (lb_host k) ` key_patterns (hp_path p, the (hp_type p))) \<union>
     (\<Union>i \<in> set (user_origins libs k). Pair (OriginHost i) ` path_pats (UnmergedPaths i))"

text \<open>A configuration serves the active Ingresses of a group in a listing, and nothing else.\<close>

definition serves :: "k8s_libs \<Rightarrow> config \<Rightarrow> string \<Rightarrow> ingress list \<Rightarrow> aws_dist_config \<Rightarrow> bool" where
  "serves libs cfg grp items c \<longleftrightarrow> (let act = {k \<in> set items. active_in grp k} in
     dc_Enabled c \<and>
     ao_Id ` set (config_origins c) = insert (DefaultOriginDomain cfg) (\<Union>k \<in> act. routed_hosts libs k) \<and>
     (\<forall>a \<in> set (config_origins c). ao_DomainName a = ao_Id a) \<and>
     (\<lambda>b. (acb_TargetOriginId b, acb_PathPattern b)) ` set (q_items (dc_CacheBehaviors c)) = (\<Union>k \<in> act. routed_patterns libs k) \<and>
     set (q_items (dc_Aliases c)) = (\<Union>k \<in> act. set (alternateDomainNames k)))"

section \<open>From the listing to the translated Ingresses\<close>

lemma patterns_by_key: "set (pathPatternsForPath p) = key_patterns (PathPattern p, PathType p)"
  by (simp add: key_patterns_def pathPatternsForPath_def)

lemma path_pats_by_key: "path_pats ps = (\<Union>x \<in> (\<lambda>p. (PathPattern p, PathType p)) ` set ps. key_patterns x)"
  by (simp add: path_pats_def patterns_by_key)

lemma out_mapM_keys:
  "out_mapM f xs = Ok ys \<Longrightarrow> (\<And>x y. f x = Ok y \<Longrightarrow> g y = h x) \<Longrightarrow> map g ys = map h xs"
  by (induction xs arbitrary: ys) (auto simp: out_bind_Ok_iff)

lemma deref_Ok_iff: "deref v = Ok x \<longleftrightarrow> v = Some x"
  by (cases v) (simp_all add: deref_def)

text \<open>The translation keeps the paths with their types.\<close>

lemma unmerged_keys:
  assumes "NewCDNIngressFromV1 libs k class = Ok ci"
  shows "map (\<lambda>p. (PathPattern p, PathType p)) (UnmergedPaths ci) = map (\<lambda>p. (hp_path p, the (hp_type p))) (spec_paths k)"
proof -
  from assms have "pathsV1 libs k = Ok (UnmergedPaths ci)"
    by (auto simp: NewCDNIngressFromV1_def out_bind_Ok_iff)
  then consider arn where "pathsForViewerFunction k arn = Ok (UnmergedPaths ci)"
    | fa where "pathsForFunctionAssociations k fa = Ok (UnmergedPaths ci)"
    by (auto simp: pathsV1_def out_bind_Ok_iff Let_def split: if_splits)
  then show ?thesis
  proof cases
    case 1
    then show ?thesis unfolding pathsForViewerFunction_def
      by (rule out_mapM_keys) (auto simp: out_bind_Ok_iff deref_Ok_iff)
  next
    case 2
    then show ?thesis unfolding pathsForFunctionAssociations_def
      by (rule out_mapM_keys) (auto simp: out_bind_Ok_iff deref_Ok_iff Let_def split: option.splits)
  qed
qed

lemma translated_fields:
  assumes "NewCDNIngressFromV1 libs k class = Ok ci" and "active_in grp k"
  shows "OriginHost ci = lb_host k" "AlternateDomainNames ci = alternateDomainNames k"
    "path_pats (UnmergedPaths ci) = (\<Union>p \<in> set (spec_paths k). key_patterns (hp_path p, the (hp_type p)))"
proof -
  show "OriginHost ci = lb_host k" "AlternateDomainNames ci = alternateDomainNames k"
    using assms by (auto simp: NewCDNIngressFromV1_def out_bind_Ok_iff active_in_def lb_host_def)
  show "path_pats (UnmergedPaths ci) = (\<Union>p \<in> set (spec_paths k). key_patterns (hp_path p, the (hp_type p)))"
    using arg_cong [OF unmerged_keys [OF assms(1)], of set]
    unfolding path_pats_by_key by (simp add: image_image)
qed

lemma user_origin_domains:
  "cdnIngressesForUserOrigins libs k = Ok uo \<Longrightarrow> i \<in> set uo \<Longrightarrow> AlternateDomainNames i = []"
  by (auto simp: cdnIngressesForUserOrigins_def out_bind_Ok_iff split: option.splits)

text \<open>What is fetched for a group: every active Ingress followed by its user origins.\<close>

lemma fetched_group:
  assumes "FetchBy w libs class (isPartOfDesiredState ci) t = (Ok ings, t')"
    and "NewCDNIngressFromV1 libs ing class = Ok ci" and "w_list_ingresses w t' = Inr items"
  shows "i \<in> set ings \<longleftrightarrow> (\<exists>k \<in> {k \<in> set items. active_in (groupAnnotationValue ing) k}.
    \<exists>j. NewCDNIngressFromV1 libs k class = Ok j \<and> i \<in> insert j (set (user_origins libs k)))"
proof -
  from assms(1,3) obtain parts where all: "list_all2 (contributes libs class (isPartOfDesiredState ci)) items parts"
    and ings: "ings = concat parts" by (auto simp: fetch_by_iff)
  have part: "i \<in> set part \<longleftrightarrow> active_in (groupAnnotationValue ing) k \<and>
      (\<exists>j. NewCDNIngressFromV1 libs k class = Ok j \<and> i \<in> insert j (set (user_origins libs k)))"
    if "contributes libs class (isPartOfDesiredState ci) k part" for k part
    using that part_of_desired_iff [OF _ assms(2)]
    by (auto simp: contributes_def user_origins_def split: if_splits)
  from all have "i \<in> set (concat parts) \<longleftrightarrow> (\<exists>k \<in> set items. active_in (groupAnnotationValue ing) k \<and>
      (\<exists>j. NewCDNIngressFromV1 libs k class = Ok j \<and> i \<in> insert j (set (user_origins libs k))))"
  proof (induction rule: list_all2_induct)
    case (Cons k ks p ps)
    then show ?case using part [OF Cons.hyps(1)] by simp
  qed simp
  then show ?thesis unfolding ings by blast
qed

lemma fetched_translates:
  assumes "FetchBy w libs class pred t = (Ok ings, t')" and "w_list_ingresses w t' = Inr items" and "k \<in> set items"
  shows "\<exists>j. NewCDNIngressFromV1 libs k class = Ok j"
  using assms by (auto simp: fetch_by_iff list_all2_conv_all_nth in_set_conv_nth contributes_def)

section \<open>From the translated Ingresses to the configuration\<close>

lemma newOrigin_behaviors:
  assumes "is_order ord"
  shows "set (or_Behaviors (newOrigin ord ing cfg shared)) =
    ingress_behavior ing cfg shared ` path_pats (PathsFromOrigin shared (OriginHost ing))"
  by (simp add: newOrigin_eq [OF assms] order_set [OF assms] set_behaviors_of_paths image_image)

lemma UN_by_key: "(\<Union>h \<in> H ` I. Pair h ` (\<Union>i \<in> {i \<in> I. H i = h}. P i)) = (\<Union>i \<in> I. Pair (H i) ` P i)"
  by auto

lemma shared_patterns:
  assumes "is_order ordh" and "is_order ordp" and "NewSharedIngressParams ordh ordp ings = Ok shared"
  shows "path_pats (PathsFromOrigin shared h) = (\<Union>i \<in> {i \<in> set ings. OriginHost i = h}. path_pats (UnmergedPaths i))"
  unfolding path_pats_by_key shared_paths [OF assms] by blast

text \<open>The behaviors of the custom origins of the desired distribution, as pairs of host and pattern.\<close>

lemma custom_behaviors:
  assumes "wf_orders (sv_orders s)" and "is_order (sv_ord_hosts s)" and "is_order (sv_ord_paths s)"
    and "NewSharedIngressParams (sv_ord_hosts s) (sv_ord_paths s) ings = Ok shared"
    and "newDistribution s ings grp shared arn t = (Ok d, t')"
  shows "(\<lambda>b. (bh_OriginHost b, bh_PathPattern b)) ` set (concat (map or_Behaviors (dist_CustomOrigins d))) =
    (\<Union>i \<in> set ings. Pair (OriginHost i) ` path_pats (UnmergedPaths i))"
proof -
  let ?O = "ingress_origin s shared"
  have ord: "is_order (ord_behaviors (sv_orders s))" using assms(1) by (simp add: wf_orders_def)
  have hosts: "or_Host ` set (dist_CustomOrigins d) = OriginHost ` set ings"
    and origins: "set (dist_CustomOrigins d) = {a. last_for (map ?O ings) (or_Host a) = Some a}"
    using desired_facts [OF assms(1,5)] unfolding set_map by blast+
  have pairs: "(\<lambda>b. (bh_OriginHost b, bh_PathPattern b)) ` set (or_Behaviors a) =
      Pair (or_Host a) ` path_pats (PathsFromOrigin shared (or_Host a))"
    if a: "a \<in> set (dist_CustomOrigins d)" for a
  proof -
    from a have "last_for (map ?O ings) (or_Host a) = Some a" unfolding origins by simp
    from last_for_iff(2) [OF this] obtain i where "a = ?O i" by auto
    then show ?thesis
      by (simp add: newOrigin_behaviors [OF ord] newOrigin_Host [OF ord] image_image ingress_behavior_def)
  qed
  have "(\<lambda>b. (bh_OriginHost b, bh_PathPattern b)) ` set (concat (map or_Behaviors (dist_CustomOrigins d))) =
      (\<Union>a \<in> set (dist_CustomOrigins d). (\<lambda>b. (bh_OriginHost b, bh_PathPattern b)) ` set (or_Behaviors a))"
    by (simp add: image_UN)
  also have "\<dots> = (\<Union>a \<in> set (dist_CustomOrigins d). Pair (or_Host a) ` path_pats (PathsFromOrigin shared (or_Host a)))"
    using pairs by (intro SUP_cong refl)
  also have "\<dots> = (\<Union>h \<in> or_Host ` set (dist_CustomOrigins d). Pair h ` path_pats (PathsFromOrigin shared h))"
    by (simp add: image_image)
  also have "\<dots> = (\<Union>i \<in> set ings. Pair (OriginHost i) ` path_pats (UnmergedPaths i))"
    unfolding hosts shared_patterns [OF assms(2-4)] by (rule UN_by_key)
  finally show ?thesis .
qed

text \<open>The configuration of an update.\<close>

lemma update_config_of:
  assumes "c = update_config observed synced root (newAWSDistributionConfig oh d ref cfg)"
  shows "dc_Enabled c" "set (q_items (dc_Aliases c)) = set (dist_AlternateDomains d)"
    "ao_Id ` set (config_origins c) = insert (or_Host (dist_DefaultOrigin d)) (or_Host ` set (dist_CustomOrigins d))"
    "a \<in> set (config_origins c) \<Longrightarrow> ao_DomainName a = ao_Id a"
    "(\<lambda>b. (acb_TargetOriginId b, acb_PathPattern b)) ` set (q_items (dc_CacheBehaviors c)) =
      (\<lambda>b. (bh_OriginHost b, bh_PathPattern b)) ` set (concat (map or_Behaviors (dist_CustomOrigins d)))"
    "q_items (dc_Aliases c) = dist_AlternateDomains d"
proof -
  show "q_items (dc_Aliases c) = dist_AlternateDomains d"
    by (simp add: assms update_config_def forEachOrigin_def newAWSDistributionConfig_def Let_def)
  show "dc_Enabled c" "set (q_items (dc_Aliases c)) = set (dist_AlternateDomains d)"
    by (simp_all add: assms update_config_def forEachOrigin_def newAWSDistributionConfig_def Let_def)
  show "ao_Id ` set (config_origins c) = insert (or_Host (dist_DefaultOrigin d)) (or_Host ` set (dist_CustomOrigins d))"
    "a \<in> set (config_origins c) \<Longrightarrow> ao_DomainName a = ao_Id a"
    by (auto simp: assms config_origins_update newAWSOrigin_def image_image)
  have "q_items (dc_CacheBehaviors c) = map newCacheBehavior (SortedCustomBehaviors d)"
    by (simp add: assms update_config_def forEachOrigin_def newAWSDistributionConfig_def Let_def)
  moreover have "set (SortedCustomBehaviors d) = set (concat (map or_Behaviors (dist_CustomOrigins d)))"
    by (simp add: SortedCustomBehaviors_def)
  moreover have "acb_TargetOriginId (newCacheBehavior b) = bh_OriginHost b \<and> acb_PathPattern (newCacheBehavior b) = bh_PathPattern b" for b
    by (simp add: newCacheBehavior_def baseCacheBehavior_def Let_def)
  ultimately show "(\<lambda>b. (acb_TargetOriginId b, acb_PathPattern b)) ` set (q_items (dc_CacheBehaviors c)) =
      (\<lambda>b. (bh_OriginHost b, bh_PathPattern b)) ` set (concat (map or_Behaviors (dist_CustomOrigins d)))"
    by (simp add: image_image)
qed

text \<open>Whatever is collected over the listed Ingresses can be collected over the active Ingresses of the group.\<close>

lemma fetched_union:
  fixes f :: "cdn_ingress \<Rightarrow> 'x set"
  assumes ci: "NewCDNIngressFromV1 libs ing class = Ok ci"
    and fetch: "FetchBy w libs class (isPartOfDesiredState ci) t = (Ok ings, ta)" and items: "w_list_ingresses w ta = Inr items"
    and fg: "\<And>k j. active_in (groupAnnotationValue ing) k \<Longrightarrow> NewCDNIngressFromV1 libs k class = Ok j \<Longrightarrow>
        f j \<union> (\<Union>i \<in> set (user_origins libs k). f i) = g k"
  shows "(\<Union>i \<in> set ings. f i) = (\<Union>k \<in> {k \<in> set items. active_in (groupAnnotationValue ing) k}. g k)"
proof (intro equalityI subsetI)
  let ?grp = "groupAnnotationValue ing"
  note fetched = fetched_group [OF fetch ci items]
  fix x assume "x \<in> (\<Union>i \<in> set ings. f i)"
  then obtain i where i: "i \<in> set ings" "x \<in> f i" by blast
  from i(1) obtain k j where k: "k \<in> {k \<in> set items. active_in ?grp k}" "NewCDNIngressFromV1 libs k class = Ok j"
    "i \<in> insert j (set (user_origins libs k))" unfolding fetched by blast
  with i(2) fg [of k j] show "x \<in> (\<Union>k \<in> {k \<in> set items. active_in ?grp k}. g k)" by blast
next
  let ?grp = "groupAnnotationValue ing"
  note fetched = fetched_group [OF fetch ci items]
  fix x assume "x \<in> (\<Union>k \<in> {k \<in> set items. active_in ?grp k}. g k)"
  then obtain k where k: "k \<in> set items" "active_in ?grp k" "x \<in> g k" by blast
  from fetched_translates [OF fetch items k(1)] obtain j where j: "NewCDNIngressFromV1 libs k class = Ok j" by blast
  with k fg [of k j] obtain i where "i \<in> insert j (set (user_origins libs k))" "x \<in> f i" by blast
  moreover from this(1) k j have "i \<in> set ings" unfolding fetched by blast
  ultimately show "x \<in> (\<Union>i \<in> set ings. f i)" by blast
qed

text \<open>Together: an update for the desired distribution of a group serves the listing it was made from.\<close>

lemma update_serves:
  assumes "wf_orders (mo_build mo)" and "is_order (mo_hosts mo)" and "is_order (mo_paths mo)"
    and ci: "NewCDNIngressFromV1 libs ing class = Ok ci"
    and fetch: "FetchBy w libs class (isPartOfDesiredState ci) t = (Ok ings, ta)" and items: "w_list_ingresses w ta = Inr items"
    and shared: "NewSharedIngressParams (mo_hosts mo) (mo_paths mo) ings = Ok shared"
    and dist: "newDistribution (main_service w libs me poll mo cfg) ings grp' shared arn tb = (Ok d, tc)"
    and same: "dist_CustomOrigins d' = dist_CustomOrigins d" "dist_DefaultOrigin d' = dist_DefaultOrigin d"
      "dist_AlternateDomains d' = dist_AlternateDomains d"
    and c: "c = update_config observed synced root (newAWSDistributionConfig oh d' ref cfg')"
  shows "serves libs cfg (groupAnnotationValue ing) items c"
proof -
  let ?s = "main_service w libs me poll mo cfg" and ?grp = "groupAnnotationValue ing"
  have orders: "sv_orders ?s = mo_build mo" "sv_ord_hosts ?s = mo_hosts mo" "sv_ord_paths ?s = mo_paths mo"
    by (simp_all add: main_service_def)
  note facts = desired_facts [OF _ dist, unfolded orders, OF assms(1)]
  have hosts: "or_Host ` set (dist_CustomOrigins d) = OriginHost ` set ings"
    and default: "or_Host (dist_DefaultOrigin d) = DefaultOriginDomain cfg"
    and domains: "set (dist_AlternateDomains d) = (\<Union>i \<in> set ings. set (AlternateDomainNames i))"
    using facts unfolding set_map main_service_simps by blast+
  note behaviors = custom_behaviors [OF _ _ _ _ dist, unfolded orders, OF assms(1-3) shared]
  note union = fetched_union [OF ci fetch items]
  have "(\<Union>i \<in> set ings. {OriginHost i}) = (\<Union>k \<in> {k \<in> set items. active_in ?grp k}. routed_hosts libs k)"
    by (rule union) (auto simp: routed_hosts_def translated_fields(1))
  then have hosts': "OriginHost ` set ings = (\<Union>k \<in> {k \<in> set items. active_in ?grp k}. routed_hosts libs k)"
    by (simp add: UNION_singleton_eq_range)
  have domains': "(\<Union>i \<in> set ings. set (AlternateDomainNames i)) =
      (\<Union>k \<in> {k \<in> set items. active_in ?grp k}. set (alternateDomainNames k))"
  proof (rule union)
    fix k j assume kj: "active_in ?grp k" "NewCDNIngressFromV1 libs k class = Ok j"
    have "AlternateDomainNames i = []" if "i \<in> set (user_origins libs k)" for i
      using that user_origin_domains [of libs k]
      by (cases "cdnIngressesForUserOrigins libs k") (simp_all add: user_origins_def)
    then show "set (AlternateDomainNames j) \<union> (\<Union>i \<in> set (user_origins libs k). set (AlternateDomainNames i)) =
        set (alternateDomainNames k)"
      by (simp add: translated_fields(2) [OF kj(2,1)])
  qed
  have patterns': "(\<Union>i \<in> set ings. Pair (OriginHost i) ` path_pats (UnmergedPaths i)) =
      (\<Union>k \<in> {k \<in> set items. active_in ?grp k}. routed_patterns libs k)"
    by (rule union) (simp add: routed_patterns_def translated_fields(1,3) image_UN)
  note upd = update_config_of [OF c]
  show ?thesis
    unfolding serves_def Let_def
  proof (intro conjI ballI)
    show "ao_Id ` set (config_origins c) =
        insert (DefaultOriginDomain cfg) (\<Union>k \<in> {k \<in> set items. active_in ?grp k}. routed_hosts libs k)"
      by (simp only: upd(3) same hosts default hosts')
    show "(\<lambda>b. (acb_TargetOriginId b, acb_PathPattern b)) ` set (q_items (dc_CacheBehaviors c)) =
        (\<Union>k \<in> {k \<in> set items. active_in ?grp k}. routed_patterns libs k)"
      by (simp only: upd(5) same behaviors patterns')
    show "set (q_items (dc_Aliases c)) = (\<Union>k \<in> {k \<in> set items. active_in ?grp k}. set (alternateDomainNames k))"
      by (simp only: upd(2) same domains domains')
  qed (fact upd(1), rule upd(4))
qed

section \<open>The update that is sent\<close>

fun is_update :: "api_call \<Rightarrow> bool" where
  "is_update (UpdateDistribution _ _ _) = True"
| "is_update _ = False"

lemma is_update_kinds:
  "is_update c \<Longrightarrow> writes_distribution c" "sync_last_call c \<Longrightarrow> \<not> is_update c" "k8s_write c \<Longrightarrow> \<not> is_update c"
  "dns_call c \<Longrightarrow> \<not> is_update c" "sync_update r d t c \<Longrightarrow> is_update c"
  by (cases c; auto simp: sync_update_def)+

text \<open>Requests that a computation has made whenever it succeeds.\<close>

definition reaches :: "(api_call \<Rightarrow> bool) \<Rightarrow> 'a api \<Rightarrow> bool" where
  "reaches P m \<longleftrightarrow> (\<forall>t x t'. m t = (Ok x, t') \<longrightarrow> (\<exists>v. t' = t @ v \<and> list_ex P v))"

lemma reachesD: "reaches P m \<Longrightarrow> m t = (Ok x, t') \<Longrightarrow> \<exists>v. t' = t @ v \<and> list_ex P v"
  unfolding reaches_def by blast

lemma reaches_call: "P c \<Longrightarrow> reaches P (io_call c resp)"
  by (auto simp: reaches_def io_call_Ok_iff)

lemma reaches_wrap: "reaches P m \<Longrightarrow> reaches P (io_wrap e m)"
  by (simp add: reaches_def)

lemma reaches_first:
  assumes "reaches P m" and "\<And>x. emits Q (f x)"
  shows "reaches P (io_bind m f)"
  unfolding reaches_def
proof (intro allI impI)
  fix t y t' assume "io_bind m f t = (Ok y, t')"
  then obtain x t1 where 1: "m t = (Ok x, t1)" and 2: "f x t1 = (Ok y, t')" unfolding io_bind_Ok_iff by blast
  from assms(2) obtain s where "t' = t1 @ s" by (rule emitsE [where t = t1 and m = "f x"]) (simp add: 2)
  with reachesD [OF assms(1) 1] show "\<exists>v. t' = t @ v \<and> list_ex P v" by auto
qed

lemma reaches_then:
  assumes "emits Q m" and "\<And>x. reaches P (f x)"
  shows "reaches P (io_bind m f)"
  unfolding reaches_def
proof (intro allI impI)
  fix t y t' assume "io_bind m f t = (Ok y, t')"
  then obtain x t1 where 1: "m t = (Ok x, t1)" and 2: "f x t1 = (Ok y, t')" unfolding io_bind_Ok_iff by blast
  from assms(1) obtain s where "t1 = t @ s" by (rule emitsE [where t = t]) (simp add: 1)
  with reachesD [OF assms(2) 2] show "\<exists>v. t' = t @ v \<and> list_ex P v" by auto
qed

lemma sync_reaches_update: "reaches is_update (dist_Sync (main_repo w cfg poll oh ot) d)"
  unfolding dist_Sync_def Let_def split_beta DistributionConfigByID_def
  by (rule reaches_then [OF emits_ask], rule reaches_then [OF emits_wrap [OF emits_call [where P = "\<lambda>_. True"]]], simp,
      rule reaches_then [OF emits_wrap [OF main_client.emits_syncOACs]], rule reaches_then [OF emits_lift [where P = "\<lambda>_. True"]],
      rule reaches_first [OF reaches_wrap [OF reaches_call]], simp, rule emits_wrap [OF main_client.emits_postUpdate])

text \<open>A successful synchronisation sends exactly one update.\<close>

lemma sync_Ok_update:
  assumes "dist_Sync (main_repo w cfg poll oh ot) d t = (Ok d', t')"
  shows "\<exists>v c. t' = t @ v \<and> filter is_update v = [c] \<and> sync_update (main_repo w cfg poll oh ot) d t c"
proof -
  let ?r = "main_repo w cfg poll oh ot"
  obtain pre post where run: "snd (dist_Sync ?r d t) = t @ pre @ post"
    and pre: "list_all (Not \<circ> writes_distribution) pre"
    and post: "post = [] \<or> (\<exists>c s. post = c # s \<and> sync_update ?r d t c \<and> list_all sync_last_call s)"
    using main_client.sync_update_phased [where w = w and cfg = cfg and poll = poll and oh = oh and ot = ot and d = d and t = t]
    unfolding phased_def by blast
  from reachesD [OF sync_reaches_update assms] run assms have "list_ex is_update (pre @ post)" by auto
  moreover have none: "filter is_update pre = []"
    using pre is_update_kinds(1) by (fastforce simp: filter_empty_conv list_all_iff)
  then have "\<not> list_ex is_update pre" by (auto simp: list_ex_iff filter_empty_conv)
  ultimately have "list_ex is_update post" by simp
  with post obtain c s where p: "post = c # s" "sync_update ?r d t c" "list_all sync_last_call s" by auto
  have "filter is_update s = []"
    using p(3) is_update_kinds(2) by (fastforce simp: filter_empty_conv list_all_iff)
  with p none is_update_kinds(5) [OF p(2)] have "filter is_update (pre @ post) = [c]" by simp
  with run assms p(2) show ?thesis by auto
qed

lemma wrapped_error: "io_try (io_wrap (ErrorfV f) m) t = (Ok (Inl e), t') \<Longrightarrow> \<exists>e'. e = ErrorfV f e'"
  by (auto simp: io_try_def io_wrap_def split: prod.splits outcome.splits) (metis out_wrap_Err_iff)

lemma create_Ok_update:
  assumes "dist_Create (main_repo w cfg poll oh ot) (dist_Sync (main_repo w cfg poll oh ot)) d t = (Ok d', t')"
  shows "\<exists>v c t0 i a u. t' = t @ v \<and> filter is_update v = [c] \<and>
     sync_update (main_repo w cfg poll oh ot) (d\<lparr>dist_ID := i, dist_ARN := a, dist_Address := u\<rparr>) t0 c"
proof -
  let ?r = "main_repo w cfg poll oh ot"
  from assms obtain x and out :: aws_distribution where
    "dist_Sync ?r (d\<lparr>dist_ID := ad_Id out, dist_ARN := ad_ARN out, dist_Address := ad_DomainName out\<rparr>)
       (t @ [CreateDistributionWithTags x (distributionTags ot d)]) = (Ok d', t')"
    by (auto simp: dist_Create_def prepareAndRunPostCreationOperations_def io_ask_def Let_def io_bind_Ok_iff io_call_Ok_iff)
  from sync_Ok_update [OF this] obtain v c where
    v: "t' = t @ (CreateDistributionWithTags x (distributionTags ot d) # v)" "filter is_update v = [c]"
    and c: "sync_update ?r (d\<lparr>dist_ID := ad_Id out, dist_ARN := ad_ARN out, dist_Address := ad_DomainName out\<rparr>)
       (t @ [CreateDistributionWithTags x (distributionTags ot d)]) c"
    by auto
  from v(2) have "filter is_update (CreateDistributionWithTags x (distributionTags ot d) # v) = [c]" by simp
  with v(1) c show ?thesis by blast
qed

lemma upsert_run:
  assumes "syncDist (main_service w libs me poll mo cfg) d st ing t = (Ok (dist, e, st1), t')"
    and "\<not> Dist_IsEmpty d" and "no_error e"
  shows "dist_Sync (main_repo w cfg poll (mo_headers mo) (mo_tags mo)) d t = (Ok dist, t') \<or>
     dist_Create (main_repo w cfg poll (mo_headers mo) (mo_tags mo))
       (dist_Sync (main_repo w cfg poll (mo_headers mo) (mo_tags mo))) d t = (Ok dist, t')"
proof -
  let ?s = "main_service w libs me poll mo cfg" and ?r = "main_repo w cfg poll (mo_headers mo) (mo_tags mo)"
  have dists: "sv_dists ?s = NewDistRepository ?r" by (simp add: main_service_def)
  let ?m = "if Dist_Exists d then updateDistribution ?s d else createDistribution ?s d"
  let ?st = "\<lambda>r. SetIngressRef (err_of r = None) (om_namespace ing) (om_name ing) st"
  have "syncDist ?s d st ing t = io_bind (io_try ?m) (\<lambda>r. io_return (case r of
       Inl err \<Rightarrow> (zero_distribution, Some err, ?st r)
     | Inr x \<Rightarrow> (x, None, SetAliases (dist_AlternateDomains x) (SetInfo (dist_ID x) (dist_ARN x) (dist_Address x) (?st r))))) t"
    using assms(2) by (simp add: syncDist_def upsertDistribution_def Let_def)
  with assms(1) obtain r where r: "io_try ?m t = (Ok r, t')" and e: "\<And>err. r = Inl err \<Longrightarrow> e = Some err" and ok: "\<And>x. r = Inr x \<Longrightarrow> x = dist"
    by (fastforce simp: io_bind_Ok_iff)
  have "\<exists>d'. r = Inr d'"
  proof (cases r)
    case (Inl err)
    with r obtain f e' where "err = ErrorfV f e'"
      by (auto simp: updateDistribution_def createDistribution_def split: if_splits dest!: wrapped_error)
    with e [OF Inl] assms(3) show ?thesis by (simp add: no_error_iff)
  qed simp
  then have "?m t = (Ok dist, t')"
    using r ok by (auto simp: io_try_def split: prod.splits outcome.splits)
  then show ?thesis
    by (auto simp: updateDistribution_def createDistribution_def dists NewDistRepository_def split: if_splits)
qed

lemma upsert_sends:
  assumes "syncDist (main_service w libs me poll mo cfg) d st ing t = (Ok (dist, e, st1), t')"
    and "\<not> Dist_IsEmpty d" and "no_error e"
  shows "\<exists>v c t0 i a u. t' = t @ v \<and> filter is_update v = [c] \<and>
     sync_update (main_repo w cfg poll (mo_headers mo) (mo_tags mo))
       (d\<lparr>dist_ID := i, dist_ARN := a, dist_Address := u\<rparr>) t0 c"
proof -
  let ?r = "main_repo w cfg poll (mo_headers mo) (mo_tags mo)"
  from upsert_run [OF assms] consider "dist_Sync ?r d t = (Ok dist, t')" | "dist_Create ?r (dist_Sync ?r) d t = (Ok dist, t')"
    by blast
  then show ?thesis
  proof cases
    case 1
    have "d\<lparr>dist_ID := dist_ID d, dist_ARN := dist_ARN d, dist_Address := dist_Address d\<rparr> = d" by simp
    with sync_Ok_update [OF 1] show ?thesis by metis
  next
    case 2
    then show ?thesis by (rule create_Ok_update)
  qed
qed

section \<open>The names point to the distribution\<close>

text \<open>The address a synchronisation returns is the one the update was answered with.\<close>

definition answered_update :: "world \<Rightarrow> api_call list \<Rightarrow> api_call list \<Rightarrow> string \<Rightarrow> bool" where
  "answered_update w t t' addr \<longleftrightarrow> (\<exists>p c q out. t' = t @ p @ c # q \<and> is_update c \<and>
     w_update_distribution w (t @ p @ [c]) = Inr out \<and> addr = ad_DomainName out)"

lemma answered_update_extend: "answered_update w (t @ u) t' addr \<Longrightarrow> answered_update w t (t' @ v) addr"
  unfolding answered_update_def by (metis append_Cons append_assoc)

lemma postUpdate_address:
  assumes "runPostUpdateOperations r d xs out t = (Ok d', t')"
  shows "dist_Address d' = ad_DomainName out"
  using assms by (auto simp: runPostUpdateOperations_def io_bind_Ok_iff)

lemma sync_Ok_address:
  assumes "dist_Sync (main_repo w cfg poll oh ot) d t = (Ok d', t')"
  shows "answered_update w t t' (dist_Address d')"
proof -
  let ?r = "main_repo w cfg poll oh ot"
  from assms obtain ref t1 x t2 ys t3 root t4 c out xs where
    reads: "io_ask (w_caller_ref w) t = (Ok ref, t1)" "DistributionConfigByID ?r (dist_ID d) t1 = (Ok x, t2)"
      "syncOACs ?r (fst (diffDesiredAndObservedOACs d (fst x))) t2 = (Ok ys, t3)"
      "io_lift (deref (dc_DefaultRootObject (fst x))) t3 = (Ok root, t4)" and
    c: "is_update c" and ans: "w_update_distribution w (t4 @ [c]) = Inr out" and
    post: "runPostUpdateOperations ?r d xs out (t4 @ [c]) = (Ok d', t')"
    unfolding dist_Sync_def Let_def split_beta io_bind_Ok_iff io_wrap_Ok_iff io_call_Ok_iff main_repo_simps
    by (metis is_update.simps(1))
  have "emits oac_sync_call (syncOACs ?r (fst (diffDesiredAndObservedOACs d (fst x))))"
    by (rule main_client.emits_syncOACs)
  then obtain s where "t3 = t2 @ s" by (rule emitsE [where t = t2]) (simp add: reads(3))
  then obtain p where p: "t4 = t @ p"
    using reads by (auto simp: io_ask_def DistributionConfigByID_def io_call_Ok_iff io_lift_Ok_iff)
  have "emits (\<lambda>c. sync_last_call c \<and> (destroys c \<longrightarrow> DeletionEnabled cfg)) (runPostUpdateOperations ?r d xs out)"
    by (rule main_client.emits_postUpdate)
  then obtain q where "t' = (t4 @ [c]) @ q" by (rule emitsE [where t = "t4 @ [c]"]) (simp add: post)
  with c ans postUpdate_address [OF post] p show ?thesis
    unfolding answered_update_def by (intro exI [of _ p] exI [of _ c] exI [of _ q] exI [of _ out]) simp
qed

lemma upsert_address:
  assumes "syncDist (main_service w libs me poll mo cfg) d st ing t = (Ok (dist, e, st1), t')"
    and "\<not> Dist_IsEmpty d" and "no_error e"
  shows "answered_update w t t' (dist_Address dist) \<and> dist_AlternateDomains dist = dist_AlternateDomains d \<and>
    dist_IPv6Enabled dist = dist_IPv6Enabled d"
proof -
  let ?s = "main_service w libs me poll mo cfg" and ?r = "main_repo w cfg poll (mo_headers mo) (mo_tags mo)"
  from upsert_run [OF assms] consider "dist_Sync ?r d t = (Ok dist, t')" | "dist_Create ?r (dist_Sync ?r) d t = (Ok dist, t')"
    by blast
  then show ?thesis
  proof cases
    case 1
    with sync_result [of ?r d t dist] sync_Ok_address [OF 1] show ?thesis by auto
  next
    case 2
    from 2 obtain d1 c where "dist_Sync ?r d1 (t @ [c]) = (Ok dist, t')"
      by (auto simp: dist_Create_def prepareAndRunPostCreationOperations_def io_ask_def Let_def io_bind_Ok_iff io_call_Ok_iff)
    from answered_update_extend [OF sync_Ok_address [OF this], of "[]"] create_result [of ?r d t dist] 2
    show ?thesis by auto
  qed
qed

text \<open>The errors a computation can end with.\<close>

definition only_errors :: "(go_error \<Rightarrow> bool) \<Rightarrow> 'a api \<Rightarrow> bool" where
  "only_errors Q m \<longleftrightarrow> (\<forall>t e t'. m t = (Err e, t') \<longrightarrow> Q e)"

lemma only_errorsD: "only_errors Q m \<Longrightarrow> m t = (Err e, t') \<Longrightarrow> Q e"
  unfolding only_errors_def by blast

lemma only_errors_return: "only_errors Q (io_return x)"
  by (simp add: only_errors_def io_return_def)

lemma only_errors_call: "(\<And>t. resp t \<noteq> Inl e') \<Longrightarrow> only_errors (\<lambda>e. e \<noteq> e') (io_call c resp)"
  by (auto simp: only_errors_def io_call_def split: sum.splits)

lemma only_errors_wrap: "(\<And>e. Q (f e)) \<Longrightarrow> only_errors Q (io_wrap f m)"
  unfolding only_errors_def io_wrap_def by (auto simp: out_wrap_Err_iff split: prod.splits)

lemma only_errors_bind:
  assumes "only_errors Q m" and "\<And>x. only_errors Q (f x)"
  shows "only_errors Q (io_bind m f)"
  using assms unfolding only_errors_def io_bind_def by (fastforce split: prod.splits outcome.splits)

lemma only_errors_foldM: "(\<And>s x. only_errors Q (f s x)) \<Longrightarrow> only_errors Q (io_foldM f s xs)"
  by (induction xs arbitrary: s) (auto intro: only_errors_return only_errors_bind)

lemma upsert_errors:
  assumes "\<And>x. w_change_record_sets w x \<noteq> Inl (MultiError [])"
  shows "only_errors (\<lambda>e. e \<noteq> MultiError []) (alias_Upsert w a)"
proof (cases "as_Entries a = []")
  case True
  then show ?thesis by (simp add: alias_Upsert_def only_errors_return)
next
  case False
  then show ?thesis
    unfolding alias_Upsert_def requestChanges_def
    by (auto intro!: only_errors_bind only_errors_foldM only_errors_wrap only_errors_call only_errors_return assms)
qed

text \<open>The records that make a name of a class point to an address: alias records and the ownership record.\<close>

definition points_to :: "cdn_class \<Rightarrow> bool \<Rightarrow> string \<Rightarrow> rr_change list \<Rightarrow> string \<Rightarrow> bool" where
  "points_to class v6 addr changes name \<longleftrightarrow>
     (\<forall>ty \<in> set (if v6 then [''A'', ''AAAA''] else [''A'']).
        address_change ''UPSERT'' (normalizeDomain name) addr ty \<in> set changes) \<and>
     (\<exists>values. txt_change ''UPSERT'' (normalizeDomain name) values \<in> set changes \<and>
        [CHR 0x22] @ txtOwnerKey @ ''='' @ TXTOwnerValue class @ [CHR 0x22] \<in> set values)"

lemma upsert_points:
  assumes "alias_Upsert w (NewAliases addr hz (TXTOwnerValue class) names v6) t = (Ok (), t')" and "names \<noteq> []"
  shows "\<exists>p comment changes. t' = t @ p @ [ChangeResourceRecordSets hz comment changes] \<and>
    (\<forall>name \<in> set names. points_to class v6 addr changes name)"
proof -
  let ?a = "NewAliases addr hz (TXTOwnerValue class) names v6"
  have a: "as_HostedZoneID ?a = hz" "as_Target ?a = addr"
    "as_OwnershipTXTValue ?a = [CHR 0x22] @ txtOwnerKey @ ''='' @ TXTOwnerValue class @ [CHR 0x22]"
    "as_Entries ?a = map (\<lambda>n. \<lparr>en_Name = normalizeDomain n, en_Types = if v6 then [''A'', ''AAAA''] else [''A'']\<rparr>) names"
    by (simp_all add: NewAliases_def Let_def rr_consts)
  from alias_upsert_run [of w ?a t] assms obtain reads comment sets batches where
    t': "t' = t @ reads @ [ChangeResourceRecordSets hz comment (concat batches)]" and
    len: "list_all2 (\<lambda>e fr. was_read w ?a e fr \<and> validateRecordSets (as_OwnershipTXTValue ?a) fr = None) (as_Entries ?a) sets" and
    all: "list_all2 (upserts_alias ?a) (zip (as_Entries ?a) sets) batches"
    by (auto simp: a(1,4))
  have "points_to class v6 addr (concat batches) name" if name: "name \<in> set names" for name
  proof -
    from name obtain i where i: "i < length names" "names ! i = name" by (auto simp: in_set_conv_nth)
    have l: "length sets = length names" "length batches = length names"
      using list_all2_lengthD [OF len] list_all2_lengthD [OF all] by (simp_all add: a(4))
    have batch: "upserts_alias ?a (as_Entries ?a ! i, sets ! i) (batches ! i)"
      using list_all2_nthD [OF all, of i] i l by (simp add: a(4))
    then obtain vs where b: "batches ! i = map (address_change ''UPSERT'' (normalizeDomain name) addr) (if v6 then [''A'', ''AAAA''] else [''A'']) @
        [txt_change ''UPSERT'' (normalizeDomain name) vs]" "as_OwnershipTXTValue ?a \<in> set vs"
      using i by (auto simp: upserts_alias_def a)
    have "batches ! i \<in> set batches" using i l by simp
    then have "set (batches ! i) \<subseteq> set (concat batches)" by auto
    with b show ?thesis unfolding points_to_def a(3) by (auto 0 3 split: if_splits)
  qed
  with t' show ?thesis by blast
qed

text \<open>A synchronisation of the aliases without error makes every alias point to the distribution.\<close>

lemma syncAliases_points:
  assumes "multierr_spec me" and "\<And>x. w_change_record_sets w x \<noteq> Inl (MultiError [])"
    and "syncAliases (main_service w libs me poll mo cfg) st dist class t = (Ok (st', e), t')" and "no_error e"
    and "dist_AlternateDomains dist \<noteq> []"
  shows "\<exists>p comment changes q. t' = t @ p @ ChangeResourceRecordSets (HostedZoneID class) comment changes # q \<and>
    (\<forall>name \<in> set (dist_AlternateDomains dist). points_to class (dist_IPv6Enabled dist) (dist_Address dist) changes name)"
proof -
  let ?s = "main_service w libs me poll mo cfg" and ?a = "newAliases (main_service w libs me poll mo cfg) dist st class"
  have repo: "sv_aliases ?s = NewAliasRepository w" "sv_multierr ?s = me" by (simp_all add: main_service_def)
  from assms(3) obtain up t1 del where up: "io_try (alias_Upsert w (fst ?a)) t = (Ok up, t1)"
    and del: "io_try (alias_Delete w (snd ?a)) t1 = (Ok del, t')"
    and e: "e = (if err_of up \<noteq> None \<or> err_of del \<noteq> None
      then me_ErrorOrNil me (Some (me_Append me None [err_of up, err_of del])) else me_ErrorOrNil me None)"
    unfolding syncAliases_def Let_def split_beta io_bind_Ok_iff repo NewAliasRepository_def
    by (auto split: if_splits)
  have "err_of up = None \<or> err_of up = Some (MultiError [])"
    using e assms(4) by (auto simp: multierr_simps [OF assms(1)] no_error_iff [symmetric] no_error_def split: if_splits)
  moreover have "up \<noteq> Inl (MultiError [])"
    using up only_errorsD [OF upsert_errors [OF assms(2)]] by (auto simp: io_try_def split: prod.splits outcome.splits)
  ultimately have "alias_Upsert w (fst ?a) t = (Ok (), t1)"
    using up by (auto simp: io_try_def err_of_def split: prod.splits outcome.splits sum.splits)
  from upsert_points [OF this [unfolded newAliases_def Let_def fst_conv] assms(5)] obtain p comment changes where
    p: "t1 = t @ p @ [ChangeResourceRecordSets (HostedZoneID class) comment changes]"
    and points: "\<forall>name \<in> set (dist_AlternateDomains dist). points_to class (dist_IPv6Enabled dist) (dist_Address dist) changes name"
    by blast
  have "emits dns_call (io_try (alias_Delete w (snd ?a)))"
    using emits_try [OF alias_repo.delete_calls] by (simp add: NewAliasRepository_def)
  then obtain q where "t' = t1 @ q" by (rule emitsE [where t = t1]) (simp add: del)
  with p points show ?thesis by auto
qed

section \<open>Success\<close>

text \<open>Every update for a distribution built for a listing serves it.\<close>

definition built_for :: "k8s_libs \<Rightarrow> config \<Rightarrow> string \<Rightarrow> ingress list \<Rightarrow> distribution \<Rightarrow> bool" where
  "built_for libs cfg grp items d \<longleftrightarrow> (\<forall>i a n observed synced root oh ref cfg'. serves libs cfg grp items
     (update_config observed synced root (newAWSDistributionConfig oh
        (d\<lparr>dist_ID := i, dist_ARN := a, dist_Address := n\<rparr>) ref cfg')))"

text \<open>After an answered update, one batch makes all the names point to the address answered.\<close>

definition names_point :: "world \<Rightarrow> cdn_class \<Rightarrow> bool \<Rightarrow> api_call list \<Rightarrow> api_call list \<Rightarrow> string set \<Rightarrow> bool" where
  "names_point w class v6 t t' names \<longleftrightarrow> (\<exists>p addr comment changes q.
     t' = p @ ChangeResourceRecordSets (HostedZoneID class) comment changes # q \<and>
     answered_update w t p addr \<and> (\<forall>name \<in> names. points_to class v6 addr changes name))"

lemma names_point_earlier: "names_point w class v6 (t @ u) t' names \<Longrightarrow> names_point w class v6 t t' names"
  unfolding names_point_def using answered_update_extend [of w t u _ _ "[]"] by fastforce

lemma plan_course:
  assumes "wf_orders (mo_build mo)" and "is_order (mo_hosts mo)" and "is_order (mo_paths mo)"
    and ci: "NewCDNIngressFromV1 libs ing class = Ok ci"
    and plan: "reconcile_plan (main_service w libs me poll mo cfg) ing ci t = (Ok (d, st), t2)"
  obtains items z where "w_list_ingresses w (t @ [K8sListIngresses]) = Inr items"
    and "Dist_IsEmpty d \<longleftrightarrow> (\<forall>k \<in> set items. \<not> active_in (groupAnnotationValue ing) k)"
    and "t2 = (t @ [K8sListIngresses]) @ z" and "filter is_update z = []"
    and "built_for libs cfg (groupAnnotationValue ing) items d" and "dist_IPv6Enabled d = CloudFrontEnableIPV6 cfg"
proof -
  let ?s = "main_service w libs me poll mo cfg" and ?grp = "groupAnnotationValue ing"
  from plan obtain ings ta shared r tb arn tc where
    fetch: "desiredIngresses ?s ci t = (Ok ings, ta)" and
    "io_try (distr_ARNByGroup (sv_dists ?s) (Group ci)) ta = (Ok r, tb)"
    "case r of Inr a \<Rightarrow> arn = a | Inl e \<Rightarrow> errors_Is e ErrDistNotFound \<and> arn = []" and
    dist: "newDistribution ?s ings (Group ci) shared arn tb = (Ok d, tc)" and
    "validateCreation ?s d ing = Ok ()" "fetchOrGenerateCDNStatus ?s ings d tc = (Ok st, t2)" and
    "NewSharedIngressParams (sv_ord_hosts ?s) (sv_ord_paths ?s) ings = Ok shared"
    by (rule plan_Ok)
  from this(7) have shared: "NewSharedIngressParams (mo_hosts mo) (mo_paths mo) ings = Ok shared"
    by (simp add: main_service_def)
  from Class_NewCDNIngressFromV1 [OF ci] fetch have fetch: "FetchBy w libs class (isPartOfDesiredState ci) t = (Ok ings, ta)"
    by (simp add: desiredIngresses_def main_service_def NewIngressFetcherV1_def)
  then have ta: "ta = t @ [K8sListIngresses]" by (simp add: fetch_by_iff)
  obtain items z where items: "w_list_ingresses w ta = Inr items"
    and empty: "Dist_IsEmpty d \<longleftrightarrow> (\<forall>k \<in> set items. \<not> active_in ?grp k)" and t2: "t2 = ta @ z"
    by (rule main_plan_reads [OF assms(1) ci plan]) (rule that; simp add: ta)
  have "filter is_update z = []"
  proof -
    from main.emits_plan [of w libs me poll mo cfg ing ci] obtain y where "t2 = t @ y" "list_all read_only y"
      by (rule emitsE [where t = t]) (simp add: plan)
    then show ?thesis using is_update_kinds(1) read_only_not_writes unfolding t2 ta
      by (fastforce simp: filter_empty_conv list_all_iff)
  qed
  moreover have "built_for libs cfg ?grp items d"
    unfolding built_for_def
    by (intro allI update_serves [OF assms(1-3) ci fetch items shared dist _ _ _ refl]) simp_all
  moreover have "dist_IPv6Enabled d = CloudFrontEnableIPV6 cfg"
    using desired_facts [OF _ dist] assms(1) unfolding main_service_simps by blast
  ultimately show thesis using items empty t2 by (intro that [of items z]) (simp_all add: ta)
qed

text \<open>Carrying out a plan for a group that is not empty.\<close>

lemma carried_course:
  assumes "multierr_spec me" and "\<And>x. w_create_status w x \<noteq> Inl (MultiError [])"
    and "carry_out (main_service w libs me poll mo cfg) ing class d st t2 = (Ok (), t')" and nonempty: "\<not> Dist_IsEmpty d"
  shows "\<exists>y j tag c i a n observed synced root ref.
     t' = t2 @ y \<and> filter is_update y = [UpdateDistribution j tag c] \<and>
     c = update_config observed synced root (newAWSDistributionConfig (mo_headers mo)
       (d\<lparr>dist_ID := i, dist_ARN := a, dist_Address := n\<rparr>) ref cfg) \<and>
     ((\<forall>x. w_change_record_sets w x \<noteq> Inl (MultiError [])) \<and> CreateAlias class \<and> dist_AlternateDomains d \<noteq> [] \<longrightarrow>
        names_point w class (dist_IPv6Enabled d) t2 t' (set (dist_AlternateDomains d)))"
proof -
  let ?s = "main_service w libs me poll mo cfg"
  from carry_out_Ok [OF assms(1-3)] obtain dist e st1 t3 st2 t4 ing' calls name where
    sync: "syncDist ?s d st ing t2 = (Ok (dist, e, st1), t3)" "no_error e" and
    als: "if CreateAlias class then \<exists>e. syncAliases ?s st1 dist class t3 = (Ok (st2, e), t4) \<and> no_error e
      else st2 = st1 \<and> t4 = t3" and
    t': "t' = t4 @ [K8sUpdateIngress (released libs ing [])] @ calls @
       [K8sEvent (ing_target ing') EventTypeNormal reasonSuccess, K8sEvent (OnStatus name) EventTypeNormal reasonSuccess]" and
    calls: "records_status d (if IsBeingRemovedFromDesiredState ing'
       then RemoveIngressRef (om_namespace ing') (om_name ing') st2 else st2) calls"
    by blast
  from upsert_sends [OF sync(1) nonempty sync(2)] obtain v c t0 i a n where v: "t3 = t2 @ v" "filter is_update v = [c]"
    and c: "sync_update (main_repo w cfg poll (mo_headers mo) (mo_tags mo)) (d\<lparr>dist_ID := i, dist_ARN := a, dist_Address := n\<rparr>) t0 c"
    by blast
  from c obtain j tag cf observed synced root ref where cf: "c = UpdateDistribution j tag cf"
    "cf = update_config observed synced root (newAWSDistributionConfig (mo_headers mo) (d\<lparr>dist_ID := i, dist_ARN := a, dist_Address := n\<rparr>) ref cfg)"
    unfolding sync_update_def by auto
  have "\<exists>b. t4 = t3 @ b \<and> filter is_update b = []"
  proof (cases "CreateAlias class")
    case True
    then obtain e where run: "syncAliases ?s st1 dist class t3 = (Ok (st2, e), t4)" using als by auto
    have "emits (Not \<circ> is_update) (syncAliases ?s st1 dist class)"
      by (rule main.emits_syncAliases) (auto dest: is_update_kinds)
    then show ?thesis by (rule emitsE [where t = t3]) (auto simp: run filter_empty_conv list_all_iff)
  qed (use als in simp)
  then obtain b where b: "t4 = t3 @ b" "filter is_update b = []" by blast
  have "names_point w class (dist_IPv6Enabled d) t2 t' (set (dist_AlternateDomains d))"
    if hyp: "(\<forall>x. w_change_record_sets w x \<noteq> Inl (MultiError [])) \<and> CreateAlias class \<and> dist_AlternateDomains d \<noteq> []"
  proof -
    note addr = upsert_address [OF sync(1) nonempty sync(2)]
    from als hyp obtain e where "syncAliases ?s st1 dist class t3 = (Ok (st2, e), t4)" "no_error e" by auto
    from syncAliases_points [OF assms(1) _ this] hyp addr obtain p comment changes q where
      p: "t4 = t3 @ p @ ChangeResourceRecordSets (HostedZoneID class) comment changes # q"
      "\<forall>name \<in> set (dist_AlternateDomains d). points_to class (dist_IPv6Enabled d) (dist_Address dist) changes name"
      by auto
    have "answered_update w t2 (t3 @ p) (dist_Address dist)"
      by (rule answered_update_extend [where u = "[]"]) (use addr in simp)
    moreover have "t' = (t3 @ p) @ ChangeResourceRecordSets (HostedZoneID class) comment changes # (q @ drop (length t4) t')"
      unfolding t' p(1) by simp
    ultimately show ?thesis using p(2) unfolding names_point_def by blast
  qed
  moreover have "filter is_update calls = []" using calls by (auto simp: records_status_def split: if_splits)
  then have "filter is_update (drop (length t2) t') = [UpdateDistribution j tag cf]"
    using v b cf(1) unfolding t' by simp
  moreover have "t' = t2 @ drop (length t2) t'" unfolding t' b(1) v(1) by simp
  ultimately show ?thesis using cf(2) by blast
qed

text \<open>Together: what has been sent when a reconciliation succeeds.\<close>

lemma success_course:
  assumes "multierr_spec me" and "\<And>x. w_create_status w x \<noteq> Inl (MultiError [])"
    and "wf_orders (mo_build mo)" and "is_order (mo_hosts mo)" and "is_order (mo_paths mo)"
    and "Reconcile (main_service w libs me poll mo cfg) ing class t = (Ok (), t')" and "HasGroupAnnotation ing"
  shows "\<exists>u items. list_all is_event u \<and> w_list_ingresses w (t @ u @ [K8sListIngresses]) = Inr items \<and>
     ((\<exists>k \<in> set items. active_in (groupAnnotationValue ing) k) \<longrightarrow>
       (\<exists>y i tag c. t' = t @ u @ K8sListIngresses # y \<and> filter is_update y = [UpdateDistribution i tag c] \<and>
          serves libs cfg (groupAnnotationValue ing) items c \<and>
          ((\<forall>x. w_change_record_sets w x \<noteq> Inl (MultiError [])) \<and> CreateAlias class \<and> q_items (dc_Aliases c) \<noteq> [] \<longrightarrow>
             names_point w class (CloudFrontEnableIPV6 cfg) (t @ u @ [K8sListIngresses]) t' (set (q_items (dc_Aliases c))))))"
proof (cases rule: main.reconcile_cases [of w libs me poll mo cfg ing "class" t])
  case (failed u)
  with assms(6) show ?thesis by simp
next
  case (groupless u)
  with assms(7) show ?thesis by simp
next
  case (planned ci u d st t2)
  let ?grp = "groupAnnotationValue ing"
  have ci: "NewCDNIngressFromV1 libs ing class = Ok ci" using planned(1) by simp
  obtain items z where items: "w_list_ingresses w ((t @ u) @ [K8sListIngresses]) = Inr items"
    and empty: "Dist_IsEmpty d \<longleftrightarrow> (\<forall>k \<in> set items. \<not> active_in ?grp k)"
    and t2: "t2 = ((t @ u) @ [K8sListIngresses]) @ z" and z: "filter is_update z = []"
    and built: "built_for libs cfg ?grp items d" and v6: "dist_IPv6Enabled d = CloudFrontEnableIPV6 cfg"
    by (rule plan_course [OF assms(3-5) ci planned(4)])
  from assms(6) planned(5) have run: "carry_out (main_service w libs me poll mo cfg) ing class d st t2 = (Ok (), t')" by simp
  have "\<exists>y i tag c. t' = t @ u @ K8sListIngresses # y \<and> filter is_update y = [UpdateDistribution i tag c] \<and>
          serves libs cfg ?grp items c \<and>
          ((\<forall>x. w_change_record_sets w x \<noteq> Inl (MultiError [])) \<and> CreateAlias class \<and> q_items (dc_Aliases c) \<noteq> [] \<longrightarrow>
             names_point w class (CloudFrontEnableIPV6 cfg) (t @ u @ [K8sListIngresses]) t' (set (q_items (dc_Aliases c))))"
    if "\<exists>k \<in> set items. active_in ?grp k"
  proof -
    from that empty have "\<not> Dist_IsEmpty d" by blast
    from carried_course [OF assms(1,2) run this] obtain y j tag c i a n observed synced root ref where
      y: "t' = t2 @ y" "filter is_update y = [UpdateDistribution j tag c]" and
      c: "c = update_config observed synced root (newAWSDistributionConfig (mo_headers mo)
        (d\<lparr>dist_ID := i, dist_ARN := a, dist_Address := n\<rparr>) ref cfg)" and
      point: "(\<forall>x. w_change_record_sets w x \<noteq> Inl (MultiError [])) \<and> CreateAlias class \<and> dist_AlternateDomains d \<noteq> [] \<longrightarrow>
        names_point w class (dist_IPv6Enabled d) t2 t' (set (dist_AlternateDomains d))"
      by blast
    have "serves libs cfg ?grp items c" using built unfolding built_for_def c by blast
    moreover have "q_items (dc_Aliases c) = dist_AlternateDomains d" using update_config_of(6) [OF c] by simp
    moreover have "names_point w class v6 (t @ u @ [K8sListIngresses]) t' names" if "names_point w class v6 t2 t' names" for v6 names
      by (rule names_point_earlier [where u = z]) (use that in \<open>simp add: t2\<close>)
    ultimately show ?thesis
      using y z point unfolding v6 by (intro exI [of _ "z @ y"] exI [of _ j] exI [of _ tag] exI [of _ c]) (simp add: t2)
  qed
  with planned(3) items show ?thesis by (intro exI [of _ u] exI [of _ items]) simp
qed

text \<open>
  C2. A successful reconciliation serves its group. When \<open>Reconcile\<close> of an Ingress with a group
  succeeds and the listing it made has an active Ingress of that group, then exactly one update was
  sent to CloudFront, and the configuration in it serves the listing: it is enabled; its origins are
  the default one and, for every active Ingress, its load balancer and its user origins, each under
  its own host; its cache behaviors route exactly the path patterns these Ingresses declare to their
  hosts; and its aliases are exactly their alternate domain names.
\<close>

theorem success_serves:
  assumes "multierr_spec me" and "\<And>x. w_create_status w x \<noteq> Inl (MultiError [])"
    and "wf_orders (mo_build mo)" and "is_order (mo_hosts mo)" and "is_order (mo_paths mo)"
    and "Reconcile (main_service w libs me poll mo cfg) ing class t = (Ok (), t')" and "HasGroupAnnotation ing"
  shows "\<exists>u items. list_all is_event u \<and> w_list_ingresses w (t @ u @ [K8sListIngresses]) = Inr items \<and>
     ((\<exists>k \<in> set items. active_in (groupAnnotationValue ing) k) \<longrightarrow>
       (\<exists>y i tag c. t' = t @ u @ K8sListIngresses # y \<and> filter is_update y = [UpdateDistribution i tag c] \<and>
          serves libs cfg (groupAnnotationValue ing) items c))"
  using success_course [OF assms] by blast

lemma fresh_active: "\<exists>k \<in> set [fresh_ingress]. active_in (groupAnnotationValue fresh_ingress) k"
  by code_simp

theorem success_serves_witness:
  "\<exists>c. serves sample_libs (plain_cfg True) ''g'' [fresh_ingress] c"
proof -
  have run: "Reconcile (main_service fresh_world sample_libs sample_multierr sample_poll sample_mo (plain_cfg True))
      fresh_ingress alias_class [] = (Ok (), snd (Reconcile (plain_service fresh_world True) fresh_ingress alias_class []))"
    using fresh_succeeds by (simp add: plain_service_def prod_eq_iff)
  have grp: "HasGroupAnnotation fresh_ingress" and g: "groupAnnotationValue fresh_ingress = ''g''" by code_simp+
  have cr: "w_create_status fresh_world x \<noteq> Inl (MultiError [])" for x
    by (simp add: fresh_world_def some_world_def)
  have orders: "is_order (mo_hosts sample_mo)" "is_order (mo_paths sample_mo)" by (simp_all add: sample_mo_def)
  have listed: "w_list_ingresses fresh_world t = Inr [fresh_ingress]" for t by (simp add: fresh_world_def)
  from success_serves [OF sample_multierr_spec cr wf_sample_mo orders run grp] fresh_active listed g
  show ?thesis by auto
qed

text \<open>
  C3. A successful reconciliation makes the names point to the distribution. If in addition the class
  asks for aliases, then every alternate domain name of an active Ingress of the group is, in one
  batch for the class's hosted zone after the update, upserted with alias records (A, and AAAA with
  IPv6) towards the domain name that CloudFront answered the update with, together with the
  ownership record of the class.
\<close>

theorem success_points:
  assumes "multierr_spec me" and "\<And>x. w_create_status w x \<noteq> Inl (MultiError [])"
    and "\<And>x. w_change_record_sets w x \<noteq> Inl (MultiError [])"
    and "wf_orders (mo_build mo)" and "is_order (mo_hosts mo)" and "is_order (mo_paths mo)"
    and "Reconcile (main_service w libs me poll mo cfg) ing class t = (Ok (), t')" and "HasGroupAnnotation ing"
    and "CreateAlias class"
  shows "\<exists>u items. list_all is_event u \<and> w_list_ingresses w (t @ u @ [K8sListIngresses]) = Inr items \<and>
     (let names = (\<Union>k \<in> {k \<in> set items. active_in (groupAnnotationValue ing) k}. set (alternateDomainNames k)) in
      names \<noteq> {} \<longrightarrow> names_point w class (CloudFrontEnableIPV6 cfg) (t @ u @ [K8sListIngresses]) t' names)"
proof -
  let ?grp = "groupAnnotationValue ing"
  from success_course [OF assms(1,2,4-8)] obtain u items where u: "list_all is_event u"
      "w_list_ingresses w (t @ u @ [K8sListIngresses]) = Inr items"
    and rest: "(\<exists>k \<in> set items. active_in ?grp k) \<longrightarrow>
       (\<exists>c. serves libs cfg ?grp items c \<and> (q_items (dc_Aliases c) \<noteq> [] \<longrightarrow>
          names_point w class (CloudFrontEnableIPV6 cfg) (t @ u @ [K8sListIngresses]) t' (set (q_items (dc_Aliases c)))))"
    using assms(3,9) by blast
  let ?names = "\<Union>k \<in> {k \<in> set items. active_in ?grp k}. set (alternateDomainNames k)"
  have "names_point w class (CloudFrontEnableIPV6 cfg) (t @ u @ [K8sListIngresses]) t' ?names" if ne: "?names \<noteq> {}"
  proof -
    from ne rest obtain c where c: "serves libs cfg ?grp items c" and point: "q_items (dc_Aliases c) \<noteq> [] \<longrightarrow>
          names_point w class (CloudFrontEnableIPV6 cfg) (t @ u @ [K8sListIngresses]) t' (set (q_items (dc_Aliases c)))"
      by blast
    from c have names: "set (q_items (dc_Aliases c)) = ?names" unfolding serves_def Let_def by blast
    with ne have "q_items (dc_Aliases c) \<noteq> []" by force
    with point show ?thesis unfolding names by blast
  qed
  with u show ?thesis unfolding Let_def by blast
qed

theorem success_points_witness:
  "\<exists>addr changes. points_to alias_class False addr changes ''www.x''"
proof -
  have run: "Reconcile (main_service fresh_world sample_libs sample_multierr sample_poll sample_mo (plain_cfg True))
      fresh_ingress alias_class [] = (Ok (), snd (Reconcile (plain_service fresh_world True) fresh_ingress alias_class []))"
    using fresh_succeeds by (simp add: plain_service_def prod_eq_iff)
  have grp: "HasGroupAnnotation fresh_ingress" and act: "active_in (groupAnnotationValue fresh_ingress) fresh_ingress"
    and names: "alternateDomainNames fresh_ingress = [''www.x'']" and al: "CreateAlias alias_class"
    and v6: "\<not> CloudFrontEnableIPV6 (plain_cfg True)" by code_simp+
  have cr: "w_create_status fresh_world x \<noteq> Inl (MultiError [])" "w_change_record_sets fresh_world x \<noteq> Inl (MultiError [])" for x
    by (simp_all add: fresh_world_def some_world_def)
  have orders: "is_order (mo_hosts sample_mo)" "is_order (mo_paths sample_mo)" by (simp_all add: sample_mo_def)
  have listed: "w_list_ingresses fresh_world t = Inr [fresh_ingress]" for t by (simp add: fresh_world_def)
  from success_points [OF sample_multierr_spec cr wf_sample_mo orders run grp al] obtain u where
    "names_point fresh_world alias_class False ([] @ u @ [K8sListIngresses])
       (snd (Reconcile (plain_service fresh_world True) fresh_ingress alias_class [])) {''www.x''}"
    using act names v6 unfolding listed Let_def by auto
  then show ?thesis unfolding names_point_def by blast
qed

end
