(* ===== verification/Controllers.thy ===== *)
theory Controllers
  imports Service_Status
begin

text \<open>
  \<open>controllers/\<close>: which events of the API server are reconciled (\<open>predicate.go\<close>), the reconciliation
  of a request (\<open>ingress_v1_controller.go\<close>), and the controller as a state machine: any sequence of
  requests, each handled to its end, over the trace of all requests made so far.
\<close>

section \<open>The event filter\<close>

definition event_ok :: "client_object \<Rightarrow> bool" where
  "event_ok obj =
     (let cdnClassOK = CDNClassNotEmpty (CDNClassAnnotationValue (obj_meta obj));
          finalizerOK = HasFinalizer (obj_meta obj);
          groupOK = HasGroupAnnotation (obj_meta obj);
          lbOK = HasLoadBalancer obj in
      cdnClassOK \<and> (finalizerOK \<or> (groupOK \<and> lbOK)))"

definition Predicate_Create :: "client_object \<Rightarrow> bool" where
  "Predicate_Create obj = event_ok obj"

definition Predicate_Delete :: "client_object \<Rightarrow> bool" where
  "Predicate_Delete obj = event_ok obj"

definition Predicate_Update :: "client_object \<Rightarrow> client_object \<Rightarrow> bool" where
  "Predicate_Update objOld objNew =
     (let cdnClassOK = CDNClassNotEmpty (CDNClassAnnotationValue (obj_meta objNew));
          objectsAreEqual = (objNew = objOld);
          finalizerOK = HasFinalizer (obj_meta objNew);
          groupOK = HasGroupAnnotation (obj_meta objNew);
          lbOK = HasLoadBalancer objNew in
      cdnClassOK \<and> \<not> objectsAreEqual \<and> (finalizerOK \<or> (groupOK \<and> lbOK)))"

definition Predicate_Generic :: "client_object \<Rightarrow> bool" where
  "Predicate_Generic obj = False"

lemma meta_truncate [simp]:
  "om_annotations (object_meta.truncate i) = om_annotations i"
  "om_finalizers (object_meta.truncate i) = om_finalizers i"
  "om_deletion (object_meta.truncate i) = om_deletion i"
  by (simp_all add: object_meta.defs)

lemma event_ok_ingress:
  "event_ok (ObjIngress ing) \<longleftrightarrow> CDNClassAnnotationValue ing \<noteq> [] \<and>
     (HasFinalizer ing \<or> (groupAnnotationValue ing \<noteq> [] \<and> ing_lb ing \<noteq> [] \<and> ing_lb ing ! 0 \<noteq> []))"
  by (simp add: event_ok_def CDNClassNotEmpty_def CDNClassAnnotationValue_def HasFinalizer_def
      HasGroupAnnotation_def groupAnnotationValue_def Let_def)

text \<open>
  C16. No event that matters is filtered out. An Ingress that has a class and is translated to one
  that its own group counts as active passes the filter when it is created, deleted or changed in
  any way; so does every Ingress with a class that still has the finalizer, so that its removal is
  handled; and an update that changes nothing is dropped.
\<close>

theorem event_filter:
  assumes "CDNClassAnnotationValue ing \<noteq> []"
    and "HasFinalizer ing \<or> (\<exists>class ci. NewCDNIngressFromV1 libs ing class = Ok ci \<and> Group ci \<noteq> [] \<and> isPartOfDesiredState ci ci)"
  shows "Predicate_Create (ObjIngress ing) \<and> Predicate_Delete (ObjIngress ing) \<and>
     (Predicate_Update old (ObjIngress ing) \<longleftrightarrow> old \<noteq> ObjIngress ing)"
proof -
  have "event_ok (ObjIngress ing)"
    using assms
    by (auto simp: event_ok_ingress NewCDNIngressFromV1_def isPartOfDesiredState_def Let_def out_bind_Ok_iff
        split: if_splits)
  then show ?thesis
    by (auto simp: Predicate_Create_def Predicate_Delete_def Predicate_Update_def event_ok_def Let_def)
qed

lemma fresh_translates:
  "\<exists>ci. NewCDNIngressFromV1 sample_libs fresh_ingress alias_class = Ok ci \<and> Group ci \<noteq> [] \<and> isPartOfDesiredState ci ci"
proof -
  have "case NewCDNIngressFromV1 sample_libs fresh_ingress alias_class of
      Ok ci \<Rightarrow> Group ci \<noteq> [] \<and> isPartOfDesiredState ci ci | _ \<Rightarrow> False"
    by code_simp
  then show ?thesis by (simp split: outcome.splits)
qed

theorem event_filter_witness: "Predicate_Create (ObjIngress fresh_ingress)"
proof -
  have "CDNClassAnnotationValue fresh_ingress \<noteq> []" by code_simp
  then show ?thesis using event_filter fresh_translates by blast
qed

section \<open>The reconciliation of a request\<close>

definition V1_Reconcile :: "service \<Rightarrow> class_fetcher \<Rightarrow> string \<Rightarrow> string \<Rightarrow> unit api" where
  "V1_Reconcile s classes namespace name =
     io_bind (io_try (io_call (K8sGetIngress namespace name) (w_get_ingress (sv_world s)))) (\<lambda>r. case r of
       Inl err \<Rightarrow> if is_not_found err then io_return ()
         else io_fail (ErrorfV ''could not fetch Ingress'' err)
     | Inr ing \<Rightarrow>
         io_bind (io_wrap (ErrorfV ''could not find CDN class'')
           (cf_FetchByName classes (CDNClassAnnotationValue ing))) (\<lambda>cdnClass.
         Reconcile s ing cdnClass))"

locale controller_parts = service_parts s + class_fetcher_contract classes
  for s :: service and classes :: class_fetcher
begin

lemma emits_V1:
  assumes "\<And>c. read_only c \<Longrightarrow> P c" and "\<And>ing class. emits P (Reconcile s ing class)"
  shows "emits P (V1_Reconcile s classes ns n)"
  unfolding V1_Reconcile_def
  by (intro emits_intros assms(2) emits_mono [OF class_calls assms(1)]) (simp_all add: assms(1))

lemma V1_destroys_nothing:
  "\<not> DeletionEnabled (sv_cfg s) \<Longrightarrow> emits (Not \<circ> destroys) (V1_Reconcile s classes ns n)"
  by (rule emits_V1) (simp_all add: read_only_not_destroys nothing_destroyed)

end

interpretation main_ctl: controller_parts "main_service w libs me poll mo cfg" "NewCDNClassFetcher w"
  for w libs me poll mo cfg
  by (rule controller_parts.intro [OF main.service_parts_axioms cdn_classes.class_fetcher_contract_axioms])

lemma V1_run:
  "V1_Reconcile (main_service w libs me poll mo cfg) (NewCDNClassFetcher w) ns n t =
    (let t1 = t @ [K8sGetIngress ns n] in
     case w_get_ingress w t1 of
       Inl err \<Rightarrow> (if is_not_found err then Ok () else Err (ErrorfV ''could not fetch Ingress'' err), t1)
     | Inr ing \<Rightarrow>
         (let t2 = t1 @ [K8sGetClass (CDNClassAnnotationValue ing)] in
          case w_get_class w t2 of
            Inl err \<Rightarrow> (Err (ErrorfV ''could not find CDN class'' err), t2)
          | Inr k8sClass \<Rightarrow> Reconcile (main_service w libs me poll mo cfg) ing (class_of k8sClass) t2))"
  unfolding V1_Reconcile_def io_bind_try_call Let_def
  by (auto simp: NewCDNClassFetcher_def FetchByName_def io_bind_def io_wrap_def io_call_def io_return_def io_fail_def
      split: sum.split)

text \<open>
  A request is handled only when its Ingress and its class can be read: an Ingress that is gone
  is no error and causes no further request; any other failure to read it, and any failure to read
  the class it names, is returned without a further request; otherwise the request's outcome and
  requests are those of the reconciliation with exactly that Ingress and class.
\<close>

theorem request_outcome:
  "V1_Reconcile (main_service w libs me poll mo cfg) (NewCDNClassFetcher w) ns n t =
    (let t1 = t @ [K8sGetIngress ns n] in
     case w_get_ingress w t1 of
       Inl err \<Rightarrow> (if is_not_found err then Ok () else Err (ErrorfV ''could not fetch Ingress'' err), t1)
     | Inr ing \<Rightarrow>
         (let t2 = t1 @ [K8sGetClass (CDNClassAnnotationValue ing)] in
          case w_get_class w t2 of
            Inl err \<Rightarrow> (Err (ErrorfV ''could not find CDN class'' err), t2)
          | Inr k8sClass \<Rightarrow> Reconcile (main_service w libs me poll mo cfg) ing (class_of k8sClass) t2))"
  by (rule V1_run)

section \<open>The controller as a state machine\<close>

text \<open>The state is the trace of all requests; a step handles one request for one Ingress.\<close>

inductive controller_step :: "service \<Rightarrow> class_fetcher \<Rightarrow> api_call list \<Rightarrow> api_call list \<Rightarrow> bool"
  for s classes where
  handle: "snd (V1_Reconcile s classes ns n t) = t' \<Longrightarrow> controller_step s classes t t'"

inductive reachable :: "service \<Rightarrow> class_fetcher \<Rightarrow> api_call list \<Rightarrow> bool"
  for s classes where
  start: "reachable s classes []"
| step: "reachable s classes t \<Longrightarrow> controller_step s classes t t' \<Longrightarrow> reachable s classes t'"

inductive_cases controller_stepE: "controller_step s classes t t'"

text \<open>
  In every reachable state of a controller with deletion disabled, nothing has ever been
  destroyed in AWS, however many requests for whatever Ingresses have been handled.
\<close>

theorem never_destroys:
  assumes "reachable (main_service w libs me poll mo cfg) (NewCDNClassFetcher w) t" and "\<not> DeletionEnabled cfg"
  shows "\<not> list_ex destroys t"
  using assms(1)
proof (induction rule: reachable.induct)
  case (step t t')
  from step.hyps(2) obtain ns n where t': "snd (V1_Reconcile (main_service w libs me poll mo cfg) (NewCDNClassFetcher w) ns n t) = t'"
    by (rule controller_stepE)
  have "emits (Not \<circ> destroys) (V1_Reconcile (main_service w libs me poll mo cfg) (NewCDNClassFetcher w) ns n)"
    by (rule main_ctl.V1_destroys_nothing) (simp add: assms(2))
  then show ?case
    by (rule emitsE [where t = t]) (use t' step.IH in \<open>auto simp: list_ex_iff list_all_iff\<close>)
qed simp

theorem never_destroys_witness:
  "\<not> list_ex destroys (snd (V1_Reconcile (plain_service retired_world False) (NewCDNClassFetcher retired_world) ''prod'' ''web'' []))"
proof -
  let ?s = "main_service retired_world sample_libs sample_multierr sample_poll sample_mo (plain_cfg False)"
  have "reachable ?s (NewCDNClassFetcher retired_world)
      (snd (V1_Reconcile ?s (NewCDNClassFetcher retired_world) ''prod'' ''web'' []))"
    by (rule reachable.step [OF reachable.start]) (rule controller_step.handle [OF refl])
  from never_destroys [OF this] show ?thesis by (simp add: plain_service_def plain_cfg_def)
qed

lemma V1_extends:
  assumes "poll_spec poll"
  shows "emits (\<lambda>_. True) (V1_Reconcile (main_service w libs me poll mo cfg) (NewCDNClassFetcher w) ns n)"
proof (rule main_ctl.emits_V1)
  show "emits (\<lambda>_. True) (Reconcile (main_service w libs me poll mo cfg) ing class)" for ing "class"
    by (rule main.emits_Reconcile) (simp_all add: main_aws_calls [OF assms] main_sync_calls [OF assms] main.emits_syncAliases)
qed simp

text \<open>
  What justifies the deletion of the distribution \<open>i\<close> after a trace: a listing of the Ingresses of the
  cluster without an active one of a group, followed by the lookup that found \<open>i\<close> for that group.
\<close>

definition unused_after :: "world \<Rightarrow> string \<Rightarrow> string \<Rightarrow> api_call list \<Rightarrow> bool" where
  "unused_after w grp i t \<longleftrightarrow>
     (\<exists>items. w_list_ingresses w (t @ [K8sListIngresses]) = Inr items \<and> (\<forall>k \<in> set items. \<not> active_in grp k)) \<and>
     (\<exists>ps. w_get_resources w (t @ [K8sListIngresses, group_lookup grp]) = Inr ps \<and> found_id ps = Some i)"

lemma V1_deletes:
  assumes "poll_spec poll" and "wf_orders (mo_build mo)"
    and "snd (V1_Reconcile (main_service w libs me poll mo cfg) (NewCDNClassFetcher w) ns n t) = t @ v"
    and "DeleteDistribution i tag \<in> set v"
  shows "DeletionEnabled cfg \<and> (\<exists>u x grp. v = u @ [K8sListIngresses, group_lookup grp] @ x \<and>
     DeleteDistribution i tag \<in> set x \<and> unused_after w grp i (t @ u))"
proof -
  let ?s = "main_service w libs me poll mo cfg"
  obtain ing "class" where run: "snd (Reconcile ?s ing class (t @ [K8sGetIngress ns n, K8sGetClass (CDNClassAnnotationValue ing)])) = t @ v"
    using assms(3,4) unfolding V1_run Let_def by (auto split: sum.splits if_splits)
  let ?g = "[K8sGetIngress ns n, K8sGetClass (CDNClassAnnotationValue ing)]"
  have "emits (\<lambda>_. True) (Reconcile ?s ing class)"
    by (rule main.emits_Reconcile) (simp_all add: main_sync_calls [OF assms(1)] main.emits_syncAliases)
  then obtain v' where v': "snd (Reconcile ?s ing class (t @ ?g)) = (t @ ?g) @ v'" by (rule emitsE)
  with run have v: "v = ?g @ v'" by simp
  with assms(4) have "DeleteDistribution i tag \<in> set v'" by auto
  from main_deletes [OF assms(1,2) v' this] obtain u x items ps where "DeletionEnabled cfg"
    and u: "v' = u @ [K8sListIngresses, group_lookup (groupAnnotationValue ing)] @ x" "DeleteDistribution i tag \<in> set x"
    and "w_list_ingresses w ((t @ ?g) @ u @ [K8sListIngresses]) = Inr items"
      "\<forall>k \<in> set items. \<not> active_in (groupAnnotationValue ing) k"
      "w_get_resources w ((t @ ?g) @ u @ [K8sListIngresses, group_lookup (groupAnnotationValue ing)]) = Inr ps"
      "found_id ps = Some i"
    unfolding Let_def by blast
  moreover from this have "unused_after w (groupAnnotationValue ing) i (t @ (?g @ u))"
    by (simp add: unused_after_def)
  moreover have "v = (?g @ u) @ [K8sListIngresses, group_lookup (groupAnnotationValue ing)] @ x"
    using v u by simp
  ultimately show ?thesis by blast
qed

text \<open>
  C1. In every reachable state of the controller, each deletion of a distribution is justified by
  the past: deletion is enabled, some earlier listing of the Ingresses of the cluster contained no
  active Ingress of a group, and the lookup right after it found exactly this distribution by the tags
  of that group.
\<close>

theorem deletions_justified:
  assumes "reachable (main_service w libs me poll mo cfg) (NewCDNClassFetcher w) t"
    and "poll_spec poll" and "wf_orders (mo_build mo)" and "DeleteDistribution i tag \<in> set t"
  shows "DeletionEnabled cfg \<and> (\<exists>x1 x2 grp. t = x1 @ [K8sListIngresses, group_lookup grp] @ x2 \<and>
     DeleteDistribution i tag \<in> set x2 \<and> unused_after w grp i x1)"
  using assms(1,4)
proof (induction rule: reachable.induct)
  case (step t t')
  from step.hyps(2) obtain ns n where t': "snd (V1_Reconcile (main_service w libs me poll mo cfg) (NewCDNClassFetcher w) ns n t) = t'"
    by (rule controller_stepE)
  from V1_extends [OF assms(2)] obtain v where v: "snd (V1_Reconcile (main_service w libs me poll mo cfg) (NewCDNClassFetcher w) ns n t) = t @ v"
    by (rule emitsE [where t = t])
  show ?case
  proof (cases "DeleteDistribution i tag \<in> set t")
    case True
    from step.IH [OF True] obtain x1 x2 grp where "DeletionEnabled cfg" "t = x1 @ [K8sListIngresses, group_lookup grp] @ x2"
      "DeleteDistribution i tag \<in> set x2" "unused_after w grp i x1"
      by blast
    moreover from this(2) have "t' = x1 @ [K8sListIngresses, group_lookup grp] @ (x2 @ v)" using t' v by simp
    ultimately show ?thesis by (metis UnI1 set_append)
  next
    case False
    with step.prems t' v have "DeleteDistribution i tag \<in> set v" by auto
    from V1_deletes [OF assms(2,3) v this] obtain u x grp where "DeletionEnabled cfg"
      "v = u @ [K8sListIngresses, group_lookup grp] @ x" "DeleteDistribution i tag \<in> set x" "unused_after w grp i (t @ u)"
      by blast
    moreover from this(2) have "t' = (t @ u) @ [K8sListIngresses, group_lookup grp] @ x" using t' v by simp
    ultimately show ?thesis by blast
  qed
qed simp

definition served_world :: world where
  "served_world = retired_world\<lparr>w_get_ingress := \<lambda>_. Inr retired_ingress, w_get_class := \<lambda>_. Inr alias_class_object\<rparr>"

lemma served_deletes:
  "DeleteDistribution ''E1'' (Some ''v2'') \<in>
     set (snd (V1_Reconcile (plain_service served_world True) (NewCDNClassFetcher served_world) ''prod'' ''web'' []))"
  by code_simp

theorem deletions_justified_witness:
  "\<exists>x1 x2 grp. snd (V1_Reconcile (plain_service served_world True) (NewCDNClassFetcher served_world) ''prod'' ''web'' []) =
     x1 @ [K8sListIngresses, group_lookup grp] @ x2 \<and> unused_after served_world grp ''E1'' x1"
proof -
  let ?t = "snd (V1_Reconcile (plain_service served_world True) (NewCDNClassFetcher served_world) ''prod'' ''web'' [])"
  let ?s = "main_service served_world sample_libs sample_multierr sample_poll sample_mo (plain_cfg True)"
  have "reachable ?s (NewCDNClassFetcher served_world) ?t"
    unfolding plain_service_def
    by (rule reachable.step [OF reachable.start]) (rule controller_step.handle [OF refl])
  from deletions_justified [OF this sample_poll_spec wf_sample_mo served_deletes] show ?thesis by blast
qed

end
