(* ===== verification/Go_Safety.thy ===== *)
theory Go_Safety
  imports Go_Prelude
begin

text \<open>
  A calculus for the absence of run-time panics: \<open>safe Q m\<close> says that the computation \<open>m\<close> never
  panics, whatever has been requested before, and that every value it returns satisfies \<open>Q\<close>. There is
  one rule per construct of the effect type, collected in \<open>safe_intros\<close>.
\<close>

named_theorems safe_intros \<open>computations that never panic\<close>

definition safe_out :: "('a \<Rightarrow> bool) \<Rightarrow> 'a outcome \<Rightarrow> bool" where
  "safe_out Q r \<longleftrightarrow> (case r of Ok x \<Rightarrow> Q x | Err e \<Rightarrow> True | Panic \<Rightarrow> False)"

definition safe :: "('a \<Rightarrow> bool) \<Rightarrow> ('c, 'a) io \<Rightarrow> bool" where
  "safe Q m \<longleftrightarrow> (\<forall>t. safe_out Q (fst (m t)))"

abbreviation "any \<equiv> \<lambda>_. True"

lemma safe_out_simps [simp]:
  "safe_out Q (Ok x) \<longleftrightarrow> Q x" "safe_out Q (Err e)" "\<not> safe_out Q Panic"
  by (simp_all add: safe_out_def)

lemma safe_out_any: "safe_out any r \<longleftrightarrow> r \<noteq> Panic"
  by (cases r) simp_all

lemma safe_out_mono: "safe_out R r \<Longrightarrow> (\<And>x. R x \<Longrightarrow> Q x) \<Longrightarrow> safe_out Q r"
  by (cases r) simp_all

lemma safe_out_bind: "safe_out R r \<Longrightarrow> (\<And>x. R x \<Longrightarrow> safe_out Q (f x)) \<Longrightarrow> safe_out Q (out_bind r f)"
  by (cases r) simp_all

lemma safe_out_wrap [simp]: "safe_out Q (out_wrap w r) \<longleftrightarrow> safe_out Q r"
  by (cases r) simp_all

lemma safe_out_of_sum: "safe_out Q (of_sum r) \<longleftrightarrow> (\<forall>x. r = Inr x \<longrightarrow> Q x)"
  by (cases r) simp_all

lemma safe_out_mapM: "(\<And>x. x \<in> set xs \<Longrightarrow> safe_out any (f x)) \<Longrightarrow> safe_out any (out_mapM f xs)"
  by (induction xs) (auto intro!: safe_out_bind [where R = any])

lemma safe_out_foldM:
  "Q s \<Longrightarrow> (\<And>s x. x \<in> set xs \<Longrightarrow> Q s \<Longrightarrow> safe_out Q (f s x)) \<Longrightarrow> safe_out Q (out_foldM f s xs)"
  by (induction xs arbitrary: s) (auto intro!: safe_out_bind [where R = Q])

lemma safe_no_panic: "safe Q m \<Longrightarrow> fst (m t) \<noteq> Panic"
  unfolding safe_def by (metis safe_out_simps(3))

lemma safe_value: "safe Q m \<Longrightarrow> m t = (Ok x, t') \<Longrightarrow> Q x"
  unfolding safe_def by (metis fst_conv safe_out_simps(1))

lemma safe_mono: "safe R m \<Longrightarrow> (\<And>x. R x \<Longrightarrow> Q x) \<Longrightarrow> safe Q m"
  unfolding safe_def by (blast intro: safe_out_mono)

lemma safe_any: "safe Q m \<Longrightarrow> safe any m"
  by (erule safe_mono) simp

section \<open>One rule per construct\<close>

lemmas safe_trivial [safe_intros] = TrueI

lemma safe_return [safe_intros]: "Q x \<Longrightarrow> safe Q (io_return x)"
  by (simp add: safe_def io_return_def)

lemma safe_fail [safe_intros]: "safe Q (io_fail e)"
  by (simp add: safe_def io_fail_def)

lemma safe_lift: "safe_out Q r \<Longrightarrow> safe Q (io_lift r)"
  by (simp add: safe_def io_lift_def)

lemma safe_wrap [safe_intros]: "safe Q m \<Longrightarrow> safe Q (io_wrap w m)"
  unfolding safe_def io_wrap_def by (metis fst_conv prod.case_eq_if safe_out_wrap)

lemma safe_bind:
  assumes "safe R m" and "\<And>x. R x \<Longrightarrow> safe Q (f x)"
  shows "safe Q (io_bind m f)"
  unfolding safe_def
proof
  fix t
  obtain r t' where m: "m t = (r, t')" by (cases "m t")
  with assms(1) have "safe_out R r" unfolding safe_def by (metis fst_conv)
  with m assms(2) show "safe_out Q (fst (io_bind m f t))"
    by (cases r) (simp_all add: io_bind_def safe_def)
qed

text \<open>When nothing needs to be known of the first value.\<close>

lemma safe_seq [safe_intros]: "safe any m \<Longrightarrow> (\<And>x. safe Q (f x)) \<Longrightarrow> safe Q (io_bind m f)"
  by (rule safe_bind)

lemma safe_try:
  assumes "safe R m" and "\<And>x. R x \<Longrightarrow> Q (Inr x)" and "\<And>e. Q (Inl e)"
  shows "safe Q (io_try m)"
  unfolding safe_def
proof
  fix t
  obtain r t' where m: "m t = (r, t')" by (cases "m t")
  with assms(1) have "safe_out R r" unfolding safe_def by (metis fst_conv)
  with m assms(2,3) show "safe_out Q (fst (io_try m t))"
    by (cases r) (simp_all add: io_try_def)
qed

lemma safe_try_any [safe_intros]: "safe any m \<Longrightarrow> safe any (io_try m)"
  by (rule safe_try) simp_all

lemma safe_call: "(\<And>t x. resp t = Inr x \<Longrightarrow> Q x) \<Longrightarrow> safe Q (io_call c resp)"
  by (auto simp: safe_def io_call_def split: sum.split)

lemma safe_call_any [safe_intros]: "safe any (io_call c resp)"
  by (rule safe_call) simp

lemma safe_mapM [safe_intros]: "(\<And>x. safe any (f x)) \<Longrightarrow> safe any (io_mapM f xs)"
  by (induction xs) (auto intro!: safe_intros)

lemma safe_foldM [safe_intros]: "(\<And>s x. safe any (f s x)) \<Longrightarrow> safe any (io_foldM f s xs)"
  by (induction xs arbitrary: s) (auto intro!: safe_intros)

lemma safe_if [safe_intros]: "(b \<Longrightarrow> safe Q m) \<Longrightarrow> (\<not> b \<Longrightarrow> safe Q n) \<Longrightarrow> safe Q (if b then m else n)"
  by simp

lemma safe_case_sum [safe_intros]:
  "(\<And>x. r = Inl x \<Longrightarrow> safe Q (f x)) \<Longrightarrow> (\<And>y. r = Inr y \<Longrightarrow> safe Q (g y)) \<Longrightarrow>
   safe Q (case r of Inl x \<Rightarrow> f x | Inr y \<Rightarrow> g y)"
  by (cases r) simp_all

lemma safe_case_option [safe_intros]:
  "(r = None \<Longrightarrow> safe Q m) \<Longrightarrow> (\<And>y. r = Some y \<Longrightarrow> safe Q (g y)) \<Longrightarrow>
   safe Q (case r of None \<Rightarrow> m | Some y \<Rightarrow> g y)"
  by (cases r) simp_all

lemma safe_case_prod [safe_intros]:
  "(\<And>x y. p = (x, y) \<Longrightarrow> safe Q (f x y)) \<Longrightarrow> safe Q (case p of (x, y) \<Rightarrow> f x y)"
  by (cases p) simp

lemma safe_let [safe_intros]: "(\<And>y. y = x \<Longrightarrow> safe Q (f y)) \<Longrightarrow> safe Q (let y = x in f y)"
  by simp

end
