(* ===== verification/No_Panic.thy ===== *)
theory No_Panic
  imports Controllers Go_Safety
begin

text \<open>
  The controller never panics: where the code dereferences a pointer or indexes a slice without a
  check, the value is there, given what the APIs document about their answers (\<open>typed_world\<close>). The
  two places where this is not enough are stated as such.
\<close>

section \<open>Well-typed answers\<close>

text \<open>
  Required members of the answers are there: an existing distribution configuration has a default
  root object and comes with a version tag, ARNs have a resource part after a slash, listed
  certificates have an ARN and their details an ARN and a domain name, and Kubernetes has validated
  that every path of an Ingress has a path type. The condition on the DNS records is no promise of
  Route 53: address records with the name of an alias must be alias records.
\<close>

definition typed_ingress :: "ingress \<Rightarrow> bool" where
  "typed_ingress ing \<longleftrightarrow> (\<forall>p \<in> set (spec_paths ing). hp_type p \<noteq> None)"

definition typed_record :: "rrset \<Rightarrow> bool" where
  "typed_record rs \<longleftrightarrow> (rr_Type rs = RRTypeA \<or> rr_Type rs = RRTypeAaaa \<longrightarrow> rr_AliasTarget rs \<noteq> None)"

definition typed_world :: "world \<Rightarrow> bool" where
  "typed_world w \<longleftrightarrow>
     (\<forall>t c tag. w_get_distribution_config w t = Inr (c, tag) \<longrightarrow> dc_DefaultRootObject c \<noteq> None \<and> tag \<noteq> None) \<and>
     (\<forall>t ps arn. w_get_resources w t = Inr ps \<longrightarrow> Some arn \<in> set ps \<longrightarrow> arn \<noteq> [] \<longrightarrow> CHR ''/'' \<in> set arn) \<and>
     (\<forall>t page. page \<in> set (fst (w_list_certificates w t)) \<longrightarrow> None \<notin> set (fst page)) \<and>
     (\<forall>t d. w_describe_certificate w t = Inr d \<longrightarrow> acd_CertificateArn d \<noteq> None \<and> acd_DomainName d \<noteq> None) \<and>
     (\<forall>t sets. w_list_record_sets w t = Inr sets \<longrightarrow> list_all typed_record sets) \<and>
     (\<forall>t items. w_list_ingresses w t = Inr items \<longrightarrow> list_all typed_ingress items) \<and>
     (\<forall>t ing. w_get_ingress w t = Inr ing \<longrightarrow> typed_ingress ing)"

lemma typed_worldD:
  assumes "typed_world w"
  shows "w_get_distribution_config w t = Inr (c, tag) \<Longrightarrow> \<exists>root v. dc_DefaultRootObject c = Some root \<and> tag = Some v"
    and "w_get_resources w t = Inr ps \<Longrightarrow> Some arn \<in> set ps \<Longrightarrow> arn \<noteq> [] \<Longrightarrow> CHR ''/'' \<in> set arn"
    and "page \<in> set (fst (w_list_certificates w t)) \<Longrightarrow> None \<notin> set (fst page)"
    and "w_describe_certificate w t = Inr d \<Longrightarrow> \<exists>a n. acd_CertificateArn d = Some a \<and> acd_DomainName d = Some n"
    and "w_list_record_sets w t = Inr sets \<Longrightarrow> list_all typed_record sets"
    and "w_list_ingresses w t = Inr items \<Longrightarrow> list_all typed_ingress items"
    and "w_get_ingress w t = Inr ing \<Longrightarrow> typed_ingress ing"
  using assms unfolding typed_world_def by (blast dest: spec)+

section \<open>Translating Ingresses\<close>

lemma safe_paths:
  assumes "typed_ingress ing"
  shows "safe_out any (pathsForViewerFunction ing arn)" "safe_out any (pathsForFunctionAssociations ing fa)"
  using assms unfolding pathsForViewerFunction_def pathsForFunctionAssociations_def typed_ingress_def
  by (auto intro!: safe_out_mapM simp: Let_def split: option.split)

lemma safe_NewCDNIngressFromV1:
  assumes "typed_ingress ing"
  shows "safe_out any (NewCDNIngressFromV1 libs ing class)"
proof -
  have "safe_out any (functionAssociations libs ing)" "safe_out any (tagsAnnotationValue libs ing)"
    by (simp_all add: functionAssociations_def tagsAnnotationValue_def safe_out_of_sum split: option.split)
  moreover have "safe_out any (headersV1 ing)"
    unfolding headersV1_def parseOriginHeaders_def
    by (auto intro!: safe_out_bind [where R = any] safe_out_foldM simp: Let_def split: option.split)
  ultimately show ?thesis
    unfolding NewCDNIngressFromV1_def pathsV1_def Let_def
    by (intro safe_out_bind [where R = any]) (auto intro: safe_paths [OF assms])
qed

lemma safe_user_origins: "safe_out any (cdnIngressesForUserOrigins libs obj)"
  unfolding cdnIngressesForUserOrigins_def userOriginsFromYAML_def
  by (auto intro!: safe_out_bind [where R = any] safe_out_mapM simp: safe_out_of_sum split: option.split)

lemma safe_validate: "safe any (validateIngress s ing)"
proof -
  have "safe_out any (ValidateIngressFunctionAssociations (sv_libs s) (sv_ord_fas s) ing)"
    unfolding ValidateIngressFunctionAssociations_def functionAssociations_def
    by (auto intro!: safe_out_bind [where R = any] safe_out_mapM simp: safe_out_of_sum split: option.split)
  then show ?thesis
    unfolding validateIngress_def io_notify_def by (intro safe_intros safe_lift)
qed

lemma safe_FetchBy:
  assumes "typed_world w"
  shows "safe any (FetchBy w libs class pred)"
proof -
  have "safe (list_all typed_ingress) (io_wrap f (io_call K8sListIngresses (w_list_ingresses w)))" for f
    by (intro safe_wrap safe_call) (rule typed_worldD(6) [OF assms])
  moreover have "safe_out any (out_foldM (fetch_step libs class pred) [] items)" if "list_all typed_ingress items" for items
    using that unfolding fetch_step_def list_all_iff
    by (auto intro!: safe_out_foldM safe_out_bind [where R = any] safe_NewCDNIngressFromV1 safe_user_origins)
  ultimately show ?thesis
    unfolding FetchBy_def by (intro safe_bind [where R = "list_all typed_ingress"] safe_lift)
qed

section \<open>Certificates\<close>

lemma safe_visit_cert_page:
  assumes "typed_world w"
  shows "None \<notin> set arns \<Longrightarrow> safe any (visit_cert_page w filt arns l s)"
proof (induction arns arbitrary: s)
  case (Cons arn arns)
  obtain certs err a where s: "s = (certs, err)" and a: "arn = Some a" using Cons.prems by (cases s; cases arn) auto
  have "safe any (case r of
       Inl err \<Rightarrow> io_bind (io_lift (deref arn)) (\<lambda>a. io_return ((certs, Some (cert_error a err)), False))
     | Inr detail \<Rightarrow>
         io_bind (io_lift (deref (acd_CertificateArn detail))) (\<lambda>a.
         io_bind (io_lift (deref (acd_DomainName detail))) (\<lambda>dn.
         let dnCert = new_cert a dn detail in
         visit_cert_page w filt arns l (if filt dnCert then certs @ [dnCert] else certs, e))))"
    if "\<forall>detail. r = Inr detail \<longrightarrow> (\<exists>a n. acd_CertificateArn detail = Some a \<and> acd_DomainName detail = Some n)" for r e
    unfolding Let_def using that Cons
    by (intro safe_intros safe_lift) (auto simp: a)
  then show ?case
    unfolding s visit_cert_page.simps
    by (intro safe_bind [where R = "\<lambda>r. \<forall>d. r = Inr d \<longrightarrow> (\<exists>a n. acd_CertificateArn d = Some a \<and> acd_DomainName d = Some n)"]
        safe_try [where R = "\<lambda>d. \<exists>a n. acd_CertificateArn d = Some a \<and> acd_DomainName d = Some n"] safe_call)
      (auto dest: typed_worldD(4) [OF assms])
qed (cases s; simp add: safe_intros)

lemma safe_for_pages:
  "(\<And>p more s. (p, more) \<in> set ps \<Longrightarrow> safe any (fn p (\<not> more) s)) \<Longrightarrow> safe any (for_pages fn ps s)"
  by (induction fn ps s rule: for_pages.induct) (auto intro!: safe_intros)

lemma safe_DiscoverByHost:
  assumes "typed_world w"
  shows "safe any (DiscoverByHost w hosts)"
proof -
  have "safe any (for_pages (visit_cert_page w filt) ps s)" if "\<forall>page \<in> set ps. None \<notin> set (fst page)"
    for filt ps and s :: cert_search
    using that by (intro safe_for_pages safe_visit_cert_page [OF assms]) force
  moreover have "safe (\<lambda>r. \<forall>page \<in> set (fst r). None \<notin> set (fst page)) (io_pages c (w_list_certificates w))" for c
    unfolding io_pages_def by (intro safe_call) (auto dest: typed_worldD(3) [OF assms])
  ultimately have "safe any (list_pages c (w_list_certificates w) (visit_cert_page w filt) s)"
    for c filt and s :: cert_search
    unfolding list_pages_def split_beta
    by (intro safe_bind [where R = "\<lambda>r. \<forall>page \<in> set (fst r). None \<notin> set (fst page)"] safe_seq safe_return TrueI)
  then show ?thesis
    unfolding DiscoverByHost_def FindByFilter_def split_beta Let_def by (intro safe_intros)
qed

section \<open>Access controls and distributions\<close>

lemma safe_getOAC: "safe any (getOAC w d)"
  unfolding getOAC_def ListOriginAccessControlsPages_def list_pages_def visit_oac_page_def getETag_def
    io_pages_def Let_def
  by (intro safe_intros safe_for_pages)

lemma safe_oac_Sync: "safe any (oac_Sync w d)"
  unfolding oac_Sync_def updateOAC_def createOAC_def by (intro safe_intros safe_getOAC)

lemma safe_oac_Delete: "safe any (oac_Delete w cfg d)"
  unfolding oac_Delete_def by (intro safe_intros safe_getOAC)

lemma safe_io_ask [safe_intros]: "safe any (io_ask f)"
  by (simp add: safe_def io_ask_def)

lemma safe_config:
  assumes "typed_world w"
  shows "safe (\<lambda>r. \<exists>root v. dc_DefaultRootObject (fst r) = Some root \<and> snd r = Some v)
    (DistributionConfigByID (main_repo w cfg poll oh ot) i)"
  unfolding DistributionConfigByID_def main_repo_simps
  by (rule safe_call) (use typed_worldD(1) [OF assms] in fastforce)

lemma safe_deleteOACs: "safe any (deleteOACs (main_repo w cfg poll oh ot) xs)"
  unfolding deleteOACs_def main_repo_simps NewOACRepository_def oac_repository.simps
  by (intro safe_intros safe_oac_Delete)

lemma safe_dist_Sync:
  assumes "typed_world w"
  shows "safe any (dist_Sync (main_repo w cfg poll oh ot) d)"
proof -
  have "safe any (syncOACs (main_repo w cfg poll oh ot) xs)" for xs
    unfolding syncOACs_def main_repo_simps NewOACRepository_def oac_repository.simps
    by (intro safe_intros safe_oac_Sync)
  then show ?thesis
    unfolding dist_Sync_def Let_def split_beta runPostUpdateOperations_def
    by (intro safe_seq safe_io_ask safe_bind [OF safe_wrap [OF safe_config [OF assms]]] safe_wrap)
      (auto intro!: safe_intros safe_lift safe_deleteOACs)
qed

lemma safe_dist_Create: "typed_world w \<Longrightarrow> safe any (dist_Create (main_repo w cfg poll oh ot) (dist_Sync (main_repo w cfg poll oh ot)) d)"
  unfolding dist_Create_def prepareAndRunPostCreationOperations_def Let_def by (intro safe_intros safe_dist_Sync)

lemma safe_poll_iter: "(\<And>s. safe any (cond s)) \<Longrightarrow> safe any (poll_iter n cond s)"
  by (induction n arbitrary: s) (auto intro!: safe_intros)

lemma safe_wait:
  assumes "poll_spec poll"
  shows "safe any (waitUntilDeployed (main_repo w cfg poll oh ot) i)"
  unfolding safe_def
proof
  fix t
  have "safe any (deployed_condition (main_repo w cfg poll oh ot) i s)" for s
    unfolding deployed_condition_def distributionByID_def by (intro safe_intros)
  then have "safe any (poll_iter n (deployed_condition (main_repo w cfg poll oh ot) i) None)" for n
    by (rule safe_poll_iter)
  moreover obtain n where "waitUntilDeployed (main_repo w cfg poll oh ot) i t =
      poll_iter n (deployed_condition (main_repo w cfg poll oh ot) i) None t"
    unfolding waitUntilDeployed_def main_repo_simps
    using poll_specD [OF assms, of 10 60 600 "deployed_condition (main_repo w cfg poll oh ot) i" None t] by auto
  ultimately show "safe_out any (fst (waitUntilDeployed (main_repo w cfg poll oh ot) i t))"
    by (simp add: safe_def)
qed

lemma safe_dist_Delete:
  assumes "typed_world w" and "poll_spec poll"
  shows "safe any (dist_Delete (main_repo w cfg poll oh ot) d)"
proof -
  have "safe any (deleteAllOACs (main_repo w cfg poll oh ot) c)" for c
    unfolding deleteAllOACs_def by (rule safe_deleteOACs)
  moreover have "safe any (fail_or_return e)" for e
    unfolding fail_or_return_def by (intro safe_intros)
  moreover have "safe (\<lambda>r. \<forall>p. r = Inr p \<longrightarrow> (\<exists>v. snd p = Some v))
      (io_try (DistributionConfigByID (main_repo w cfg poll oh ot) (dist_ID d)))"
    by (rule safe_try [OF safe_config [OF assms(1)]]) auto
  ultimately show ?thesis
    unfolding dist_Delete_def disableDist_def
    by (intro safe_bind [where R = "\<lambda>r. \<forall>p. r = Inr p \<longrightarrow> (\<exists>v. snd p = Some v)"])
      (auto intro!: safe_intros safe_lift safe_wait [OF assms(2)] split: option.split)
qed

section \<open>Aliases\<close>

text \<open>The entries the service asks for have address types only.\<close>

definition typed_aliases :: "aliases \<Rightarrow> bool" where
  "typed_aliases a \<longleftrightarrow> (\<forall>e \<in> set (as_Entries a). set (en_Types e) \<subseteq> {RRTypeA, RRTypeAaaa})"

lemma typed_NewAliases: "typed_aliases (NewAliases target hz own domains v6)"
  by (auto simp: typed_aliases_def NewAliases_def Let_def)

lemma filterRecordSets_address:
  "set (fr_address (filterRecordSets e sets)) \<subseteq> {rs \<in> set sets. rr_Type rs \<in> set (en_Types e)}"
proof -
  have "set (fr_address (foldl (\<lambda>filtered rs.
     if en_Name e = rr_Name rs
     then let filtered = (if contains (en_Types e) (rr_Type rs)
                then filtered\<lparr>fr_address := fr_address filtered @ [rs]\<rparr> else filtered) in
          if rr_Type rs = RRTypeTxt then filtered\<lparr>fr_txt := Some rs\<rparr> else filtered
     else filtered) acc sets)) \<subseteq> set (fr_address acc) \<union> {rs \<in> set sets. rr_Type rs \<in> set (en_Types e)}" for acc
  proof (induction sets arbitrary: acc)
    case (Cons rs sets)
    let ?acc = "if en_Name e = rr_Name rs
     then let filtered = (if contains (en_Types e) (rr_Type rs)
                then acc\<lparr>fr_address := fr_address acc @ [rs]\<rparr> else acc) in
          if rr_Type rs = RRTypeTxt then filtered\<lparr>fr_txt := Some rs\<rparr> else filtered
     else acc"
    have "set (fr_address ?acc) \<subseteq> set (fr_address acc) \<union> {x \<in> {rs}. rr_Type x \<in> set (en_Types e)}"
      by (auto simp: Let_def contains_def list_ex_iff)
    with Cons [of ?acc] show ?case by auto
  qed simp
  from this [of "\<lparr>fr_address = [], fr_txt = None\<rparr>"] show ?thesis by (simp add: filterRecordSets_def)
qed

text \<open>What is kept of the records of a name can be dereferenced.\<close>

lemma safe_existing:
  assumes "typed_world w" and "set (en_Types e) \<subseteq> {RRTypeA, RRTypeAaaa}"
  shows "safe (\<lambda>fr. \<forall>rs \<in> set (fr_address fr). rr_AliasTarget rs \<noteq> None) (existingRecordSets w own hz e)"
proof -
  have call: "safe (list_all typed_record) (io_call c (w_list_record_sets w))" for c
    by (rule safe_call) (rule typed_worldD(5) [OF assms(1)])
  have "safe (list_all typed_record) (resourceRecordSetsByEntry w hz e)"
    unfolding resourceRecordSetsByEntry_def
    by (rule safe_bind [OF call], rule safe_bind [OF call]) (auto intro!: safe_return split: list.split)
  moreover have "\<forall>rs \<in> set (fr_address (filterRecordSets e sets)). rr_AliasTarget rs \<noteq> None"
    if "list_all typed_record sets" for sets
    using that filterRecordSets_address [of e sets] assms(2) by (fastforce simp: list_all_iff typed_record_def)
  ultimately show ?thesis
    unfolding existingRecordSets_def Let_def
    by (intro safe_bind [where R = "list_all typed_record"]) (auto intro!: safe_intros split: option.split)
qed

lemma safe_foldM_on:
  "(\<And>s x. x \<in> set xs \<Longrightarrow> safe any (f s x)) \<Longrightarrow> safe any (io_foldM f s xs)"
  by (induction xs arbitrary: s) (simp_all add: safe_return safe_seq)

lemma safe_alias_Upsert:
  assumes "typed_world w" and "typed_aliases a"
  shows "safe any (alias_Upsert w a)"
  using assms unfolding alias_Upsert_def requestChanges_def typed_aliases_def
  by (intro safe_if safe_return TrueI safe_seq safe_foldM_on safe_wrap safe_call_any)
    (rule safe_any, rule safe_existing, simp_all)

lemma safe_alias_Delete:
  assumes "typed_world w" and "typed_aliases a"
  shows "safe any (alias_Delete w a)"
proof -
  have target: "safe_out any (delete_target tgt fr)" if "\<forall>rs \<in> set (fr_address fr). rr_AliasTarget rs \<noteq> None" for tgt fr
    using that by (auto simp: delete_target_def split: list.split)
  have step: "safe any (io_bind (existingRecordSets w own hz e) (\<lambda>recordSets.
          case fr_txt recordSets of
            None \<Rightarrow> io_fail (f e)
          | Some txt \<Rightarrow> io_bind (io_lift (delete_target tgt recordSets)) (\<lambda>target. io_return (g target txt))))"
    if "e \<in> set (as_Entries a)" for e own hz tgt f and g :: "string \<Rightarrow> rrset \<Rightarrow> 'b"
    using assms(2) that unfolding typed_aliases_def
    by (intro safe_bind [OF safe_existing [OF assms(1)]]) (auto intro!: safe_intros safe_lift target)
  show ?thesis
    unfolding alias_Delete_def requestChanges_def split_beta
    by (intro safe_if safe_return TrueI safe_seq safe_foldM_on safe_call_any step)
qed

section \<open>The service\<close>

text \<open>What a service relies on when it never panics, each part under a proviso on its surroundings.\<close>

locale safe_parts =
  fixes s :: service and proviso :: bool
  assumes safe_create: "proviso \<Longrightarrow> safe any (distr_Create (sv_dists s) d)"
    and safe_sync: "proviso \<Longrightarrow> safe any (distr_Sync (sv_dists s) d)"
    and safe_delete: "proviso \<Longrightarrow> safe any (distr_Delete (sv_dists s) d)"
    and safe_cfg: "proviso \<Longrightarrow> safe any (distr_ConfigByID (sv_dists s) i)"
    and safe_arn: "proviso \<Longrightarrow> safe (\<lambda>arn. arn \<noteq> [] \<longrightarrow> CHR ''/'' \<in> set arn) (distr_ARNByGroup (sv_dists s) g)"
    and safe_up: "proviso \<Longrightarrow> typed_aliases a \<Longrightarrow> safe any (ar_Upsert (sv_aliases s) a)"
    and safe_del: "proviso \<Longrightarrow> typed_aliases a \<Longrightarrow> safe any (ar_Delete (sv_aliases s) a)"
    and safe_certs: "proviso \<Longrightarrow> safe any (certs_DiscoverByHost (sv_certs s) hosts)"
    and safe_fetch: "proviso \<Longrightarrow> safe any (if_FetchBy (sv_fetcher s) class pred)"
begin

lemma safe_newDistribution:
  assumes prov: "proviso" and "arn \<noteq> [] \<longrightarrow> CHR ''/'' \<in> set arn"
  shows "safe any (newDistribution s ings grp shared arn)"
proof -
  have id: "safe_out any (extractID arn)" if "0 < length arn"
    using assms(2) that go_split_nth1_ok [of "CHR ''/''" arn] by (simp add: extractID_def index_def safe_out_any)
  have arn: "safe_out any (WithARN arn b)" if "0 < length arn" for b
    unfolding WithARN_def using id [OF that] by (intro safe_out_bind [where R = any]) simp_all
  have build: "safe_out any (DistributionBuilder_Build os b)" for os b
    by (simp add: safe_out_any Build_no_panic)
  show ?thesis
    unfolding newDistribution_def discoverCert_def keepCurrentWebACLConfig_def Let_def split_beta
    by (intro safe_intros safe_certs [OF prov] safe_lift safe_cfg [OF prov] id arn build)
qed

lemma safe_desiredState:
  assumes prov: "proviso"
  shows "safe any (desiredState s reconciling)"
proof -
  have shared: "safe_out any (NewSharedIngressParams ho po ings)" for ho po ings
    using merge_all_ingresses_iff(3) [of ings]
    by (simp add: NewSharedIngressParams_def safe_out_any out_bind_Panic_iff merged_web_acl mergedPaths_def)
  have lookup: "safe (\<lambda>r. \<forall>arn. r = Inr arn \<longrightarrow> arn \<noteq> [] \<longrightarrow> CHR ''/'' \<in> set arn)
      (io_try (distr_ARNByGroup (sv_dists s) g))" for g
    by (rule safe_try [OF safe_arn [OF prov]]) auto
  have arn: "safe (\<lambda>arn. arn \<noteq> [] \<longrightarrow> CHR ''/'' \<in> set arn) (case r of
         Inr arn \<Rightarrow> io_return arn
       | Inl err \<Rightarrow> if \<not> errors_Is err ErrDistNotFound then io_fail (f err) else io_return [])"
    if "\<forall>arn. r = Inr arn \<longrightarrow> arn \<noteq> [] \<longrightarrow> CHR ''/'' \<in> set arn" for r f
    using that by (intro safe_intros) simp_all
  show ?thesis
    unfolding desiredState_def desiredIngresses_def
    by (intro safe_seq safe_wrap safe_fetch [OF prov] safe_lift safe_out_wrap [THEN iffD2] shared safe_bind [OF lookup]
        safe_bind [OF arn] safe_newDistribution [OF prov] safe_return TrueI)
qed

lemma safe_plan:
  assumes prov: "proviso"
  shows "safe any (reconcile_plan s ing reconciling)"
proof -
  have "safe_out any (validateCreation s d ing)" for d
    by (simp add: validateCreation_def)
  then show ?thesis
    unfolding reconcile_plan_def fetchOrGenerateCDNStatus_def split_beta
    by (intro safe_intros safe_desiredState [OF prov] safe_lift)
qed

lemma safe_aws:
  assumes prov: "proviso"
  shows "safe any (reconcile_aws s ing class d st)"
  unfolding reconcile_aws_def syncDist_def upsertDistribution_def updateDistribution_def createDistribution_def
    deleteDistribution_def syncAliases_def newAliases_def Let_def split_beta fst_conv snd_conv
  by (intro safe_intros safe_sync [OF prov] safe_create [OF prov] safe_delete [OF prov] safe_up [OF prov]
      safe_del [OF prov] typed_NewAliases)

lemma safe_k8s: "safe any (reconcile_k8s s ing d st errs)"
  unfolding reconcile_k8s_def reconcileFinalizer_def deleteCDNStatus_def upsertCDNStatus_def handleResult_def
    handleFailureWithStatus_def handleSuccess_def recordFailureOnIngress_def io_notify_def Let_def split_beta
  by (intro safe_intros)

lemma safe_Reconcile:
  assumes prov: "proviso" and "typed_ingress ing"
  shows "safe any (Reconcile s ing class)"
  unfolding Reconcile_def handleFailure_def recordFailureOnIngress_def reconcileFinalizer_def io_notify_def
    fail_or_return_def Let_def split_beta
  by (intro safe_intros safe_validate safe_lift safe_NewCDNIngressFromV1 assms(2) safe_plan [OF prov]
      safe_aws [OF prov] safe_k8s)

end

lemma safe_main_arn:
  assumes "typed_world w"
  shows "safe (\<lambda>arn. arn \<noteq> [] \<longrightarrow> CHR ''/'' \<in> set arn) (ARNByGroup (main_repo w cfg poll oh ot) g)"
proof -
  have "safe (\<lambda>ps. \<forall>arn. Some arn \<in> set ps \<longrightarrow> arn \<noteq> [] \<longrightarrow> CHR ''/'' \<in> set arn) (io_call c (w_get_resources w))" for c
    by (rule safe_call) (blast dest: typed_worldD(2) [OF assms])
  then show ?thesis
    unfolding ARNByGroup_def main_repo_simps
  proof (rule safe_bind [OF safe_wrap])
    fix ps :: "string option list"
    assume "\<forall>arn. Some arn \<in> set ps \<longrightarrow> arn \<noteq> [] \<longrightarrow> CHR ''/'' \<in> set arn"
    then have "\<forall>arn. ps ! 0 = Some arn \<longrightarrow> arn \<noteq> [] \<longrightarrow> CHR ''/'' \<in> set arn" if "ps \<noteq> []"
      using that by (cases ps) auto
    then show "safe (\<lambda>arn. arn \<noteq> [] \<longrightarrow> CHR ''/'' \<in> set arn)
       (if length ps = 0 then io_fail ErrDistNotFound
        else if length ps > 1 then io_fail (Errorf ''found more than one CloudFront with matching group tag'' [g])
        else io_return (case ps ! 0 of None \<Rightarrow> [] | Some arn \<Rightarrow> arn))"
      by (intro safe_intros) (auto split: option.split)
  qed
qed

text \<open>The service of the program keeps this contract, provided the answers are well typed.\<close>

interpretation main_safe: safe_parts "main_service w libs me poll mo cfg" "typed_world w \<and> poll_spec poll"
  for w libs me poll mo cfg
proof -
  note [simp] = main_service_def NewDistRepository_def NewAliasRepository_def NewCertService_def NewIngressFetcherV1_def
  show "safe_parts (main_service w libs me poll mo cfg) (typed_world w \<and> poll_spec poll)"
    by unfold_locales
      (simp_all add: safe_dist_Create safe_dist_Sync safe_dist_Delete safe_any [OF safe_config] safe_main_arn
        safe_alias_Upsert safe_alias_Delete safe_DiscoverByHost safe_FetchBy)
qed

text \<open>
  C5. The controller never panics. Whatever the APIs answer, as long as the members the code
  dereferences without a check are present in the answers (\<open>typed_world\<close>), handling a request for any
  Ingress ends with success or with an error, in every state of the trace.
\<close>

theorem never_panics:
  assumes "typed_world w" and "poll_spec poll"
  shows "fst (V1_Reconcile (main_service w libs me poll mo cfg) (NewCDNClassFetcher w) ns n t) \<noteq> Panic"
proof -
  have "safe any (Reconcile (main_service w libs me poll mo cfg) ing class)" if "typed_ingress ing" for ing "class"
    using assms that by (intro main_safe.safe_Reconcile) simp_all
  moreover have "safe (\<lambda>r. \<forall>ing. r = Inr ing \<longrightarrow> typed_ingress ing) (io_try (io_call c (w_get_ingress w)))" for c
    by (rule safe_try, rule safe_call, rule typed_worldD(7) [OF assms(1)]) auto
  ultimately have "safe any (V1_Reconcile (main_service w libs me poll mo cfg) (NewCDNClassFetcher w) ns n)"
    unfolding V1_Reconcile_def NewCDNClassFetcher_def FetchByName_def class_fetcher.simps main_service_simps
    by (intro safe_bind [where R = "\<lambda>r. \<forall>ing. r = Inr ing \<longrightarrow> typed_ingress ing"])
      (auto intro!: safe_intros)
  then show ?thesis by (rule safe_no_panic)
qed

lemma typed_served_world: "typed_world served_world"
  by (simp add: typed_world_def served_world_def retired_world_def some_world_def some_dist_config_def
      typed_ingress_def retired_ingress_def spec_paths_def)

theorem never_panics_witness:
  "fst (V1_Reconcile (plain_service served_world True) (NewCDNClassFetcher served_world) ''prod'' ''web'' []) \<noteq> Panic"
  unfolding plain_service_def by (rule never_panics [OF typed_served_world sample_poll_spec])

text \<open>
  The condition on DNS records is needed: an owned name with a plain address record, which an upsert
  would turn into an alias, makes the deletion of that name panic.
\<close>

definition plain_zone :: world where
  "plain_zone = some_world\<lparr>w_list_record_sets := \<lambda>_. Inr
     [zero_rrset\<lparr>rr_Name := ''a.x.'', rr_Type := RRTypeA, rr_Records := [''10.0.0.1'']\<rparr>,
      zero_rrset\<lparr>rr_Name := ''a.x.'', rr_Type := RRTypeTxt,
        rr_Records := [as_OwnershipTXTValue (NewAliases [] [] ''own'' [] False)]\<rparr>]\<rparr>"

lemma plain_record_panics:
  "fst (alias_Delete plain_zone (NewAliases ''d1.cloudfront.net'' ''Z1'' ''own'' [''a.x''] False) []) = Panic"
  "fst (alias_Upsert plain_zone (NewAliases ''d1.cloudfront.net'' ''Z1'' ''own'' [''a.x''] False) []) = Ok ()"
  by code_simp+

end
