(* ===== verification/Progress.thy ===== *)
theory Progress
  imports Service_Status
begin

text \<open>
  Progress: while the APIs answer, what a reconciliation has planned is carried out to the end. The
  theory has a calculus of computations that end, with a value or with an error of a known kind, and
  its application to the repositories and the second half of \<open>Reconcile\<close>.
\<close>

section \<open>Computations that end as expected\<close>

text \<open>From every trace \<open>m\<close> returns a value with \<open>Q\<close> or fails with an error with \<open>E\<close>; it never panics.\<close>

definition yields :: "('a \<Rightarrow> bool) \<Rightarrow> (go_error \<Rightarrow> bool) \<Rightarrow> ('c, 'a) io \<Rightarrow> bool" where
  "yields Q E m \<longleftrightarrow> (\<forall>t. case fst (m t) of Ok x \<Rightarrow> Q x | Err e \<Rightarrow> E e | Panic \<Rightarrow> False)"

named_theorems yields_intros \<open>one rule per construct\<close>

abbreviation never :: "go_error \<Rightarrow> bool" where
  "never \<equiv> \<lambda>_. False"

abbreviation whatever :: "'a \<Rightarrow> bool" where
  "whatever \<equiv> \<lambda>_. True"

abbreviation answers :: "(api_call list \<Rightarrow> go_error + 'a) \<Rightarrow> bool" where
  "answers resp \<equiv> \<forall>t. \<exists>x. resp t = Inr x"

lemma yieldsE:
  assumes "yields Q E m"
  obtains (returned) x t' where "m t = (Ok x, t')" "Q x" | (failed) e t' where "m t = (Err e, t')" "E e"
proof -
  obtain r t' where m: "m t = (r, t')" by (cases "m t")
  with assms have "case r of Ok x \<Rightarrow> Q x | Err e \<Rightarrow> E e | Panic \<Rightarrow> False" unfolding yields_def by (metis fst_conv)
  with m that show thesis by (cases r) simp_all
qed

lemma yieldsI: "(\<And>t. case fst (m t) of Ok x \<Rightarrow> Q x | Err e \<Rightarrow> E e | Panic \<Rightarrow> False) \<Longrightarrow> yields Q E m"
  by (simp add: yields_def)

lemma yields_mono:
  assumes "yields R F m" and "\<And>x. R x \<Longrightarrow> Q x" and "\<And>e. F e \<Longrightarrow> E e"
  shows "yields Q E m"
proof (rule yieldsI)
  fix t
  from assms(1) show "case fst (m t) of Ok x \<Rightarrow> Q x | Err e \<Rightarrow> E e | Panic \<Rightarrow> False"
    by (rule yieldsE [where t = t]) (simp_all add: assms(2,3))
qed

lemma yields_return [yields_intros]: "Q x \<Longrightarrow> yields Q E (io_return x)"
  by (simp add: yields_def io_return_def)

lemma yields_fail [yields_intros]: "E e \<Longrightarrow> yields Q E (io_fail e)"
  by (simp add: yields_def io_fail_def)

lemma yields_lift: "r = Ok x \<Longrightarrow> Q x \<Longrightarrow> yields Q E (io_lift r)"
  by (simp add: yields_def io_lift_def)

lemma yields_lift_Ok [yields_intros]: "Q x \<Longrightarrow> yields Q E (io_lift (Ok x))"
  by (rule yields_lift) simp_all

lemma yields_ask [yields_intros]: "yields whatever E (io_ask f)"
  by (simp add: yields_def io_ask_def)

lemma yields_notify [yields_intros]: "yields whatever E (io_notify c)"
  by (simp add: yields_def io_notify_def io_call_def)

lemma yields_call:
  assumes "\<And>t. \<exists>x. resp t = Inr x \<and> Q x"
  shows "yields Q E (io_call c resp)"
proof (rule yieldsI)
  fix t
  from assms obtain x where "resp (t @ [c]) = Inr x \<and> Q x" by blast
  then show "case fst (io_call c resp t) of Ok x \<Rightarrow> Q x | Err e \<Rightarrow> E e | Panic \<Rightarrow> False" by (simp add: io_call_def)
qed

lemma yields_answered [yields_intros]: "answers resp \<Longrightarrow> yields whatever E (io_call c resp)"
  by (rule yields_call) simp

lemma yields_wrap [yields_intros]:
  assumes "yields Q never m"
  shows "yields Q E (io_wrap w m)"
proof (rule yieldsI)
  fix t
  from assms show "case fst (io_wrap w m t) of Ok x \<Rightarrow> Q x | Err e \<Rightarrow> E e | Panic \<Rightarrow> False"
    by (rule yieldsE [where t = t]) (simp_all add: io_wrap_def)
qed

lemma yields_bind:
  assumes "yields R E m" and "\<And>x. R x \<Longrightarrow> yields Q E (f x)"
  shows "yields Q E (io_bind m f)"
  unfolding yields_def
proof
  fix t
  obtain r t' where m: "m t = (r, t')" by (cases "m t")
  with assms(1) have "case r of Ok x \<Rightarrow> R x | Err e \<Rightarrow> E e | Panic \<Rightarrow> False" unfolding yields_def by (metis fst_conv)
  with m assms(2) show "case fst (io_bind m f t) of Ok x \<Rightarrow> Q x | Err e \<Rightarrow> E e | Panic \<Rightarrow> False"
    by (cases r) (simp_all add: io_bind_def yields_def)
qed

lemma yields_seq [yields_intros]: "yields whatever E m \<Longrightarrow> (\<And>x. yields Q E (f x)) \<Longrightarrow> yields Q E (io_bind m f)"
  by (rule yields_bind)

lemma yields_try:
  assumes "yields R F m"
  shows "yields (\<lambda>r. case r of Inl e \<Rightarrow> F e | Inr x \<Rightarrow> R x) E (io_try m)"
proof (rule yieldsI)
  fix t
  from assms show "case fst (io_try m t) of Ok x \<Rightarrow> case x of Inl e \<Rightarrow> F e | Inr x \<Rightarrow> R x
    | Err e \<Rightarrow> E e | Panic \<Rightarrow> False"
    by (rule yieldsE [where t = t]) (simp_all add: io_try_def)
qed

text \<open>A computation that does not fail needs no handler.\<close>

lemma yields_try_bind:
  assumes "yields R never m" and "\<And>x. R x \<Longrightarrow> yields Q E (f (Inr x))"
  shows "yields Q E (io_bind (io_try m) f)"
  by (rule yields_bind [OF yields_try [OF assms(1)]]) (auto split: sum.splits intro: assms(2))

lemma yields_mapM [yields_intros]: "(\<And>x. yields whatever E (f x)) \<Longrightarrow> yields whatever E (io_mapM f xs)"
  by (induction xs) (auto intro!: yields_intros)

lemma yields_foldM: "(\<And>s x. x \<in> set xs \<Longrightarrow> yields whatever E (f s x)) \<Longrightarrow> yields whatever E (io_foldM f s xs)"
  by (induction xs arbitrary: s) (auto intro!: yields_intros)

lemma yields_case_prod [yields_intros]: "(\<And>x y. p = (x, y) \<Longrightarrow> yields Q E (f x y)) \<Longrightarrow> yields Q E (case p of (x, y) \<Rightarrow> f x y)"
  by (cases p) simp

lemma yields_if [yields_intros]: "(b \<Longrightarrow> yields Q E m) \<Longrightarrow> (\<not> b \<Longrightarrow> yields Q E n) \<Longrightarrow> yields Q E (if b then m else n)"
  by simp

lemma yields_let [yields_intros]: "(\<And>y. yields Q E (f y)) \<Longrightarrow> yields Q E (let y = x in f y)"
  by simp

section \<open>APIs that answer\<close>

text \<open>
  Every request that changes something succeeds, what has been created can be read, and a distribution
  that is waited for is deployed.
\<close>

definition cloud_up :: "world \<Rightarrow> bool" where
  "cloud_up w \<longleftrightarrow>
     answers (w_create_distribution w) \<and> answers (w_update_distribution w) \<and> answers (w_delete_distribution w) \<and>
     answers (w_tag_resource w) \<and> answers (w_get_oac w) \<and> answers (w_create_oac w) \<and> answers (w_update_oac w) \<and>
     answers (w_delete_oac w) \<and> answers (w_change_record_sets w) \<and> answers (w_update_ingress w) \<and>
     answers (w_create_status w) \<and> answers (w_update_status w) \<and> answers (w_delete_status w) \<and>
     (\<forall>t. snd (w_list_oacs w t) = None) \<and>
     (\<forall>t. \<exists>cfg tag root. w_get_distribution_config w t = Inr (cfg, Some tag) \<and> dc_DefaultRootObject cfg = Some root) \<and>
     (\<forall>t. \<exists>dist tag. w_get_distribution w t = Inr (dist, tag) \<and> ad_Status dist = cfDeployedStatus)"

text \<open>
  The records of the hosted zone are no obstacle: for every name they can be read and belong to the
  class or do not exist, and the names recorded in a status still have their ownership record, with
  alias records only.
\<close>

definition recorded :: "world \<Rightarrow> string set" where
  "recorded w = {normalizeDomain r | r t st. w_get_status w t = Inr st \<and> r \<in> status_records st}"

definition zone_ready :: "world \<Rightarrow> cdn_class \<Rightarrow> bool" where
  "zone_ready w class \<longleftrightarrow> (\<forall>e. yields
     (\<lambda>rs. en_Name e \<in> recorded w \<longrightarrow> fr_txt rs \<noteq> None \<and> (\<forall>a \<in> set (fr_address rs). rr_AliasTarget a \<noteq> None)) never
     (existingRecordSets w (as_OwnershipTXTValue (NewAliases [] [] (TXTOwnerValue class) [] False)) (HostedZoneID class) e))"

section \<open>The repositories\<close>

lemma yields_for_pages: "(\<And>p l s. yields whatever E (fn p l s)) \<Longrightarrow> yields whatever E (for_pages fn ps s)"
  by (induction fn ps s rule: for_pages.induct) (auto intro!: yields_intros)

lemma yields_getOAC:
  assumes "cloud_up w"
  shows "yields whatever (\<lambda>e. e = ErrNoSuchOAC) (getOAC w desired)"
  unfolding getOAC_def ListOriginAccessControlsPages_def list_pages_def
proof (rule yields_bind [where R = "\<lambda>p. snd p = None"])
  show "yields (\<lambda>p. snd p = None) (\<lambda>e. e = ErrNoSuchOAC)
     (io_bind (io_pages ListOriginAccessControls (w_list_oacs w)) (\<lambda>(pages, err).
      io_bind (for_pages (visit_oac_page desired) pages None) (\<lambda>(s', stopped). io_return (s', if stopped then None else err))))"
    unfolding io_pages_def
  proof (rule yields_bind [where R = "\<lambda>p. snd p = None", OF yields_call])
    show "\<exists>x. Inr (w_list_oacs w t) = Inr x \<and> snd x = None" for t
      using assms by (simp add: cloud_up_def)
  next
    fix p :: "(aws_oac_summary list \<times> bool) list \<times> go_error option"
    assume "snd p = None"
    then show "yields (\<lambda>p. snd p = None) (\<lambda>e. e = ErrNoSuchOAC) (case p of (pages, err) \<Rightarrow>
        io_bind (for_pages (visit_oac_page desired) pages None) (\<lambda>(s', stopped). io_return (s', if stopped then None else err)))"
      by (cases p) (auto simp: visit_oac_page_def intro!: yields_intros yields_for_pages split: prod.split)
  qed
next
  have "answers (w_get_oac w)" using assms by (simp add: cloud_up_def)
  then show "yields whatever (\<lambda>e. e = ErrNoSuchOAC) (case p of (found, err) \<Rightarrow> (case err of
       Some e \<Rightarrow> io_fail (ErrorfV ''listing OACs'' e)
     | None \<Rightarrow> (case found of
         None \<Rightarrow> io_fail ErrNoSuchOAC
       | Some item \<Rightarrow>
           let observed = newOACFromOriginAccessControlSummary item (oac_OriginName desired) in
           io_bind (getETag w (oac_ID observed)) (\<lambda>eTag. io_return (observed, eTag)))))" if "snd p = None" for p
    using that by (cases p) (auto simp: getETag_def Let_def intro!: yields_intros split: option.split)
qed

lemma yields_oac_Sync:
  assumes "cloud_up w"
  shows "yields whatever never (oac_Sync w desired)"
  unfolding oac_Sync_def
proof (rule yields_bind [OF yields_try [OF yields_getOAC [OF assms]]])
  fix r :: "go_error + oac \<times> string option"
  assume r: "case r of Inl e \<Rightarrow> e = ErrNoSuchOAC | Inr x \<Rightarrow> True"
  have "answers (w_update_oac w)" "answers (w_create_oac w)" using assms by (simp_all add: cloud_up_def)
  then show "yields whatever never (case r of
       Inr (observed, eTag) \<Rightarrow> updateOAC w desired observed eTag
     | Inl err \<Rightarrow>
         if errors_Is err ErrNoSuchOAC then createOAC w desired
         else io_fail (ErrorfV ''fetching existing OAC'' err))"
    using r by (auto simp: errors_Is_def updateOAC_def createOAC_def intro!: yields_intros split: sum.split)
qed

lemma yields_oac_Delete:
  assumes "cloud_up w"
  shows "yields whatever never (oac_Delete w cfg toBeDeleted)"
  unfolding oac_Delete_def
proof (intro yields_if yields_return yields_bind [OF yields_try [OF yields_getOAC [OF assms]]])
  fix r :: "go_error + oac \<times> string option"
  assume r: "case r of Inl e \<Rightarrow> e = ErrNoSuchOAC | Inr x \<Rightarrow> True"
  have "answers (w_delete_oac w)" using assms by (simp add: cloud_up_def)
  then show "yields whatever never (case r of
        Inl err \<Rightarrow> (case ignoreNoSuchOAC err of None \<Rightarrow> io_return zero_oac | Some e \<Rightarrow> io_fail e)
      | Inr (existingOAC, eTag) \<Rightarrow>
          io_bind (io_try (io_call (DeleteOriginAccessControl (oac_ID existingOAC) eTag) (w_delete_oac w)))
            (\<lambda>r. case r of
               Inl err \<Rightarrow> if IgnoreErrorCode (Some err) NoSuchOriginAccessControl \<noteq> None
                          then io_fail err else io_return existingOAC
             | Inr _ \<Rightarrow> io_return existingOAC))"
    using r by (auto simp: errors_Is_def ignoreNoSuchOAC_def intro!: yields_intros yields_try_bind [OF yields_answered]
        split: sum.split)
qed simp

lemma yields_dist_Sync:
  assumes "cloud_up w"
  shows "yields whatever never (dist_Sync (main_repo w cfg poll oh ot) d)"
proof -
  let ?r = "main_repo w cfg poll oh ot"
  have up: "answers (w_update_distribution w)" "answers (w_tag_resource w)" using assms by (simp_all add: cloud_up_def)
  have oacs: "yields whatever never (oacr_Sync (dr_oacs ?r) a)" "yields whatever never (oacr_Delete (dr_oacs ?r) a)" for a
    using yields_oac_Sync [OF assms] yields_oac_Delete [OF assms] by (simp_all add: main_repo_def NewOACRepository_def)
  have world: "dr_world ?r = w" by (simp add: main_repo_def)
  have delete: "yields whatever never (deleteOACs ?r xs)" for xs
    unfolding deleteOACs_def by (intro yields_foldM yields_seq oacs yields_return TrueI)
  have read: "yields (\<lambda>p. \<exists>root. dc_DefaultRootObject (fst p) = Some root) never (DistributionConfigByID ?r (dist_ID d))"
    unfolding DistributionConfigByID_def world
  proof (rule yields_call)
    show "\<exists>x. w_get_distribution_config w t = Inr x \<and> (\<exists>root. dc_DefaultRootObject (fst x) = Some root)" for t
      using assms unfolding cloud_up_def by (metis fst_conv)
  qed
  have "yields whatever never (runPostUpdateOperations ?r d xs out)" for xs out
    unfolding runPostUpdateOperations_def world by (intro yields_intros up delete TrueI)
  then have rest: "yields whatever never (let (oacsToBeSynced, oacsToBeDeleted) = diffDesiredAndObservedOACs d observed in
     io_bind (io_wrap (ErrorfV ''syncing OACs'') (syncOACs ?r oacsToBeSynced)) (\<lambda>syncedOACs.
     io_bind (io_lift (deref (dc_DefaultRootObject observed))) (\<lambda>root.
     io_bind (io_wrap (ErrorfV ''updating distribution'')
       (io_call (UpdateDistribution (dist_ID d) eTag (update_config observed syncedOACs root cfg'))
         (w_update_distribution (dr_world ?r)))) (\<lambda>updateOut.
     io_wrap (ErrorfV ''running distribution post-update operations'')
       (runPostUpdateOperations ?r d oacsToBeDeleted updateOut)))))"
    if "dc_DefaultRootObject observed = Some root" for observed root eTag cfg'
    using that unfolding syncOACs_def world Let_def split_beta
    by (intro yields_seq yields_wrap yields_mapM oacs yields_lift [where x = root] yields_answered up) (simp_all add: deref_def)
  show ?thesis
    unfolding dist_Sync_def Let_def
    by (rule yields_seq [OF yields_ask], rule yields_bind [OF yields_wrap [OF read]])
      (use rest in \<open>auto simp: Let_def\<close>)
qed

lemma yields_dist_Create:
  assumes "cloud_up w"
  shows "yields whatever never (dist_Create (main_repo w cfg poll oh ot) (dist_Sync (main_repo w cfg poll oh ot)) d)"
proof -
  have "answers (w_create_distribution w)" using assms by (simp add: cloud_up_def)
  moreover have "dr_world (main_repo w cfg poll oh ot) = w" by (simp add: main_repo_def)
  ultimately show ?thesis
    unfolding dist_Create_def prepareAndRunPostCreationOperations_def Let_def
    by (intro yields_intros yields_dist_Sync assms) simp
qed

lemma yields_poll:
  assumes "poll_spec poll" and "0 < interval" and "yields fst never (cond s)"
  shows "yields whatever never (poll ctx interval timeout True cond s)"
proof (rule yieldsI)
  fix t
  obtain n where n: "0 < n" "poll ctx interval timeout True cond s t = poll_iter n cond s t"
    using poll_specD [OF assms(1,2)] by blast
  then obtain k where "n = Suc k" by (cases n) auto
  have "yields whatever never (poll_iter (Suc k) cond s)"
    unfolding poll_iter.simps by (rule yields_bind [OF assms(3)]) (auto intro!: yields_intros)
  then show "case fst (poll ctx interval timeout True cond s t) of Ok x \<Rightarrow> True | Err e \<Rightarrow> False | Panic \<Rightarrow> False"
    unfolding n(2) \<open>n = Suc k\<close> by (rule yieldsE [where t = t]) simp_all
qed

lemma yields_wait:
  assumes "cloud_up w" and "poll_spec poll"
  shows "yields whatever never (waitUntilDeployed (main_repo w cfg poll oh ot) i)"
proof -
  let ?r = "main_repo w cfg poll oh ot"
  have world: "dr_world ?r = w" by (simp add: main_repo_def)
  have get: "\<exists>x. w_get_distribution w t = Inr x \<and> ad_Status (fst x) = cfDeployedStatus" for t
    using assms(1) unfolding cloud_up_def by (metis fst_conv)
  have "yields fst never (deployed_condition ?r i s)" for s
    unfolding deployed_condition_def distributionByID_def world
    by (rule yields_try_bind [OF yields_call [where Q = "\<lambda>x. ad_Status (fst x) = cfDeployedStatus", OF get]])
      (auto intro!: yields_intros)
  from yields_poll [OF assms(2) _ this, of 10] show ?thesis
    unfolding waitUntilDeployed_def by (simp add: main_repo_def)
qed

lemma yields_dist_Delete:
  assumes "cloud_up w" and "poll_spec poll"
  shows "yields whatever never (dist_Delete (main_repo w cfg poll oh ot) d)"
proof -
  let ?r = "main_repo w cfg poll oh ot"
  have up: "answers (w_update_distribution (dr_world ?r))" "answers (w_delete_distribution (dr_world ?r))"
    using assms(1) by (simp_all add: cloud_up_def main_repo_def)
  have read: "yields (\<lambda>p. snd p \<noteq> None) never (DistributionConfigByID ?r (dist_ID d))"
    unfolding DistributionConfigByID_def
  proof (rule yields_call)
    show "\<exists>x. w_get_distribution_config (dr_world ?r) t = Inr x \<and> snd x \<noteq> None" for t
      using assms(1) unfolding cloud_up_def main_repo_def by (metis dist_repo.select_convs(1) option.distinct(1) snd_conv)
  qed
  have "yields whatever never (oacr_Delete (dr_oacs ?r) a)" for a
    using yields_oac_Delete [OF assms(1)] by (simp add: main_repo_def NewOACRepository_def)
  then have oacs: "yields whatever never (deleteAllOACs ?r cfg)" for cfg
    unfolding deleteAllOACs_def deleteOACs_def by (intro yields_foldM yields_seq yields_return TrueI)
  have disable: "yields (\<lambda>r. r = Inr ()) never (if dc_Enabled cfg
           then io_bind (io_lift (deref eTag)) (\<lambda>tag. io_try (disableDist ?r cfg (dist_ID d) tag))
           else io_return (Inr ()))" if "eTag \<noteq> None" for cfg eTag
  proof -
    have "yields whatever never (disableDist ?r cfg (dist_ID d) tag)" for tag
      unfolding disableDist_def by (intro yields_intros up TrueI)
    from yields_mono [OF yields_try [OF this]] have "yields (\<lambda>r. r = Inr ()) never (io_try (disableDist ?r cfg (dist_ID d) tag))" for tag
      by (auto split: sum.splits)
    moreover from that obtain tag where "deref eTag = Ok tag" by auto
    ultimately show ?thesis
      by (auto intro!: yields_intros)
  qed
  have rest: "yields whatever never (io_bind (io_try (waitUntilDeployed ?r (dist_ID d))) (\<lambda>waited. case waited of
               Inl err \<Rightarrow> fail_or_return
                 (IgnoreErrorCodef (ErrorfW ''waiting for distribution to be in deployed status'') err
                    NoSuchDistribution)
             | Inr tag \<Rightarrow>
                 io_bind (io_try (io_call (DeleteDistribution (dist_ID d) tag)
                   (w_delete_distribution (dr_world ?r)))) (\<lambda>deleted.
                   case (case deleted of Inl err \<Rightarrow> IgnoreErrorCode (Some err) NoSuchDistribution | Inr _ \<Rightarrow> None) of
                     Some err \<Rightarrow> io_fail err
                   | None \<Rightarrow> io_wrap (ErrorfV ''deleting OACs'') (deleteAllOACs ?r cfg))))" for cfg
    by (rule yields_try_bind [OF yields_wait [OF assms]], simp only: sum.case,
        rule yields_try_bind [OF yields_answered [OF up(2)]]) (simp add: yields_wrap [OF oacs])
  show ?thesis
    unfolding dist_Delete_def
    by (rule yields_try_bind [OF read], simp only: sum.case case_prod_beta, rule yields_bind [OF disable], assumption,
        hypsubst, simp only: sum.case, rule rest)
qed

section \<open>The aliases\<close>

lemma ownership_value: "as_OwnershipTXTValue (NewAliases a z own ds v6) = as_OwnershipTXTValue (NewAliases [] [] own [] False)"
  by (simp add: NewAliases_def Let_def)

lemma zone_of: "as_HostedZoneID (NewAliases a z own ds v6) = z"
  by (simp add: NewAliases_def Let_def)

lemma names_of: "en_Name ` set (as_Entries (NewAliases a z own ds v6)) = normalizeDomain ` set ds"
  by (auto simp: NewAliases_def Let_def image_image)

lemma yields_changes: "cloud_up w \<Longrightarrow> yields whatever E (requestChanges w changes z c)"
  unfolding requestChanges_def by (intro yields_answered) (simp add: cloud_up_def)

lemma yields_Upsert:
  assumes "cloud_up w" and "zone_ready w class"
  shows "yields whatever never (alias_Upsert w (NewAliases a (HostedZoneID class) (TXTOwnerValue class) ds v6))"
proof -
  have "yields whatever never (existingRecordSets w (as_OwnershipTXTValue (NewAliases [] [] (TXTOwnerValue class) [] False))
      (HostedZoneID class) e)" for e
    by (rule yields_mono [OF assms(2) [unfolded zone_ready_def, rule_format, of e]]) simp_all
  then show ?thesis
    unfolding alias_Upsert_def ownership_value [of _ _ _ ds] zone_of
    by (intro yields_intros yields_foldM yields_changes assms(1) TrueI)
qed

lemma yields_Delete:
  assumes "cloud_up w" and "zone_ready w class" and "normalizeDomain ` set ds \<subseteq> recorded w"
  shows "yields whatever never (alias_Delete w (NewAliases a (HostedZoneID class) (TXTOwnerValue class) ds v6))"
  unfolding alias_Delete_def ownership_value [of _ _ _ ds] zone_of
proof (intro yields_if yields_seq yields_foldM)
  fix s :: "string \<times> rr_change list" and e
  assume e: "e \<in> set (as_Entries (NewAliases a (HostedZoneID class) (TXTOwnerValue class) ds v6))"
  then have "en_Name e \<in> en_Name ` set (as_Entries (NewAliases a (HostedZoneID class) (TXTOwnerValue class) ds v6))"
    by (rule imageI)
  with assms(3) have "en_Name e \<in> recorded w" unfolding names_of by (rule subsetD)
  note mem = this
  have read: "yields (\<lambda>rs. fr_txt rs \<noteq> None \<and> (\<forall>a \<in> set (fr_address rs). rr_AliasTarget a \<noteq> None)) never
     (existingRecordSets w (as_OwnershipTXTValue (NewAliases [] [] (TXTOwnerValue class) [] False)) (HostedZoneID class) e)"
    by (rule yields_mono [OF assms(2) [unfolded zone_ready_def, rule_format, of e]]) (use mem in simp_all)
  have target: "\<exists>x. delete_target tgt rs = Ok x" if "\<forall>a \<in> set (fr_address rs). rr_AliasTarget a \<noteq> None" for tgt rs
    using that by (auto simp: delete_target_def split: list.split)
  show "yields whatever never ((\<lambda>(target, changes) e.
          io_bind (existingRecordSets w (as_OwnershipTXTValue (NewAliases [] [] (TXTOwnerValue class) [] False)) (HostedZoneID class) e) (\<lambda>recordSets.
          case fr_txt recordSets of
            None \<Rightarrow> io_fail (Errorf ''ownership TXT record not found, can't delete address records'' [en_Name e])
          | Some txt \<Rightarrow>
              io_bind (io_lift (delete_target target recordSets)) (\<lambda>target.
              io_return (target, changes @ newAliasChanges target ChangeActionDelete e @
                [newTXTChangeForDelete (as_OwnershipTXTValue (NewAliases [] [] (TXTOwnerValue class) [] False)) (en_Name e) (rr_Records txt)])))) s e)"
    unfolding case_prod_beta
    by (rule yields_bind [OF read]) (use target in \<open>fastforce intro!: yields_return yields_bind [OF yields_lift [where Q = whatever]]\<close>)
qed (auto intro!: yields_intros yields_changes assms(1))

section \<open>The second half of a reconciliation\<close>

lemma records_kept:
  "status_records (SetIngressRef b ns n st) = status_records st"
  "status_records (SetAliases xs (SetInfo i a d st)) = status_records st"
  by (simp_all add: SetIngressRef_def SetAliases_def SetInfo_def status_records_def Let_def split: option.split)

lemma yields_syncDist:
  assumes "cloud_up w" and "poll_spec poll"
  shows "yields (\<lambda>(dist, e, st'). e = None \<and> status_records st' = status_records st) never
    (syncDist (main_service w libs me poll mo cfg) d st ing)"
proof -
  let ?s = "main_service w libs me poll mo cfg"
  have dists: "sv_dists ?s = NewDistRepository (main_repo w cfg poll (mo_headers mo) (mo_tags mo))"
    by (simp add: main_service_def)
  have "yields whatever never (if Dist_Exists d then updateDistribution ?s d else createDistribution ?s d)"
    unfolding updateDistribution_def createDistribution_def dists NewDistRepository_def distribution_repository.simps
    by (intro yields_intros yields_dist_Sync yields_dist_Create assms(1))
  then have upsert: "yields (\<lambda>(dist, e, st'). e = None \<and> status_records st' = status_records st) never
      (upsertDistribution ?s d st ing)"
    unfolding upsertDistribution_def by (rule yields_try_bind) (simp add: yields_return records_kept)
  have "yields whatever never (deleteDistribution ?s d)"
    unfolding deleteDistribution_def dists NewDistRepository_def distribution_repository.simps
    by (intro yields_intros yields_dist_Delete assms TrueI)
  then have "yields (\<lambda>(dist, e, st'). e = None \<and> status_records st' = status_records st) never
      (io_bind (io_try (deleteDistribution ?s d)) (\<lambda>r. io_return (d, err_of r, st)))"
    by (rule yields_try_bind) (simp add: yields_return err_of_def)
  with upsert show ?thesis unfolding syncDist_def by simp
qed

lemma yields_syncAliases:
  assumes "cloud_up w" and "zone_ready w class" and "multierr_spec me"
    and "normalizeDomain ` status_records st \<subseteq> recorded w"
  shows "yields (\<lambda>(st', e). e = None) never (syncAliases (main_service w libs me poll mo cfg) st dist class)"
proof -
  let ?s = "main_service w libs me poll mo cfg"
  have al: "newAliases ?s dist st class =
     (NewAliases (dist_Address dist) (HostedZoneID class) (TXTOwnerValue class) (dist_AlternateDomains dist) (dist_IPv6Enabled dist),
      NewAliases (dist_Address dist) (HostedZoneID class) (TXTOwnerValue class) (deletions ?s dist st) (dist_IPv6Enabled dist))"
    by (simp add: newAliases_def deletions_def Let_def split: option.split)
  have repo: "sv_aliases ?s = NewAliasRepository w" by (simp add: main_service_def)
  have sub: "normalizeDomain ` set (deletions ?s dist st) \<subseteq> recorded w"
    using assms(4) unfolding set_deletions obsolete_records_def by (auto split: if_splits)
  show ?thesis
    unfolding syncAliases_def al Let_def prod.case repo NewAliasRepository_def alias_repository.simps main_service_simps
    by (rule yields_try_bind [OF yields_Upsert [OF assms(1,2)]], rule yields_try_bind [OF yields_Delete [OF assms(1,2) sub]])
      (simp add: yields_return err_of_def multierr_simps [OF assms(3)])
qed

lemma yields_aws:
  assumes "cloud_up w" and "zone_ready w class" and "multierr_spec me" and "poll_spec poll"
    and "normalizeDomain ` status_records st \<subseteq> recorded w"
  shows "yields (\<lambda>(st', errs). errs = []) never (reconcile_aws (main_service w libs me poll mo cfg) ing class d st)"
  unfolding reconcile_aws_def
proof (rule yields_bind [OF yields_syncDist [OF assms(1,4)]], clarify)
  fix dist st'
  assume st': "status_records st' = status_records st"
  have "yields (\<lambda>(st', errs). errs = []) never
      (io_bind (syncAliases (main_service w libs me poll mo cfg) st' dist class) (\<lambda>(cdnStatus, err).
        io_return (cdnStatus, me_Append me (Some []) [err])))"
    by (rule yields_bind [OF yields_syncAliases [OF assms(1,2,3)]])
      (use assms(5) st' in \<open>auto simp: multierr_simps [OF assms(3)] intro!: yields_return\<close>)
  then show "yields (\<lambda>(st', errs). errs = []) never
      (let errs = me_Append (sv_multierr (main_service w libs me poll mo cfg)) (Some []) [None] in
       if CreateAlias class
       then io_bind (syncAliases (main_service w libs me poll mo cfg) st' dist class) (\<lambda>(cdnStatus, err).
         io_return (cdnStatus, me_Append (sv_multierr (main_service w libs me poll mo cfg)) (Some errs) [err]))
       else io_return (st', errs))"
    by (simp add: multierr_simps [OF assms(3)] yields_return)
qed

lemma yields_k8s:
  assumes "cloud_up w" and "multierr_spec me"
  shows "yields whatever never (reconcile_k8s (main_service w libs me poll mo cfg) ing d st [])"
proof -
  let ?s = "main_service w libs me poll mo cfg"
  have up: "answers (w_update_ingress w)" "answers (w_create_status w)" "answers (w_update_status w)" "answers (w_delete_status w)"
    using assms(1) by (simp_all add: cloud_up_def)
  have fin: "yields (\<lambda>(e, _). e = None) never (reconcileFinalizer ?s ing b)" for b
    unfolding reconcileFinalizer_def Let_def main_service_simps
    by (rule yields_try_bind [OF yields_answered [OF up(1)]]) (simp add: yields_return)
  have put: "yields (\<lambda>(_, e). e = None) never (io_bind (io_try (io_call (K8sUpdateStatus st) (w_update_status w))) (\<lambda>updated.
         case updated of Inl err \<Rightarrow> io_return (st, Some err) | Inr status \<Rightarrow> io_return (status, None)))" for st
    by (rule yields_try_bind [OF yields_answered [OF up(3)]]) (simp add: yields_return)
  have create: "yields (\<lambda>r. \<exists>x. r = Inr x) never (if \<not> Status_Exists st
       then io_try (io_call (K8sCreateStatus st) (w_create_status w)) else io_return (Inr st))" for st
  proof -
    have "yields whatever never (io_call (K8sCreateStatus st) (w_create_status w))" by (rule yields_answered [OF up(2)])
    from yields_try [OF this] have "yields (\<lambda>r. \<exists>x. r = Inr x) never (io_try (io_call (K8sCreateStatus st) (w_create_status w)))"
      by (rule yields_mono) (simp_all split: sum.splits)
    then show ?thesis by (simp add: yields_return)
  qed
  have upsert: "yields (\<lambda>(_, e). e = None) never (upsertCDNStatus ?s st)" for st
    unfolding upsertCDNStatus_def main_service_simps
    by (rule yields_bind [OF create]) (elim exE, simp only: sum.case, rule put)
  have delete: "yields (\<lambda>e. e = None) never (deleteCDNStatus ?s st)" for st
    unfolding deleteCDNStatus_def main_service_simps
    by (rule yields_try_bind [OF yields_answered [OF up(4)]]) (simp add: yields_return)
  have "yields (\<lambda>(_, e). e = None) never (io_bind (deleteCDNStatus ?s st) (\<lambda>err. io_return (st, err)))" for st
    by (rule yields_bind [OF delete]) (simp add: yields_return)
  with upsert have status: "yields (\<lambda>(_, e). e = None) never (if b
        then io_bind (deleteCDNStatus ?s st) (\<lambda>err. io_return (st, err)) else upsertCDNStatus ?s st)" for b st
    by simp
  have result: "yields whatever never (handleResult ing' st' [])" for ing' st'
    unfolding handleResult_def handleSuccess_def by (simp add: yields_intros)
  show ?thesis
    unfolding reconcile_k8s_def Let_def
    by (rule yields_bind [OF fin], clarify, simp only: option.case, rule yields_bind [OF status])
      (auto simp: multierr_simps [OF assms(2)] result)
qed

lemma planned_records:
  assumes "reconcile_plan (main_service w libs me poll mo cfg) ing ci t = (Ok (d, st), t')"
  shows "normalizeDomain ` status_records st \<subseteq> recorded w"
proof -
  have new: "status_records (foldl (\<lambda>status ing. SetIngressRef False (ci_namespace ing) (ci_name ing) status) st0 ings) =
      status_records st0" for st0 ings
    by (induction ings arbitrary: st0) (simp_all add: records_kept)
  have "status_records (newCDNStatus ings d') = {}" for ings d'
    unfolding newCDNStatus_def new by (simp add: zero_cdn_status_def status_records_def)
  moreover from assms obtain ings t1 where "fetchOrGenerateCDNStatus (main_service w libs me poll mo cfg) ings d t1 = (Ok st, t')"
    by (auto simp: reconcile_plan_def io_bind_Ok_iff io_return_apply)
  ultimately show ?thesis
    unfolding fetchOrGenerateCDNStatus_def recorded_def
    by (fastforce simp: io_bind_try_call io_fail_apply io_return_apply Let_def split: sum.splits if_splits)
qed


text \<open>A first Ingress in a cluster whose APIs all answer.\<close>

lemma fresh_zone: "zone_ready fresh_world class"
proof -
  have "existingRecordSets fresh_world own z e t = (Ok \<lparr>fr_address = [], fr_txt = None\<rparr>,
      t @ [ListResourceRecordSets z (en_Name e) None ''13'', ListResourceRecordSets z (en_Name e) (Some RRTypeTxt) ''1''])" for own z e t
    by (simp add: existingRecordSets_def resourceRecordSetsByEntry_def io_bind_def io_call_def io_return_def fresh_world_def
        some_world_def filterRecordSets_def validateRecordSets_def validateRoutingPolicies_def)
  moreover have "recorded fresh_world = {}" by (simp add: recorded_def fresh_world_def some_world_def)
  ultimately show ?thesis by (simp add: zone_ready_def yields_def)
qed

lemma fresh_up: "cloud_up fresh_world"
  by (simp add: cloud_up_def fresh_world_def some_world_def some_dist_config_def some_aws_distribution_def cfDeployedStatus_def)


end
