(* ===== verification/Startup.thy ===== *)
theory Startup
  imports Controllers
begin

text \<open>
  \<open>main.go\<close>: the start of the process. Flags, logging, the controller manager and the AWS session
  belong to libraries; \<open>startup_lib\<close> answers what they are asked, by a function of everything asked
  so far. A computation ends with \<open>Ok\<close> when \<open>main\<close> returns, with \<open>Err\<close> when the process exits by
  itself before, and with \<open>Panic\<close> when it panics.
\<close>

section \<open>What the libraries are asked\<close>

record flags =
  metricsAddr :: string
  probeAddr :: string
  enableLeaderElection :: bool

record manager_options =
  MetricsBindAddress :: string
  Port :: nat
  HealthProbeBindAddress :: string
  LeaderElection :: bool
  LeaderElectionID :: string

text \<open>A controller as it is registered: what it watches, its event filter, its reconciler.\<close>

record managed_controller =
  mc_For :: string
  mc_Create :: "client_object \<Rightarrow> bool"
  mc_Update :: "client_object \<Rightarrow> client_object \<Rightarrow> bool"
  mc_Delete :: "client_object \<Rightarrow> bool"
  mc_Generic :: "client_object \<Rightarrow> bool"
  mc_Reconcile :: "string \<Rightarrow> string \<Rightarrow> unit api"

datatype setup_call =
    AddToScheme string
  | LoadDotenv
  | ParseFlags flags
  | SetLogger bool int
  | GetClusterConfig
  | NewManager manager_options
  | AddHealthzCheck string
  | AddReadyzCheck string
  | NewSession
  | CompleteController managed_controller
  | StartManager

text \<open>
  The answer to a request is an error or success; \<open>su_flags\<close> is what parsing the command line makes
  of the defaults, \<open>su_level\<close> is \<open>zapcore.Level.Set\<close>.
\<close>

record startup_lib =
  su_answer :: "setup_call list \<Rightarrow> go_error option"
  su_flags :: "flags \<Rightarrow> flags"
  su_level :: "string \<Rightarrow> go_error + int"
  su_viper :: viper

type_synonym 'a setup_io = "(setup_call, 'a) io"

definition setup_do :: "startup_lib \<Rightarrow> setup_call \<Rightarrow> unit setup_io" where
  "setup_do lib c = io_call c (\<lambda>t. case su_answer lib t of None \<Rightarrow> Inr () | Some e \<Rightarrow> Inl e)"

text \<open>\<open>utilruntime.Must\<close> and \<open>session.Must\<close> panic on an error.\<close>

definition must :: "'a setup_io \<Rightarrow> 'a setup_io" where
  "must m = (\<lambda>t. case m t of (Err e, t') \<Rightarrow> (Panic, t') | r \<Rightarrow> r)"

section \<open>The code\<close>

definition leaderElectionID :: string where
  "leaderElectionID = ''cdn-origin.gympass.com''"

definition GroupVersion :: string where
  "GroupVersion = ''cdn.gympass.com/v1alpha1''"

definition process_init :: "startup_lib \<Rightarrow> unit setup_io" where
  "process_init lib =
     io_bind (must (setup_do lib (AddToScheme ''client-go''))) (\<lambda>_.
     io_bind (must (setup_do lib (AddToScheme GroupVersion))) (\<lambda>_.
     io_bind (io_try (setup_do lib LoadDotenv)) (\<lambda>_. io_return ())))"

definition mustGetLogLevel :: "startup_lib \<Rightarrow> string \<Rightarrow> int outcome" where
  "mustGetLogLevel lib logLvl = (case su_level lib logLvl of Inl e \<Rightarrow> Panic | Inr l \<Rightarrow> Ok l)"

definition SetupWithManager :: "startup_lib \<Rightarrow> service \<Rightarrow> class_fetcher \<Rightarrow> unit setup_io" where
  "SetupWithManager lib s classes =
     setup_do lib (CompleteController \<lparr>mc_For = ''Ingress'', mc_Create = Predicate_Create,
       mc_Update = Predicate_Update, mc_Delete = Predicate_Delete, mc_Generic = Predicate_Generic,
       mc_Reconcile = V1_Reconcile s classes\<rparr>)"

definition mustSetupV1Controller :: "startup_lib \<Rightarrow> world \<Rightarrow> service \<Rightarrow> unit setup_io" where
  "mustSetupV1Controller lib w ir = SetupWithManager lib ir (NewCDNClassFetcher w)"

definition mustSetupControllers ::
    "startup_lib \<Rightarrow> world \<Rightarrow> k8s_libs \<Rightarrow> multierr_lib \<Rightarrow> poll_lib \<Rightarrow> main_orders \<Rightarrow> config \<Rightarrow> unit setup_io" where
  "mustSetupControllers lib w libs me poll mo cfg =
     io_bind (must (setup_do lib NewSession)) (\<lambda>_.
     mustSetupV1Controller lib w (main_service w libs me poll mo cfg))"

text \<open>The flags with the defaults that are registered for them.\<close>

definition default_flags :: flags where
  "default_flags = \<lparr>metricsAddr = '':8080'', probeAddr = '':8081'', enableLeaderElection = False\<rparr>"

definition process_main ::
    "startup_lib \<Rightarrow> world \<Rightarrow> k8s_libs \<Rightarrow> multierr_lib \<Rightarrow> poll_lib \<Rightarrow> main_orders \<Rightarrow> unit setup_io" where
  "process_main lib w libs me poll mo =
     io_bind (setup_do lib (ParseFlags default_flags)) (\<lambda>_.
     let flags = su_flags lib default_flags in
     io_bind (io_lift (parse_config (su_viper lib))) (\<lambda>cfg.
     io_bind (io_lift (mustGetLogLevel lib (LogLevel cfg))) (\<lambda>level.
     io_bind (io_call (SetLogger (DevMode cfg) level) (\<lambda>_. Inr ())) (\<lambda>_.
     io_bind (setup_do lib GetClusterConfig) (\<lambda>_.
     io_bind (setup_do lib (NewManager \<lparr>MetricsBindAddress = metricsAddr flags, Port = 9443,
         HealthProbeBindAddress = probeAddr flags, LeaderElection = enableLeaderElection flags,
         LeaderElectionID = leaderElectionID\<rparr>)) (\<lambda>_.
     io_bind (setup_do lib (AddHealthzCheck ''healthz'')) (\<lambda>_.
     io_bind (setup_do lib (AddReadyzCheck ''readyz'')) (\<lambda>_.
     io_bind (mustSetupControllers lib w libs me poll mo cfg) (\<lambda>_.
     setup_do lib StartManager)))))))))"

definition process ::
    "startup_lib \<Rightarrow> world \<Rightarrow> k8s_libs \<Rightarrow> multierr_lib \<Rightarrow> poll_lib \<Rightarrow> main_orders \<Rightarrow> unit setup_io" where
  "process lib w libs me poll mo = io_bind (process_init lib) (\<lambda>_. process_main lib w libs me poll mo)"

section \<open>The course of a start\<close>

text \<open>The controller of the program for a configuration, and everything a complete start asks for.\<close>

abbreviation main_controller ::
    "world \<Rightarrow> k8s_libs \<Rightarrow> multierr_lib \<Rightarrow> poll_lib \<Rightarrow> main_orders \<Rightarrow> config \<Rightarrow> managed_controller" where
  "main_controller w libs me poll mo cfg \<equiv>
     \<lparr>mc_For = ''Ingress'', mc_Create = Predicate_Create, mc_Update = Predicate_Update,
      mc_Delete = Predicate_Delete, mc_Generic = Predicate_Generic,
      mc_Reconcile = V1_Reconcile (main_service w libs me poll mo cfg) (NewCDNClassFetcher w)\<rparr>"

definition before_start :: "startup_lib \<Rightarrow> config \<Rightarrow> int \<Rightarrow> managed_controller \<Rightarrow> setup_call list" where
  "before_start lib cfg level c = (let flags = su_flags lib default_flags in
     [AddToScheme ''client-go'', AddToScheme GroupVersion, LoadDotenv, ParseFlags default_flags,
      SetLogger (DevMode cfg) level, GetClusterConfig,
      NewManager \<lparr>MetricsBindAddress = metricsAddr flags, Port = 9443,
         HealthProbeBindAddress = probeAddr flags, LeaderElection = enableLeaderElection flags,
         LeaderElectionID = leaderElectionID\<rparr>,
      AddHealthzCheck ''healthz'', AddReadyzCheck ''readyz'', NewSession, CompleteController c])"

text \<open>All the requests of a list succeed, one after the other, but those that may fail or cannot.\<close>

fun accepted :: "startup_lib \<Rightarrow> setup_call list \<Rightarrow> setup_call list \<Rightarrow> bool" where
  "accepted lib t [] \<longleftrightarrow> True"
| "accepted lib t (LoadDotenv # cs) \<longleftrightarrow> accepted lib (t @ [LoadDotenv]) cs"
| "accepted lib t (SetLogger dev l # cs) \<longleftrightarrow> accepted lib (t @ [SetLogger dev l]) cs"
| "accepted lib t (c # cs) \<longleftrightarrow> su_answer lib (t @ [c]) = None \<and> accepted lib (t @ [c]) cs"

lemma setup_do_run:
  "setup_do lib c t = (case su_answer lib (t @ [c]) of None \<Rightarrow> Ok () | Some e \<Rightarrow> Err e, t @ [c])"
  by (simp add: setup_do_def io_call_def split: option.split)

lemma bind_setup:
  "io_bind (setup_do lib c) f t = (case su_answer lib (t @ [c]) of None \<Rightarrow> f () (t @ [c]) | Some e \<Rightarrow> (Err e, t @ [c]))"
  by (simp add: io_bind_def setup_do_run split: option.split)

lemma bind_must:
  "io_bind (must (setup_do lib c)) f t = (case su_answer lib (t @ [c]) of None \<Rightarrow> f () (t @ [c]) | Some e \<Rightarrow> (Panic, t @ [c]))"
  by (simp add: io_bind_def must_def setup_do_run split: option.split)

lemma bind_ignored: "io_bind (io_try (setup_do lib c)) f t = f (case su_answer lib (t @ [c]) of None \<Rightarrow> Inr () | Some e \<Rightarrow> Inl e) (t @ [c])"
  by (simp add: io_bind_def io_try_def setup_do_run split: option.split)

lemma bind_lift: "io_bind (io_lift r) f t = (case r of Ok x \<Rightarrow> f x t | Err e \<Rightarrow> (Err e, t) | Panic \<Rightarrow> (Panic, t))"
  by (simp add: io_bind_def io_lift_def split: outcome.split)

lemmas setup_runs = bind_setup bind_must bind_ignored bind_lift io_bind_assoc setup_do_run io_return_apply


text \<open>A start with every library in order.\<close>

definition sample_startup :: "bool \<Rightarrow> startup_lib" where
  "sample_startup deletion = \<lparr>su_answer = \<lambda>_. None, su_flags = id, su_level = \<lambda>_. Inr 0,
     su_viper = \<lparr>GetBool = \<lambda>k. k = ''enable_deletion'' \<and> deletion, GetString = \<lambda>_. []\<rparr>\<rparr>"

lemma sample_parses: "\<exists>cfg. parse_config (su_viper (sample_startup d)) = Ok cfg"
  by (simp add: sample_startup_def parse_config_def parseNamespacedNames_def parseList_def extractTags_def Let_def)

lemma sample_process:
  "fst (process (sample_startup d) w libs me poll mo []) = Ok ()"
  "parse_config (su_viper (sample_startup d)) = Ok cfg \<Longrightarrow>
     CompleteController (main_controller w libs me poll mo cfg) \<in> set (snd (process (sample_startup d) w libs me poll mo []))"
proof -
  obtain cfg' where "parse_config (su_viper (sample_startup d)) = Ok cfg'" using sample_parses by blast
  moreover have "su_answer (sample_startup d) t = None" "su_level (sample_startup d) l = Inr 0" for t l
    by (simp_all add: sample_startup_def)
  ultimately show "fst (process (sample_startup d) w libs me poll mo []) = Ok ()"
    "parse_config (su_viper (sample_startup d)) = Ok cfg \<Longrightarrow>
     CompleteController (main_controller w libs me poll mo cfg) \<in> set (snd (process (sample_startup d) w libs me poll mo []))"
    by (simp_all add: process_def process_init_def process_main_def mustSetupControllers_def mustSetupV1Controller_def
        SetupWithManager_def mustGetLogLevel_def Let_def setup_runs io_bind_call)
qed


section \<open>From the environment to AWS\<close>

lemma registered_controller:
  assumes "CompleteController c \<in> set (snd (process lib w libs me poll mo []))"
  shows "\<exists>cfg. parse_config (su_viper lib) = Ok cfg \<and> c = main_controller w libs me poll mo cfg"
  using assms
  by (cases "parse_config (su_viper lib)")
    (simp_all add: process_def process_init_def process_main_def mustSetupControllers_def mustSetupV1Controller_def
      SetupWithManager_def mustGetLogLevel_def Let_def setup_runs io_bind_call split: option.splits sum.splits)

lemma parsed_deletion:
  assumes "parse_config v = Ok cfg"
  shows "DeletionEnabled cfg \<longleftrightarrow> GetBool v ''enable_deletion''"
  using assms by (auto simp: parse_config_def Let_def out_iffs)

text \<open>The requests a registered controller has handled, one after the other, with the calls made for them.\<close>

inductive serving :: "managed_controller \<Rightarrow> api_call list \<Rightarrow> bool" for c where
  idle: "serving c []"
| handle: "serving c t \<Longrightarrow> serving c (snd (mc_Reconcile c namespace name t))"

text \<open>
  C4. A process started without \<open>enable_deletion\<close> in its environment never deletes anything in AWS:
  whatever controller it registers, and whatever requests this controller handles, no distribution,
  origin access control or DNS record is ever deleted.
\<close>

theorem configured_never_destroys:
  assumes "CompleteController c \<in> set (snd (process lib w libs me poll mo []))"
    and "\<not> GetBool (su_viper lib) ''enable_deletion''"
    and "serving c t"
  shows "\<not> list_ex destroys t"
proof -
  from registered_controller [OF assms(1)] obtain cfg
    where cfg: "parse_config (su_viper lib) = Ok cfg" "c = main_controller w libs me poll mo cfg" by blast
  from parsed_deletion [OF cfg(1)] assms(2) have "\<not> DeletionEnabled cfg" by simp
  then have quiet: "emits (Not \<circ> destroys) (mc_Reconcile c ns n)" for ns n
    unfolding cfg(2) managed_controller.simps by (intro main_ctl.V1_destroys_nothing) simp
  from assms(3) show ?thesis
  proof induction
    case (handle t ns n)
    show ?case
      by (rule emitsE [OF quiet [of ns n], of t]) (use handle.IH in \<open>auto simp: list_ex_iff list_all_iff\<close>)
  qed simp
qed

theorem configured_never_destroys_witness:
  "\<exists>cfg. \<not> list_ex destroys
     (snd (V1_Reconcile (main_service retired_world sample_libs sample_multierr sample_poll sample_mo cfg)
        (NewCDNClassFetcher retired_world) ''prod'' ''web'' []))"
proof -
  obtain cfg where cfg: "parse_config (su_viper (sample_startup False)) = Ok cfg" using sample_parses by blast
  let ?c = "main_controller retired_world sample_libs sample_multierr sample_poll sample_mo cfg"
  have "serving ?c (snd (mc_Reconcile ?c ''prod'' ''web'' []))" by (intro serving.intros)
  moreover have "\<not> GetBool (su_viper (sample_startup False)) ''enable_deletion''" by (simp add: sample_startup_def)
  ultimately have "\<not> list_ex destroys (snd (mc_Reconcile ?c ''prod'' ''web'' []))"
    by (intro configured_never_destroys [OF sample_process(2) [OF cfg]])
  then show ?thesis by auto
qed

end
