(* ===== verification/Deep_Copy.thy ===== *)
theory Deep_Copy
  imports Cdn_Class Cdn_Status
begin

text \<open>
  \<open>api/v1alpha1/zz_generated.deepcopy.go\<close>: the copies of the custom resources that the API machinery
  hands out, so that the controller can change what it is given without changing the cache it was
  read from. Slices, maps and pointers are addresses of cells of a store, structs are values, and
  \<open>in\<close> is read from the store when a function is given a pointer to it. A slice is the cell with the
  elements it shows. What a copy of the library's own types does (\<open>ObjectMeta\<close>, \<open>ListMeta\<close>,
  \<open>Condition\<close>) is a parameter.
\<close>

section \<open>The store\<close>

type_synonym addr = nat

record dns_struct =
  ds_Records :: "addr option"
  ds_Synced :: bool

record status_status =
  ss_ID :: string
  ss_ARN :: string
  ss_Ingresses :: "addr option"
  ss_Aliases :: "addr option"
  ss_Address :: string
  ss_DNS :: "addr option"

record 'b status_struct =
  st_TypeMeta :: "string \<times> string"
  st_ObjectMeta :: 'b
  st_Status :: status_status

record 'b status_list =
  sl_TypeMeta :: "string \<times> string"
  sl_ListMeta :: 'b
  sl_Items :: "addr option"

record class_status_struct =
  cls_Conditions :: "addr option"

record 'b class_struct =
  cl_TypeMeta :: "string \<times> string"
  cl_ObjectMeta :: 'b
  cl_Spec :: cdn_class_spec
  cl_Status :: class_status_struct

record 'b class_list =
  ll_TypeMeta :: "string \<times> string"
  ll_ListMeta :: 'b
  ll_Items :: "addr option"

datatype 'b cell =
    StringsC (un_Strings: "string list")
  | RefsC (un_Refs: "(ingress_ref, string) gomap")
  | DnsC (un_Dns: dns_struct)
  | StatusStatusC (un_StatusStatus: status_status)
  | StatusC (un_Status: "'b status_struct")
  | StatusesC (un_Statuses: "'b status_struct list")
  | StatusListC (un_StatusList: "'b status_list")
  | ConditionsC (un_Conditions: "'b list")
  | SpecC (un_Spec: cdn_class_spec)
  | ClassStatusC (un_ClassStatus: class_status_struct)
  | ClassC (un_Class: "'b class_struct")
  | ClassesC (un_Classes: "'b class_struct list")
  | ClassListC (un_ClassList: "'b class_list")
  | LibC 'b
  | NewC

type_synonym 'b heap = "'b cell list"
type_synonym ('b, 'x) heap_op = "'b heap \<Rightarrow> ('x \<times> 'b heap) option"

text \<open>A reference to a cell that is missing or holds something else has no value; Go has none.\<close>

definition hreturn :: "'x \<Rightarrow> ('b, 'x) heap_op" where
  "hreturn x = (\<lambda>h. Some (x, h))"

definition hbind :: "('b, 'x) heap_op \<Rightarrow> ('x \<Rightarrow> ('b, 'y) heap_op) \<Rightarrow> ('b, 'y) heap_op" where
  "hbind m f = (\<lambda>h. case m h of None \<Rightarrow> None | Some (x, h') \<Rightarrow> f x h')"

definition alloc :: "'b cell \<Rightarrow> ('b, addr) heap_op" where
  "alloc c = (\<lambda>h. Some (length h, h @ [c]))"

definition store :: "addr \<Rightarrow> 'b cell \<Rightarrow> ('b, unit) heap_op" where
  "store a c = (\<lambda>h. if a < length h then Some ((), h[a := c]) else None)"

abbreviation cell_of :: "('b cell \<Rightarrow> bool) \<Rightarrow> ('b cell \<Rightarrow> 'x) \<Rightarrow> 'b cell \<Rightarrow> 'x option" where
  "cell_of is un c \<equiv> (if is c then Some (un c) else None)"

definition load :: "('b cell \<Rightarrow> 'x option) \<Rightarrow> addr \<Rightarrow> ('b, 'x) heap_op" where
  "load prj a = (\<lambda>h. if a < length h then map_option (\<lambda>x. (x, h)) (prj (h ! a)) else None)"

section \<open>The generated code\<close>

text \<open>
  The patterns the generator repeats: a field that is copied unless it is nil; \<open>new\<close>, a copy into it
  and its address; \<open>make\<close> and a loop that copies element by element, of which the elements not yet
  copied are still zero.
\<close>

definition copy_field :: "(addr \<Rightarrow> ('b, addr) heap_op) \<Rightarrow> addr option \<Rightarrow> ('b, addr option) heap_op" where
  "copy_field cp f = (case f of None \<Rightarrow> hreturn None | Some a \<Rightarrow> hbind (cp a) (\<lambda>b. hreturn (Some b)))"

definition new_copy ::
    "('b cell \<Rightarrow> 'x option) \<Rightarrow> ('x \<Rightarrow> 'b cell) \<Rightarrow> ('x \<Rightarrow> ('b, 'x) heap_op) \<Rightarrow> addr \<Rightarrow> ('b, addr) heap_op" where
  "new_copy prj mk into a =
     hbind (load prj a) (\<lambda>x.
     hbind (alloc NewC) (\<lambda>out.
     hbind (into x) (\<lambda>y.
     hbind (store out (mk y)) (\<lambda>_. hreturn out))))"

fun copy_loop ::
    "('x list \<Rightarrow> 'b cell) \<Rightarrow> ('x \<Rightarrow> ('b, 'x) heap_op) \<Rightarrow> addr \<Rightarrow> 'x list \<Rightarrow> 'x list \<Rightarrow> ('b, unit) heap_op" where
  "copy_loop mk into out ys [] = hreturn ()"
| "copy_loop mk into out ys (x # xs) =
     hbind (into x) (\<lambda>y.
     hbind (store out (mk (ys @ [y]))) (\<lambda>_. copy_loop mk into out (ys @ [y]) xs))"

definition copy_items ::
    "('b cell \<Rightarrow> 'x list option) \<Rightarrow> ('x list \<Rightarrow> 'b cell) \<Rightarrow> ('x \<Rightarrow> ('b, 'x) heap_op) \<Rightarrow> addr \<Rightarrow> ('b, addr) heap_op" where
  "copy_items prj mk into a =
     hbind (load prj a) (\<lambda>xs.
     hbind (alloc (mk [])) (\<lambda>out.
     hbind (copy_loop mk into out [] xs) (\<lambda>_. hreturn out)))"

definition copy_strings :: "addr \<Rightarrow> ('b, addr) heap_op" where
  "copy_strings a =
     hbind (load (cell_of is_StringsC un_Strings) a) (\<lambda>xs.
     hbind (alloc NewC) (\<lambda>out.
     hbind (store out (StringsC xs)) (\<lambda>_. hreturn out)))"

definition refs_loop :: "ingress_ref order \<Rightarrow> (ingress_ref, string) gomap \<Rightarrow> (ingress_ref, string) gomap" where
  "refs_loop ord m = foldl (\<lambda>out (key, val). AList.update key val out) [] (map_range ord m)"

text \<open>\<open>make(IngressRefs, len)\<close> and the loop over the entries, as both \<open>CDNStatusStatus\<close> and \<open>IngressRefs\<close> do.\<close>

definition copy_refs :: "ingress_ref order \<Rightarrow> addr \<Rightarrow> ('b, addr) heap_op" where
  "copy_refs ord a =
     hbind (load (cell_of is_RefsC un_Refs) a) (\<lambda>m.
     hbind (alloc NewC) (\<lambda>out.
     hbind (store out (RefsC (refs_loop ord m))) (\<lambda>_. hreturn out)))"

definition IngressRefs_DeepCopyInto :: "ingress_ref order \<Rightarrow> addr option \<Rightarrow> ('b, addr) heap_op" where
  "IngressRefs_DeepCopyInto ord m = (case m of None \<Rightarrow> alloc (RefsC []) | Some a \<Rightarrow> copy_refs ord a)"

definition IngressRefs_DeepCopy :: "ingress_ref order \<Rightarrow> addr option \<Rightarrow> ('b, addr option) heap_op" where
  "IngressRefs_DeepCopy ord m =
     (case m of None \<Rightarrow> hreturn None
      | Some a \<Rightarrow> hbind (IngressRefs_DeepCopyInto ord (Some a)) (\<lambda>out. hreturn (Some out)))"

definition DNSStatus_DeepCopyInto :: "dns_struct \<Rightarrow> ('b, dns_struct) heap_op" where
  "DNSStatus_DeepCopyInto d =
     hbind (copy_field copy_strings (ds_Records d)) (\<lambda>records. hreturn (d\<lparr>ds_Records := records\<rparr>))"

definition DNSStatus_DeepCopy :: "addr option \<Rightarrow> ('b, addr option) heap_op" where
  "DNSStatus_DeepCopy = copy_field (new_copy (cell_of is_DnsC un_Dns) DnsC DNSStatus_DeepCopyInto)"

definition CDNStatusStatus_DeepCopyInto :: "ingress_ref order \<Rightarrow> status_status \<Rightarrow> ('b, status_status) heap_op" where
  "CDNStatusStatus_DeepCopyInto ord s =
     hbind (copy_field (copy_refs ord) (ss_Ingresses s)) (\<lambda>ingresses.
     hbind (copy_field copy_strings (ss_Aliases s)) (\<lambda>aliases.
     hbind (copy_field (new_copy (cell_of is_DnsC un_Dns) DnsC DNSStatus_DeepCopyInto) (ss_DNS s)) (\<lambda>dns.
     hreturn (s\<lparr>ss_Ingresses := ingresses, ss_Aliases := aliases, ss_DNS := dns\<rparr>))))"

definition CDNStatusStatus_DeepCopy :: "ingress_ref order \<Rightarrow> addr option \<Rightarrow> ('b, addr option) heap_op" where
  "CDNStatusStatus_DeepCopy ord =
     copy_field (new_copy (cell_of is_StatusStatusC un_StatusStatus) StatusStatusC (CDNStatusStatus_DeepCopyInto ord))"

record 'b lib_copies =
  lc_ObjectMeta :: "'b \<Rightarrow> ('b, 'b) heap_op"
  lc_ListMeta :: "'b \<Rightarrow> ('b, 'b) heap_op"
  lc_Condition :: "'b \<Rightarrow> ('b, 'b) heap_op"

definition CDNStatus_DeepCopyInto ::
    "'b lib_copies \<Rightarrow> ingress_ref order \<Rightarrow> 'b status_struct \<Rightarrow> ('b, 'b status_struct) heap_op" where
  "CDNStatus_DeepCopyInto lib ord c =
     hbind (lc_ObjectMeta lib (st_ObjectMeta c)) (\<lambda>meta.
     hbind (CDNStatusStatus_DeepCopyInto ord (st_Status c)) (\<lambda>status.
     hreturn (c\<lparr>st_ObjectMeta := meta, st_Status := status\<rparr>)))"

definition CDNStatus_DeepCopy :: "'b lib_copies \<Rightarrow> ingress_ref order \<Rightarrow> addr option \<Rightarrow> ('b, addr option) heap_op" where
  "CDNStatus_DeepCopy lib ord = copy_field (new_copy (cell_of is_StatusC un_Status) StatusC (CDNStatus_DeepCopyInto lib ord))"

text \<open>\<open>DeepCopyObject\<close> turns a nil pointer into a nil interface.\<close>

definition as_object :: "('b, addr option) heap_op \<Rightarrow> ('b, addr option) heap_op" where
  "as_object copied = hbind copied (\<lambda>c. case c of Some a \<Rightarrow> hreturn (Some a) | None \<Rightarrow> hreturn None)"

definition CDNStatus_DeepCopyObject ::
    "'b lib_copies \<Rightarrow> ingress_ref order \<Rightarrow> addr option \<Rightarrow> ('b, addr option) heap_op" where
  "CDNStatus_DeepCopyObject lib ord p = as_object (CDNStatus_DeepCopy lib ord p)"

definition CDNStatusList_DeepCopyInto ::
    "'b lib_copies \<Rightarrow> ingress_ref order \<Rightarrow> 'b status_list \<Rightarrow> ('b, 'b status_list) heap_op" where
  "CDNStatusList_DeepCopyInto lib ord l =
     hbind (lc_ListMeta lib (sl_ListMeta l)) (\<lambda>meta.
     hbind (copy_field (copy_items (cell_of is_StatusesC un_Statuses) StatusesC (CDNStatus_DeepCopyInto lib ord)) (sl_Items l)) (\<lambda>items.
     hreturn (l\<lparr>sl_ListMeta := meta, sl_Items := items\<rparr>)))"

definition CDNStatusList_DeepCopy :: "'b lib_copies \<Rightarrow> ingress_ref order \<Rightarrow> addr option \<Rightarrow> ('b, addr option) heap_op" where
  "CDNStatusList_DeepCopy lib ord =
     copy_field (new_copy (cell_of is_StatusListC un_StatusList) StatusListC (CDNStatusList_DeepCopyInto lib ord))"

definition CDNStatusList_DeepCopyObject ::
    "'b lib_copies \<Rightarrow> ingress_ref order \<Rightarrow> addr option \<Rightarrow> ('b, addr option) heap_op" where
  "CDNStatusList_DeepCopyObject lib ord p = as_object (CDNStatusList_DeepCopy lib ord p)"

definition CDNClassSpec_DeepCopyInto :: "cdn_class_spec \<Rightarrow> ('b, cdn_class_spec) heap_op" where
  "CDNClassSpec_DeepCopyInto s = hreturn s"

definition CDNClassSpec_DeepCopy :: "addr option \<Rightarrow> ('b, addr option) heap_op" where
  "CDNClassSpec_DeepCopy = copy_field (new_copy (cell_of is_SpecC un_Spec) SpecC CDNClassSpec_DeepCopyInto)"

definition CDNClassStatus_DeepCopyInto :: "'b lib_copies \<Rightarrow> class_status_struct \<Rightarrow> ('b, class_status_struct) heap_op" where
  "CDNClassStatus_DeepCopyInto lib s =
     hbind (copy_field (copy_items (cell_of is_ConditionsC un_Conditions) ConditionsC (lc_Condition lib)) (cls_Conditions s)) (\<lambda>conds.
     hreturn (s\<lparr>cls_Conditions := conds\<rparr>))"

definition CDNClassStatus_DeepCopy :: "'b lib_copies \<Rightarrow> addr option \<Rightarrow> ('b, addr option) heap_op" where
  "CDNClassStatus_DeepCopy lib =
     copy_field (new_copy (cell_of is_ClassStatusC un_ClassStatus) ClassStatusC (CDNClassStatus_DeepCopyInto lib))"

definition CDNClass_DeepCopyInto :: "'b lib_copies \<Rightarrow> 'b class_struct \<Rightarrow> ('b, 'b class_struct) heap_op" where
  "CDNClass_DeepCopyInto lib c =
     hbind (lc_ObjectMeta lib (cl_ObjectMeta c)) (\<lambda>meta.
     hbind (CDNClassStatus_DeepCopyInto lib (cl_Status c)) (\<lambda>status.
     hreturn (c\<lparr>cl_ObjectMeta := meta, cl_Spec := cl_Spec c, cl_Status := status\<rparr>)))"

definition CDNClass_DeepCopy :: "'b lib_copies \<Rightarrow> addr option \<Rightarrow> ('b, addr option) heap_op" where
  "CDNClass_DeepCopy lib = copy_field (new_copy (cell_of is_ClassC un_Class) ClassC (CDNClass_DeepCopyInto lib))"

definition CDNClass_DeepCopyObject :: "'b lib_copies \<Rightarrow> addr option \<Rightarrow> ('b, addr option) heap_op" where
  "CDNClass_DeepCopyObject lib p = as_object (CDNClass_DeepCopy lib p)"

definition CDNClassList_DeepCopyInto :: "'b lib_copies \<Rightarrow> 'b class_list \<Rightarrow> ('b, 'b class_list) heap_op" where
  "CDNClassList_DeepCopyInto lib l =
     hbind (lc_ListMeta lib (ll_ListMeta l)) (\<lambda>meta.
     hbind (copy_field (copy_items (cell_of is_ClassesC un_Classes) ClassesC (CDNClass_DeepCopyInto lib)) (ll_Items l)) (\<lambda>items.
     hreturn (l\<lparr>ll_ListMeta := meta, ll_Items := items\<rparr>)))"

definition CDNClassList_DeepCopy :: "'b lib_copies \<Rightarrow> addr option \<Rightarrow> ('b, addr option) heap_op" where
  "CDNClassList_DeepCopy lib =
     copy_field (new_copy (cell_of is_ClassListC un_ClassList) ClassListC (CDNClassList_DeepCopyInto lib))"

definition CDNClassList_DeepCopyObject :: "'b lib_copies \<Rightarrow> addr option \<Rightarrow> ('b, addr option) heap_op" where
  "CDNClassList_DeepCopyObject lib p = as_object (CDNClassList_DeepCopy lib p)"

section \<open>The contract of a deep copy\<close>

text \<open>
  A kind of data is given by the cells it reaches and by the value it denotes. The value depends on
  these cells only; a copy denotes the same value, adds to the store without changing it, and reaches
  only what it added.
\<close>

definition same_cells :: "nat set \<Rightarrow> 'b heap \<Rightarrow> 'b heap \<Rightarrow> bool" where
  "same_cells A h h' \<longleftrightarrow> (\<forall>a \<in> A. a < length h \<and> a < length h' \<and> h' ! a = h ! a)"

locale copier =
  fixes copy :: "'x \<Rightarrow> ('b, 'x) heap_op"
    and reach :: "'x \<Rightarrow> 'b heap \<Rightarrow> nat set"
    and val :: "'x \<Rightarrow> 'b heap \<Rightarrow> 'v option"
  assumes inside: "val x h = Some v \<Longrightarrow> a \<in> reach x h \<Longrightarrow> a < length h"
    and frame: "val x h = Some v \<Longrightarrow> same_cells (reach x h) h h' \<Longrightarrow> val x h' = Some v \<and> reach x h' = reach x h"
    and copies: "val x h = Some v \<Longrightarrow> \<exists>y k. copy x h = Some (y, h @ k) \<and> val y (h @ k) = Some v \<and>
      (\<forall>a \<in> reach y (h @ k). length h \<le> a)"
begin

lemma frame_append: "val x h = Some v \<Longrightarrow> val x (h @ k) = Some v \<and> reach x (h @ k) = reach x h"
proof (rule frame)
  assume "val x h = Some v"
  then have "\<forall>a \<in> reach x h. a < length h" by (simp add: inside)
  then show "same_cells (reach x h) h (h @ k)" by (auto simp: same_cells_def nth_append)
qed

lemma frame_update:
  "val x h = Some v \<Longrightarrow> b \<notin> reach x h \<Longrightarrow> val x (h[b := c]) = Some v \<and> reach x (h[b := c]) = reach x h"
proof (rule frame)
  assume v: "val x h = Some v" and b: "b \<notin> reach x h"
  have "a < length h \<and> b \<noteq> a" if "a \<in> reach x h" for a using inside [OF v that] b that by blast
  then show "same_cells (reach x h) h (h[b := c])" by (simp add: same_cells_def)
qed

text \<open>Nothing that is done to the cells of the copy can be seen through the original, and conversely.\<close>

lemma isolated:
  assumes "val x h = Some v"
  shows "\<exists>y k. copy x h = Some (y, h @ k) \<and> val y (h @ k) = Some v \<and>
    (\<forall>h'. same_cells (- reach y (h @ k) \<inter> {..<length (h @ k)}) (h @ k) h' \<longrightarrow> val x h' = Some v) \<and>
    (\<forall>h'. same_cells (- reach x h \<inter> {..<length (h @ k)}) (h @ k) h' \<longrightarrow> val y h' = Some v)"
proof -
  from copies [OF assms] obtain y k where c: "copy x h = Some (y, h @ k)" "val y (h @ k) = Some v"
    "\<forall>a \<in> reach y (h @ k). length h \<le> a" by blast
  from frame_append [OF assms] have x: "val x (h @ k) = Some v" "reach x (h @ k) = reach x h" by auto
  have apart: "reach x h \<subseteq> - reach y (h @ k) \<inter> {..<length (h @ k)}" "reach y (h @ k) \<subseteq> - reach x h \<inter> {..<length (h @ k)}"
    using inside [OF assms] inside [OF c(2)] c(3) by fastforce+
  have "val x h' = Some v" if "same_cells (- reach y (h @ k) \<inter> {..<length (h @ k)}) (h @ k) h'" for h'
    using frame [OF x(1)] x(2) that apart(1) unfolding same_cells_def by blast
  moreover have "val y h' = Some v" if "same_cells (- reach x h \<inter> {..<length (h @ k)}) (h @ k) h'" for h'
    using frame [OF c(2)] that apart(2) unfolding same_cells_def by blast
  ultimately show ?thesis using c(1,2) by blast
qed

end

text \<open>Data without references.\<close>

definition plain_reach :: "'x \<Rightarrow> 'b heap \<Rightarrow> nat set" where
  "plain_reach x h = {}"

definition plain_val :: "'x \<Rightarrow> 'b heap \<Rightarrow> 'x option" where
  "plain_val x h = Some x"

definition refs_val :: "(ingress_ref, string) gomap \<Rightarrow> 'b heap \<Rightarrow> (ingress_ref \<Rightarrow> string option) option" where
  "refs_val m h = (if wf_map m then Some (map_of m) else None)"

text \<open>References, fields that may be nil, pairs, lists of structs.\<close>

definition cell_reach ::
    "('b cell \<Rightarrow> 'x option) \<Rightarrow> ('x \<Rightarrow> 'b heap \<Rightarrow> nat set) \<Rightarrow> addr \<Rightarrow> 'b heap \<Rightarrow> nat set" where
  "cell_reach prj r a h = insert a (if a < length h then case prj (h ! a) of None \<Rightarrow> {} | Some x \<Rightarrow> r x h else {})"

definition cell_val ::
    "('b cell \<Rightarrow> 'x option) \<Rightarrow> ('x \<Rightarrow> 'b heap \<Rightarrow> 'v option) \<Rightarrow> addr \<Rightarrow> 'b heap \<Rightarrow> 'v option" where
  "cell_val prj v a h = (if a < length h then case prj (h ! a) of None \<Rightarrow> None | Some x \<Rightarrow> v x h else None)"

definition field_reach :: "(addr \<Rightarrow> 'b heap \<Rightarrow> nat set) \<Rightarrow> addr option \<Rightarrow> 'b heap \<Rightarrow> nat set" where
  "field_reach r f h = (case f of None \<Rightarrow> {} | Some a \<Rightarrow> r a h)"

definition field_val :: "(addr \<Rightarrow> 'b heap \<Rightarrow> 'v option) \<Rightarrow> addr option \<Rightarrow> 'b heap \<Rightarrow> 'v option option" where
  "field_val v f h = (case f of None \<Rightarrow> Some None | Some a \<Rightarrow> map_option Some (v a h))"

definition pair_reach ::
    "('x \<Rightarrow> 'b heap \<Rightarrow> nat set) \<Rightarrow> ('y \<Rightarrow> 'b heap \<Rightarrow> nat set) \<Rightarrow> 'x \<times> 'y \<Rightarrow> 'b heap \<Rightarrow> nat set" where
  "pair_reach r1 r2 p h = r1 (fst p) h \<union> r2 (snd p) h"

definition pair_val ::
    "('x \<Rightarrow> 'b heap \<Rightarrow> 'v option) \<Rightarrow> ('y \<Rightarrow> 'b heap \<Rightarrow> 'w option) \<Rightarrow> 'x \<times> 'y \<Rightarrow> 'b heap \<Rightarrow> ('v \<times> 'w) option" where
  "pair_val v1 v2 p h = (case v1 (fst p) h of None \<Rightarrow> None | Some a \<Rightarrow> map_option (Pair a) (v2 (snd p) h))"

definition list_reach :: "('x \<Rightarrow> 'b heap \<Rightarrow> nat set) \<Rightarrow> 'x list \<Rightarrow> 'b heap \<Rightarrow> nat set" where
  "list_reach r xs h = (\<Union>x \<in> set xs. r x h)"

definition list_val :: "('x \<Rightarrow> 'b heap \<Rightarrow> 'v option) \<Rightarrow> 'x list \<Rightarrow> 'b heap \<Rightarrow> 'v list option" where
  "list_val v xs h = those (map (\<lambda>x. v x h) xs)"

definition pair_copy ::
    "('x \<Rightarrow> ('b, 'x) heap_op) \<Rightarrow> ('y \<Rightarrow> ('b, 'y) heap_op) \<Rightarrow> 'x \<times> 'y \<Rightarrow> ('b, 'x \<times> 'y) heap_op" where
  "pair_copy c1 c2 p = hbind (c1 (fst p)) (\<lambda>x. hbind (c2 (snd p)) (\<lambda>y. hreturn (x, y)))"

section \<open>Copiers are built from copiers\<close>

lemma copier_plain: "copier hreturn plain_reach plain_val"
  by unfold_locales (simp_all add: plain_reach_def plain_val_def hreturn_def)

lemma refs_loop_map:
  assumes "is_order ord" and "wf_map m"
  shows "wf_map (refs_loop ord m) \<and> map_of (refs_loop ord m) = map_of m"
proof -
  have loop: "refs_loop ord m = fold (\<lambda>(k, v) m. AList.update k v m) (map_range ord m) []"
    unfolding refs_loop_def foldl_conv_fold by (rule arg_cong [where f = "\<lambda>f. fold f _ _"]) (auto simp: fun_eq_iff)
  have r: "wf_map (map_range ord m)" using assms distinct_map_range [OF assms] by (simp add: wf_map_def)
  show ?thesis
    unfolding loop by (simp add: map_of_fold_update wf_map_fold_update map_of_rev_wf [OF r] map_of_map_range [OF assms])
qed

lemma copier_refs: "is_order ord \<Longrightarrow> copier (\<lambda>m. hreturn (refs_loop ord m)) plain_reach refs_val"
  by unfold_locales (auto simp: plain_reach_def refs_val_def hreturn_def refs_loop_map split: if_splits)

lemma cell_val_Some_iff:
  "cell_val prj v a h = Some u \<longleftrightarrow> a < length h \<and> (\<exists>x. prj (h ! a) = Some x \<and> v x h = Some u)"
  by (auto simp: cell_val_def split: option.splits)

lemma cell_frame:
  assumes "copier c r v" and "cell_val prj v a h = Some u" and "same_cells (cell_reach prj r a h) h h'"
  shows "cell_val prj v a h' = Some u \<and> cell_reach prj r a h' = cell_reach prj r a h"
proof -
  from assms(2) obtain x where x: "a < length h" "prj (h ! a) = Some x" "v x h = Some u"
    by (auto simp: cell_val_Some_iff)
  with assms(3) have a: "a < length h'" "h' ! a = h ! a" and "same_cells (r x h) h h'"
    by (auto simp: same_cells_def cell_reach_def)
  with copier.frame [OF assms(1) x(3)] have "v x h' = Some u \<and> r x h' = r x h" by blast
  with a x show ?thesis by (simp add: cell_val_def cell_reach_def)
qed

lemma cell_inside:
  assumes "copier c r v" and "cell_val prj v a h = Some u" and "b \<in> cell_reach prj r a h"
  shows "b < length h"
  using assms copier.inside [OF assms(1)] by (auto simp: cell_val_Some_iff cell_reach_def)

lemma copier_new:
  assumes "copier into r v" and "\<And>y. prj (mk y) = Some y"
  shows "copier (new_copy prj mk into) (cell_reach prj r) (cell_val prj v)"
proof
  fix a h u
  assume val: "cell_val prj v a h = Some u"
  then obtain x where x: "a < length h" "prj (h ! a) = Some x" "v x h = Some u" by (auto simp: cell_val_Some_iff)
  from copier.copies [OF assms(1) conjunct1 [OF copier.frame_append [OF assms(1) x(3)]]] obtain y k where
    y: "into x (h @ [NewC]) = Some (y, (h @ [NewC]) @ k)" "v y ((h @ [NewC]) @ k) = Some u"
      "\<forall>b \<in> r y ((h @ [NewC]) @ k). length (h @ [NewC]) \<le> b" by blast
  then have "length h \<notin> r y ((h @ [NewC]) @ k)" by auto
  from copier.frame_update [OF assms(1) y(2) this, of "mk y"]
  have out: "v y (h @ mk y # k) = Some u" "r y (h @ mk y # k) = r y ((h @ [NewC]) @ k)" by auto
  have "new_copy prj mk into a h = Some (length h, h @ mk y # k)"
    using x y(1) by (simp add: new_copy_def hbind_def load_def alloc_def store_def hreturn_def)
  moreover have "cell_val prj v (length h) (h @ mk y # k) = Some u"
    using out(1) by (simp add: cell_val_def assms(2))
  moreover have "length h \<le> b" if "b \<in> cell_reach prj r (length h) (h @ mk y # k)" for b
    using that out(2) y(3) by (auto simp: cell_reach_def assms(2))
  ultimately show "\<exists>y k. new_copy prj mk into a h = Some (y, h @ k) \<and> cell_val prj v y (h @ k) = Some u \<and>
      (\<forall>b \<in> cell_reach prj r y (h @ k). length h \<le> b)" by blast
qed (use cell_frame [OF assms(1)] cell_inside [OF assms(1)] in \<open>blast+\<close>)

lemma copier_field:
  assumes "copier c r v"
  shows "copier (copy_field c) (field_reach r) (field_val v)"
proof
  fix f h u
  assume "field_val v f h = Some u"
  then show "\<exists>y k. copy_field c f h = Some (y, h @ k) \<and> field_val v y (h @ k) = Some u \<and>
      (\<forall>a \<in> field_reach r y (h @ k). length h \<le> a)"
  proof (cases f)
    case (Some a)
    with \<open>field_val v f h = Some u\<close> obtain w where w: "v a h = Some w" "u = Some w" by (auto simp: field_val_def)
    from copier.copies [OF assms w(1)] obtain y k where "c a h = Some (y, h @ k)" "v y (h @ k) = Some w"
      "\<forall>a \<in> r y (h @ k). length h \<le> a" by blast
    with Some w(2) show ?thesis
      by (intro exI [where x = "Some y"] exI [where x = k])
        (simp add: copy_field_def field_val_def field_reach_def hbind_def hreturn_def)
  qed (simp add: copy_field_def field_val_def field_reach_def hreturn_def)
next
  fix f h u a
  assume "field_val v f h = Some u" "a \<in> field_reach r f h"
  then show "a < length h"
    using copier.inside [OF assms] by (auto simp: field_val_def field_reach_def split: option.splits)
next
  fix f h u and h' :: "'a heap"
  assume "field_val v f h = Some u" "same_cells (field_reach r f h) h h'"
  then show "field_val v f h' = Some u \<and> field_reach r f h' = field_reach r f h"
  proof (cases f)
    case (Some a)
    with \<open>field_val v f h = Some u\<close> obtain w where w: "v a h = Some w" "u = Some w" by (auto simp: field_val_def)
    with \<open>same_cells _ h h'\<close> Some copier.frame [OF assms w(1), of h'] show ?thesis
      by (simp add: field_val_def field_reach_def)
  qed (simp_all add: field_val_def field_reach_def)
qed

lemma pair_val_Some_iff:
  "pair_val v1 v2 p h = Some u \<longleftrightarrow> v1 (fst p) h = Some (fst u) \<and> v2 (snd p) h = Some (snd u)"
  by (cases u) (auto simp: pair_val_def split: option.splits)

lemma copier_pair:
  assumes "copier c1 r1 v1" and "copier c2 r2 v2"
  shows "copier (pair_copy c1 c2) (pair_reach r1 r2) (pair_val v1 v2)"
proof
  fix p h u
  assume "pair_val v1 v2 p h = Some u"
  then have u: "v1 (fst p) h = Some (fst u)" "v2 (snd p) h = Some (snd u)" by (simp_all add: pair_val_Some_iff)
  from copier.copies [OF assms(1) u(1)] obtain x k1 where
    x: "c1 (fst p) h = Some (x, h @ k1)" "v1 x (h @ k1) = Some (fst u)" "\<forall>a \<in> r1 x (h @ k1). length h \<le> a" by blast
  from copier.copies [OF assms(2) conjunct1 [OF copier.frame_append [OF assms(2) u(2), of k1]]] obtain y k2 where
    y: "c2 (snd p) (h @ k1) = Some (y, (h @ k1) @ k2)" "v2 y ((h @ k1) @ k2) = Some (snd u)"
      "\<forall>a \<in> r2 y ((h @ k1) @ k2). length (h @ k1) \<le> a" by blast
  from copier.frame_append [OF assms(1) x(2), of k2] x(3) y show "\<exists>y k. pair_copy c1 c2 p h = Some (y, h @ k) \<and>
      pair_val v1 v2 y (h @ k) = Some u \<and> (\<forall>a \<in> pair_reach r1 r2 y (h @ k). length h \<le> a)"
    by (intro exI [where x = "(x, y)"] exI [where x = "k1 @ k2"])
      (auto simp: pair_copy_def hbind_def hreturn_def pair_val_Some_iff pair_reach_def x(1))
next
  fix p h u a
  assume "pair_val v1 v2 p h = Some u" "a \<in> pair_reach r1 r2 p h"
  then show "a < length h"
    using copier.inside [OF assms(1)] copier.inside [OF assms(2)] by (auto simp: pair_val_Some_iff pair_reach_def)
next
  fix p h u and h' :: "'b heap"
  assume "pair_val v1 v2 p h = Some u" and s: "same_cells (pair_reach r1 r2 p h) h h'"
  then have u: "v1 (fst p) h = Some (fst u)" "v2 (snd p) h = Some (snd u)" by (simp_all add: pair_val_Some_iff)
  from s have "same_cells (r1 (fst p) h) h h'" "same_cells (r2 (snd p) h) h h'"
    by (auto simp: same_cells_def pair_reach_def)
  with copier.frame [OF assms(1) u(1)] copier.frame [OF assms(2) u(2)]
  show "pair_val v1 v2 p h' = Some u \<and> pair_reach r1 r2 p h' = pair_reach r1 r2 p h"
    by (simp add: pair_val_Some_iff pair_reach_def)
qed

lemma list_val_Some_iff: "list_val v xs h = Some us \<longleftrightarrow> list_all2 (\<lambda>x u. v x h = Some u) xs us"
proof (induction xs arbitrary: us)
  case (Cons x xs)
  then show ?case by (cases us) (auto simp: list_val_def split: option.splits)
qed (auto simp: list_val_def)

text \<open>A struct whose fields that hold references are copied by a copier, the others by the assignment.\<close>

lemma copier_struct:
  assumes "copier c r v"
    and "\<And>x h. copy x h = (case c (get x) h of None \<Rightarrow> None | Some (y, h') \<Rightarrow> Some (put x y, h'))"
    and "\<And>x y. get (put x y) = y" and "\<And>x y. rest (put x y) = rest x"
    and "\<And>x h. reach x h = r (get x) h"
    and "\<And>x h. val x h = map_option (Pair (rest x)) (v (get x) h)"
  shows "copier copy reach val"
proof
  fix x h u
  assume "val x h = Some u"
  then obtain w where w: "v (get x) h = Some w" "u = (rest x, w)" by (auto simp: assms(6))
  from copier.copies [OF assms(1) w(1)] obtain y k where "c (get x) h = Some (y, h @ k)" "v y (h @ k) = Some w"
    "\<forall>a \<in> r y (h @ k). length h \<le> a" by blast
  with w(2) show "\<exists>y k. copy x h = Some (y, h @ k) \<and> val y (h @ k) = Some u \<and> (\<forall>a \<in> reach y (h @ k). length h \<le> a)"
    by (intro exI [where x = "put x y"] exI [where x = k]) (simp add: assms(2-6))
next
  fix x h u a
  assume "val x h = Some u" "a \<in> reach x h"
  then show "a < length h" using copier.inside [OF assms(1)] by (auto simp: assms(5,6))
next
  fix x h u and h' :: "'b heap"
  assume "val x h = Some u" and s: "same_cells (reach x h) h h'"
  then obtain w where w: "v (get x) h = Some w" "u = (rest x, w)" by (auto simp: assms(6))
  with s copier.frame [OF assms(1) w(1), of h'] show "val x h' = Some u \<and> reach x h' = reach x h"
    by (simp add: assms(5,6))
qed

text \<open>
  The loop over the elements of a slice: whatever has been copied stays what it is while the next
  elements are copied and the new slice is written.
\<close>

definition items_at :: "('x \<Rightarrow> 'b heap \<Rightarrow> nat set) \<Rightarrow> ('x \<Rightarrow> 'b heap \<Rightarrow> 'v option) \<Rightarrow> addr \<Rightarrow> 'x list \<Rightarrow> 'v list \<Rightarrow> 'b heap \<Rightarrow> bool" where
  "items_at r v out xs us h \<longleftrightarrow>
     length us = length xs \<and> (\<forall>i < length xs. v (xs ! i) h = Some (us ! i) \<and> out \<notin> r (xs ! i) h)"

lemma items_at_simps [simp]:
  "items_at r v out [] us h \<longleftrightarrow> us = []"
  "items_at r v out (x # xs) us h \<longleftrightarrow>
     (\<exists>u us'. us = u # us' \<and> v x h = Some u \<and> out \<notin> r x h \<and> items_at r v out xs us' h)"
proof -
  show "items_at r v out (x # xs) us h \<longleftrightarrow>
     (\<exists>u us'. us = u # us' \<and> v x h = Some u \<and> out \<notin> r x h \<and> items_at r v out xs us' h)"
    by (cases us) (auto simp: items_at_def All_less_Suc2)
qed (simp add: items_at_def)

lemma items_at_append:
  "items_at r v out xs us h \<Longrightarrow> v y h = Some u \<Longrightarrow> out \<notin> r y h \<Longrightarrow> items_at r v out (xs @ [y]) (us @ [u]) h"
  by (auto simp: items_at_def nth_append less_Suc_eq)

lemma items_at_list_val: "items_at r v out xs us h \<Longrightarrow> list_val v xs h = Some us"
  by (auto simp: list_val_Some_iff items_at_def list_all2_conv_all_nth)

lemma copy_loop_run:
  assumes c: "copier into r v"
  assumes "out < length h" and "h ! out = mk ys" and "items_at r v out xs us h"
    and "items_at r v out ys ws h" and "\<forall>y \<in> set ys. \<forall>a \<in> r y h. out \<le> a"
  shows "\<exists>zs k. copy_loop mk into out ys xs h = Some ((), h[out := mk zs] @ k) \<and>
    items_at r v out zs (ws @ us) (h[out := mk zs] @ k) \<and>
    (\<forall>z \<in> set zs. \<forall>a \<in> r z (h[out := mk zs] @ k). out \<le> a)"
  using assms(2-)
proof (induction xs arbitrary: us ys ws h)
  case Nil
  then show ?case
    by (intro exI [where x = ys] exI [where x = "[]"]) (simp add: hreturn_def, metis list_update_id)
next
  case (Cons x xs)
  then obtain u us' where us: "us = u # us'" "v x h = Some u" "items_at r v out xs us' h" by auto
  from copier.copies [OF c us(2)] obtain y k where
    y: "into x h = Some (y, h @ k)" "v y (h @ k) = Some u" "\<forall>a \<in> r y (h @ k). length h \<le> a" by blast
  define h1 where "h1 = (h @ k)[out := mk (ys @ [y])]"
  have h1: "out < length h1" "h1 ! out = mk (ys @ [y])" "h1 = h[out := mk (ys @ [y])] @ k"
    using Cons.prems(1) by (simp_all add: h1_def list_update_append nth_append)
  have keep: "v z h1 = Some w \<and> r z h1 = r z h" if "v z h = Some w" "out \<notin> r z h" for z w
    using copier.frame_append [OF c that(1), of k] copier.frame_update [OF c, of z "h @ k" w out "mk (ys @ [y])"] that(2)
    unfolding h1_def by simp
  have "items_at r v out zs ts h \<Longrightarrow> items_at r v out zs ts h1" for zs ts
    using keep by (simp add: items_at_def)
  with us(3) Cons.prems(4) have old: "items_at r v out xs us' h1" "items_at r v out ys ws h1" by auto
  have "out \<notin> r y (h @ k)" using y(3) Cons.prems(1) by fastforce
  from this copier.frame_update [OF c y(2) this, of "mk (ys @ [y])"]
  have y1: "v y h1 = Some u" "out \<notin> r y h1" "\<forall>a \<in> r y h1. out \<le> a"
    using y(3) Cons.prems(1) unfolding h1_def by auto
  have "\<forall>a \<in> r z h1. out \<le> a" if "z \<in> set ys" for z
    using that Cons.prems(4,5) keep by (metis items_at_def in_set_conv_nth)
  with y1(3) have low: "\<forall>z \<in> set (ys @ [y]). \<forall>a \<in> r z h1. out \<le> a" by auto
  have run: "copy_loop mk into out ys (x # xs) h = copy_loop mk into out (ys @ [y]) xs h1"
    using y(1) Cons.prems(1) by (simp add: hbind_def store_def h1_def)
  from Cons.IH [OF h1(1,2) old(1) items_at_append [where y = y, OF old(2) y1(1,2)] low] obtain zs k' where
    "copy_loop mk into out (ys @ [y]) xs h1 = Some ((), h1[out := mk zs] @ k')"
    "items_at r v out zs ((ws @ [u]) @ us') (h1[out := mk zs] @ k')"
    "\<forall>z \<in> set zs. \<forall>a \<in> r z (h1[out := mk zs] @ k'). out \<le> a" by blast
  moreover have "h1[out := mk zs] @ k' = h[out := mk zs] @ (k @ k')"
    using Cons.prems(1) unfolding h1(3) by (simp add: list_update_append)
  ultimately show ?case unfolding run us(1) by (intro exI [where x = zs] exI [where x = "k @ k'"]) simp
qed

lemma list_frame:
  assumes "copier c r v" and "list_val v xs h = Some us" and "same_cells (list_reach r xs h) h h'"
  shows "list_val v xs h' = Some us \<and> list_reach r xs h' = list_reach r xs h"
proof -
  have same: "v x h' = v x h" "r x h' = r x h" if "x \<in> set xs" for x
  proof -
    from that assms(2) obtain u where u: "v x h = Some u"
      by (auto simp: list_val_Some_iff list_all2_conv_all_nth in_set_conv_nth)
    from that assms(3) have "same_cells (r x h) h h'" by (auto simp: list_reach_def same_cells_def)
    from copier.frame [OF assms(1) u this] u show "v x h' = v x h" "r x h' = r x h" by simp_all
  qed
  then have vals: "map (\<lambda>x. v x h') xs = map (\<lambda>x. v x h) xs" by simp
  have "list_val v xs h' = list_val v xs h" unfolding list_val_def vals ..
  with assms(2) same(2) show ?thesis by (simp add: list_reach_def)
qed

lemma list_inside:
  assumes "copier c r v" and "list_val v xs h = Some us" and "b \<in> list_reach r xs h"
  shows "b < length h"
proof -
  from assms(3) obtain x where x: "x \<in> set xs" "b \<in> r x h" by (auto simp: list_reach_def)
  with assms(2) obtain u where "v x h = Some u"
    by (auto simp: list_val_Some_iff list_all2_conv_all_nth in_set_conv_nth)
  from copier.inside [OF assms(1) this x(2)] show ?thesis .
qed

lemma copier_items:
  assumes "copier into r v" and "\<And>ys. prj (mk ys) = Some ys"
  shows "copier (copy_items prj mk into) (cell_reach prj (list_reach r)) (cell_val prj (list_val v))"
proof
  fix a h us
  assume "cell_val prj (list_val v) a h = Some us"
  then obtain xs where xs: "a < length h" "prj (h ! a) = Some xs" "list_val v xs h = Some us"
    by (auto simp: cell_val_Some_iff)
  let ?h = "h @ [mk []]"
  have keep: "v x ?h = Some u \<and> length h \<notin> r x ?h" if "v x h = Some u" for x u
    using copier.frame_append [OF assms(1) that, of "[mk []]"] copier.inside [OF assms(1) that] by blast
  then have "items_at r v (length h) xs us ?h"
    using xs(3) by (simp add: list_val_Some_iff list_all2_conv_all_nth items_at_def)
  from copy_loop_run [where out = "length h" and ys = "[]" and ws = "[]" and mk = mk, OF assms(1) _ _ this] obtain zs k where
    z: "copy_loop mk into (length h) [] xs ?h = Some ((), ?h[length h := mk zs] @ k)"
      "items_at r v (length h) zs us (?h[length h := mk zs] @ k)"
      "\<forall>z \<in> set zs. \<forall>a \<in> r z (?h[length h := mk zs] @ k). length h \<le> a" by auto
  have eq: "?h[length h := mk zs] @ k = h @ mk zs # k" by simp
  from xs z(1) have "copy_items prj mk into a h = Some (length h, h @ mk zs # k)"
    by (simp add: copy_items_def hbind_def load_def alloc_def hreturn_def)
  moreover have "cell_val prj (list_val v) (length h) (h @ mk zs # k) = Some us"
    using items_at_list_val [OF z(2)] unfolding eq by (simp add: cell_val_def assms(2))
  moreover have "length h \<le> b" if "b \<in> cell_reach prj (list_reach r) (length h) (h @ mk zs # k)" for b
    using that z(3) unfolding eq by (auto simp: cell_reach_def assms(2) list_reach_def)
  ultimately show "\<exists>y k. copy_items prj mk into a h = Some (y, h @ k) \<and> cell_val prj (list_val v) y (h @ k) = Some us \<and>
      (\<forall>b \<in> cell_reach prj (list_reach r) y (h @ k). length h \<le> b)" by blast
next
  fix a h us b
  assume "cell_val prj (list_val v) a h = Some us" "b \<in> cell_reach prj (list_reach r) a h"
  then show "b < length h"
    using list_inside [OF assms(1)] by (auto simp: cell_val_Some_iff cell_reach_def)
next
  fix a h us and h' :: "'b heap"
  assume "cell_val prj (list_val v) a h = Some us" and s: "same_cells (cell_reach prj (list_reach r) a h) h h'"
  then obtain xs where xs: "a < length h" "prj (h ! a) = Some xs" "list_val v xs h = Some us"
    by (auto simp: cell_val_Some_iff)
  with s have a: "a < length h'" "h' ! a = h ! a" and "same_cells (list_reach r xs h) h h'"
    by (auto simp: same_cells_def cell_reach_def)
  from list_frame [OF assms(1) xs(3) this(3)] a xs
  show "cell_val prj (list_val v) a h' = Some us \<and>
      cell_reach prj (list_reach r) a h' = cell_reach prj (list_reach r) a h"
    by (simp add: cell_val_def cell_reach_def)
qed

section \<open>The custom resources\<close>

abbreviation "strings_reach \<equiv> cell_reach (cell_of is_StringsC un_Strings) plain_reach"
abbreviation "strings_val \<equiv> cell_val (cell_of is_StringsC un_Strings) plain_val"
abbreviation "map_reach \<equiv> cell_reach (cell_of is_RefsC un_Refs) plain_reach"
abbreviation "map_val \<equiv> cell_val (cell_of is_RefsC un_Refs) refs_val"

definition dns_reach :: "dns_struct \<Rightarrow> 'b heap \<Rightarrow> nat set" where
  "dns_reach d h = field_reach strings_reach (ds_Records d) h"

definition dns_val :: "dns_struct \<Rightarrow> 'b heap \<Rightarrow> (bool \<times> string list option) option" where
  "dns_val d h = map_option (Pair (ds_Synced d)) (field_val strings_val (ds_Records d) h)"

abbreviation "dns_cell \<equiv> cell_of is_DnsC un_Dns"

abbreviation ss_refs :: "status_status \<Rightarrow> addr option \<times> addr option \<times> addr option" where
  "ss_refs s \<equiv> (ss_Ingresses s, ss_Aliases s, ss_DNS s)"

definition ss_reach :: "status_status \<Rightarrow> 'b heap \<Rightarrow> nat set" where
  "ss_reach s h = pair_reach (field_reach map_reach)
     (pair_reach (field_reach strings_reach) (field_reach (cell_reach dns_cell dns_reach))) (ss_refs s) h"

definition ss_val where
  "ss_val s h = map_option (Pair (ss_ID s, ss_ARN s, ss_Address s)) (pair_val (field_val map_val)
     (pair_val (field_val strings_val) (field_val (cell_val dns_cell dns_val))) (ss_refs s) h)"

lemma copy_strings_new: "copy_strings = new_copy (cell_of is_StringsC un_Strings) StringsC hreturn"
  by (simp add: copy_strings_def new_copy_def hbind_def hreturn_def fun_eq_iff alloc_def split: option.split)

lemma copy_refs_new: "copy_refs ord = new_copy (cell_of is_RefsC un_Refs) RefsC (\<lambda>m. hreturn (refs_loop ord m))"
  by (simp add: copy_refs_def new_copy_def hbind_def hreturn_def fun_eq_iff alloc_def split: option.split)

interpretation string_slices: copier copy_strings strings_reach strings_val
  unfolding copy_strings_new by (rule copier_new [OF copier_plain]) simp

lemma copier_map:
  assumes "is_order ord"
  shows "copier (copy_refs ord) map_reach map_val"
  unfolding copy_refs_new by (rule copier_new [OF copier_refs [OF assms]]) simp

interpretation dns_structs: copier DNSStatus_DeepCopyInto dns_reach dns_val
  by (rule copier_struct [where get = ds_Records and rest = ds_Synced and put = "\<lambda>d r. d\<lparr>ds_Records := r\<rparr>",
        OF copier_field [OF string_slices.copier_axioms]])
    (simp_all add: DNSStatus_DeepCopyInto_def hbind_def hreturn_def dns_reach_def dns_val_def)

lemma copier_dns: "copier (new_copy dns_cell DnsC DNSStatus_DeepCopyInto) (cell_reach dns_cell dns_reach) (cell_val dns_cell dns_val)"
  by (rule copier_new [OF dns_structs.copier_axioms]) simp

lemma copier_status_status:
  assumes "is_order ord"
  shows "copier (CDNStatusStatus_DeepCopyInto ord) ss_reach ss_val"
  by (rule copier_struct [where get = ss_refs and rest = "\<lambda>s. (ss_ID s, ss_ARN s, ss_Address s)"
        and put = "\<lambda>s (i, a, d). s\<lparr>ss_Ingresses := i, ss_Aliases := a, ss_DNS := d\<rparr>",
        OF copier_pair [OF copier_field [OF copier_map [OF assms]]
          copier_pair [OF copier_field [OF string_slices.copier_axioms] copier_field [OF copier_dns]]]])
    (auto simp: CDNStatusStatus_DeepCopyInto_def pair_copy_def hbind_def hreturn_def ss_reach_def ss_val_def
      split: option.split)

text \<open>What the library promises of the copies of its own types.\<close>

definition library_copies ::
    "'b lib_copies \<Rightarrow> ('b \<Rightarrow> 'b heap \<Rightarrow> nat set) \<Rightarrow> ('b \<Rightarrow> 'b heap \<Rightarrow> 'w option) \<Rightarrow> bool" where
  "library_copies lib lr lv \<longleftrightarrow>
     copier (lc_ObjectMeta lib) lr lv \<and> copier (lc_ListMeta lib) lr lv \<and> copier (lc_Condition lib) lr lv"

lemma library_copiers:
  assumes "library_copies lib lr lv"
  shows library_ObjectMeta: "copier (lc_ObjectMeta lib) lr lv"
    and library_ListMeta: "copier (lc_ListMeta lib) lr lv"
    and library_Condition: "copier (lc_Condition lib) lr lv"
  using assms by (simp_all add: library_copies_def)

definition status_reach where
  "status_reach lr c h = pair_reach lr ss_reach (st_ObjectMeta c, st_Status c) h"

definition status_val where
  "status_val lv c h = map_option (Pair (st_TypeMeta c)) (pair_val lv ss_val (st_ObjectMeta c, st_Status c) h)"

abbreviation "statuses_cell \<equiv> cell_of is_StatusesC un_Statuses"

definition status_list_reach where
  "status_list_reach lr l h =
     pair_reach lr (field_reach (cell_reach statuses_cell (list_reach (status_reach lr)))) (sl_ListMeta l, sl_Items l) h"

definition status_list_val where
  "status_list_val lv l h = map_option (Pair (sl_TypeMeta l))
     (pair_val lv (field_val (cell_val statuses_cell (list_val (status_val lv)))) (sl_ListMeta l, sl_Items l) h)"

abbreviation "conditions_cell \<equiv> cell_of is_ConditionsC un_Conditions"

definition class_status_reach where
  "class_status_reach lr s h = field_reach (cell_reach conditions_cell (list_reach lr)) (cls_Conditions s) h"

definition class_status_val where
  "class_status_val lv s h = map_option (Pair ()) (field_val (cell_val conditions_cell (list_val lv)) (cls_Conditions s) h)"

definition class_reach where
  "class_reach lr c h = pair_reach lr (class_status_reach lr) (cl_ObjectMeta c, cl_Status c) h"

definition class_val where
  "class_val lv c h = map_option (Pair (cl_TypeMeta c, cl_Spec c))
     (pair_val lv (class_status_val lv) (cl_ObjectMeta c, cl_Status c) h)"

abbreviation "classes_cell \<equiv> cell_of is_ClassesC un_Classes"

definition class_list_reach where
  "class_list_reach lr l h =
     pair_reach lr (field_reach (cell_reach classes_cell (list_reach (class_reach lr)))) (ll_ListMeta l, ll_Items l) h"

definition class_list_val where
  "class_list_val lv l h = map_option (Pair (ll_TypeMeta l))
     (pair_val lv (field_val (cell_val classes_cell (list_val (class_val lv)))) (ll_ListMeta l, ll_Items l) h)"

lemmas copying_defs = pair_copy_def hbind_def hreturn_def

lemma copier_status:
  assumes "library_copies lib lr lv" and "is_order ord"
  shows "copier (CDNStatus_DeepCopyInto lib ord) (status_reach lr) (status_val lv)"
  by (rule copier_struct [where get = "\<lambda>c. (st_ObjectMeta c, st_Status c)" and rest = st_TypeMeta
        and put = "\<lambda>c (m, s). c\<lparr>st_ObjectMeta := m, st_Status := s\<rparr>",
        OF copier_pair [OF library_ObjectMeta [OF assms(1)] copier_status_status [OF assms(2)]]])
    (auto simp: CDNStatus_DeepCopyInto_def copying_defs status_reach_def status_val_def
      split: option.split)

lemma copier_status_list:
  assumes "library_copies lib lr lv" and "is_order ord"
  shows "copier (CDNStatusList_DeepCopyInto lib ord) (status_list_reach lr) (status_list_val lv)"
  by (rule copier_struct [where get = "\<lambda>l. (sl_ListMeta l, sl_Items l)" and rest = sl_TypeMeta
        and put = "\<lambda>l (m, i). l\<lparr>sl_ListMeta := m, sl_Items := i\<rparr>",
        OF copier_pair [OF library_ListMeta [OF assms(1)] copier_field [OF copier_items [where prj = statuses_cell and mk = StatusesC,
          OF copier_status [OF assms]]]]])
    (auto simp: CDNStatusList_DeepCopyInto_def copying_defs status_list_reach_def
      status_list_val_def split: option.split)

lemma copier_class_status:
  assumes "library_copies lib lr lv"
  shows "copier (CDNClassStatus_DeepCopyInto lib) (class_status_reach lr) (class_status_val lv)"
  by (rule copier_struct [where get = cls_Conditions and rest = "\<lambda>_. ()" and put = "\<lambda>s c. s\<lparr>cls_Conditions := c\<rparr>",
        OF copier_field [OF copier_items [where prj = conditions_cell and mk = ConditionsC,
          OF library_Condition [OF assms]]]])
    (auto simp: CDNClassStatus_DeepCopyInto_def copying_defs class_status_reach_def
      class_status_val_def split: option.split)

lemma copier_class:
  assumes "library_copies lib lr lv"
  shows "copier (CDNClass_DeepCopyInto lib) (class_reach lr) (class_val lv)"
  by (rule copier_struct [where get = "\<lambda>c. (cl_ObjectMeta c, cl_Status c)" and rest = "\<lambda>c. (cl_TypeMeta c, cl_Spec c)"
        and put = "\<lambda>c (m, s). c\<lparr>cl_ObjectMeta := m, cl_Status := s\<rparr>",
        OF copier_pair [OF library_ObjectMeta [OF assms] copier_class_status [OF assms]]])
    (auto simp: CDNClass_DeepCopyInto_def copying_defs class_reach_def class_val_def
      split: option.split)

lemma copier_class_list:
  assumes "library_copies lib lr lv"
  shows "copier (CDNClassList_DeepCopyInto lib) (class_list_reach lr) (class_list_val lv)"
  by (rule copier_struct [where get = "\<lambda>l. (ll_ListMeta l, ll_Items l)" and rest = ll_TypeMeta
        and put = "\<lambda>l (m, i). l\<lparr>ll_ListMeta := m, ll_Items := i\<rparr>",
        OF copier_pair [OF library_ListMeta [OF assms] copier_field [OF copier_items [where prj = classes_cell and mk = ClassesC,
          OF copier_class [OF assms]]]]])
    (auto simp: CDNClassList_DeepCopyInto_def copying_defs class_list_reach_def
      class_list_val_def split: option.split)

section \<open>A copy shares nothing with what it was copied from\<close>

text \<open>
  A copy of the object at \<open>p\<close>: it is taken without changing a cell, it denotes the value the object
  has, and whatever is written to its cells later, the object keeps its value, and conversely.
\<close>

definition deep_copied ::
    "(addr option \<Rightarrow> ('b, addr option) heap_op) \<Rightarrow> (addr \<Rightarrow> 'b heap \<Rightarrow> nat set) \<Rightarrow> (addr \<Rightarrow> 'b heap \<Rightarrow> 'v option) \<Rightarrow>
     addr \<Rightarrow> 'b heap \<Rightarrow> bool" where
  "deep_copied copy reach val p h \<longleftrightarrow> (\<forall>v. val p h = Some v \<longrightarrow>
     (\<exists>c k. copy (Some p) h = Some (Some c, h @ k) \<and> val c (h @ k) = Some v \<and>
        (\<forall>h'. same_cells (- reach c (h @ k) \<inter> {..<length (h @ k)}) (h @ k) h' \<longrightarrow> val p h' = Some v) \<and>
        (\<forall>h'. same_cells (- reach p h \<inter> {..<length (h @ k)}) (h @ k) h' \<longrightarrow> val c h' = Some v)))"

lemma object_deep_copied:
  assumes "copier into r v" and "\<And>y. prj (mk y) = Some y"
    and "\<And>q. copy q = as_object (copy_field (new_copy prj mk into) q)"
  shows "deep_copied copy (cell_reach prj r) (cell_val prj v) p h"
  unfolding deep_copied_def
proof (intro allI impI)
  fix u
  assume "cell_val prj v p h = Some u"
  from copier.isolated [OF copier_new [where prj = prj and mk = mk, OF assms(1,2)] this]
  obtain c k where c: "new_copy prj mk into p h = Some (c, h @ k)" "cell_val prj v c (h @ k) = Some u"
    "\<forall>h'. same_cells (- cell_reach prj r c (h @ k) \<inter> {..<length (h @ k)}) (h @ k) h' \<longrightarrow> cell_val prj v p h' = Some u"
    "\<forall>h'. same_cells (- cell_reach prj r p h \<inter> {..<length (h @ k)}) (h @ k) h' \<longrightarrow> cell_val prj v c h' = Some u"
    by blast
  from c(1) have "copy (Some p) h = Some (Some c, h @ k)"
    by (simp add: assms(3) as_object_def copy_field_def hbind_def hreturn_def)
  with c(2-) show "\<exists>c k. copy (Some p) h = Some (Some c, h @ k) \<and> cell_val prj v c (h @ k) = Some u \<and>
     (\<forall>h'. same_cells (- cell_reach prj r c (h @ k) \<inter> {..<length (h @ k)}) (h @ k) h' \<longrightarrow> cell_val prj v p h' = Some u) \<and>
     (\<forall>h'. same_cells (- cell_reach prj r p h \<inter> {..<length (h @ k)}) (h @ k) h' \<longrightarrow> cell_val prj v c h' = Some u)"
    by blast
qed

abbreviation "status_cell \<equiv> cell_of is_StatusC un_Status"
abbreviation "status_list_cell \<equiv> cell_of is_StatusListC un_StatusList"
abbreviation "class_cell \<equiv> cell_of is_ClassC un_Class"
abbreviation "class_list_cell \<equiv> cell_of is_ClassListC un_ClassList"

text \<open>
  C36. The copies of all four custom resources are deep: given that the library copies its own
  types deeply, the copy of an object denotes the same value (the same metadata, the same entries
  of the Ingress map whatever order it is ranged over, the same aliases, DNS records, conditions and
  items, nil where the object has nil), taking it changes no existing cell, and no later write to
  the copy's cells can be seen through the object, nor conversely.
\<close>

theorem resources_deep_copied:
  assumes "library_copies lib lr lv" and "is_order ord"
  shows "deep_copied (CDNStatus_DeepCopyObject lib ord) (cell_reach status_cell (status_reach lr))
      (cell_val status_cell (status_val lv)) p h \<and>
    deep_copied (CDNStatusList_DeepCopyObject lib ord) (cell_reach status_list_cell (status_list_reach lr))
      (cell_val status_list_cell (status_list_val lv)) p h \<and>
    deep_copied (CDNClass_DeepCopyObject lib) (cell_reach class_cell (class_reach lr))
      (cell_val class_cell (class_val lv)) p h \<and>
    deep_copied (CDNClassList_DeepCopyObject lib) (cell_reach class_list_cell (class_list_reach lr))
      (cell_val class_list_cell (class_list_val lv)) p h"
proof (intro conjI)
  show "deep_copied (CDNStatus_DeepCopyObject lib ord) (cell_reach status_cell (status_reach lr))
      (cell_val status_cell (status_val lv)) p h"
    by (rule object_deep_copied [OF copier_status [OF assms], where mk = StatusC])
      (simp_all add: CDNStatus_DeepCopyObject_def CDNStatus_DeepCopy_def)
  show "deep_copied (CDNStatusList_DeepCopyObject lib ord) (cell_reach status_list_cell (status_list_reach lr))
      (cell_val status_list_cell (status_list_val lv)) p h"
    by (rule object_deep_copied [OF copier_status_list [OF assms], where mk = StatusListC])
      (simp_all add: CDNStatusList_DeepCopyObject_def CDNStatusList_DeepCopy_def)
  show "deep_copied (CDNClass_DeepCopyObject lib) (cell_reach class_cell (class_reach lr))
      (cell_val class_cell (class_val lv)) p h"
    by (rule object_deep_copied [OF copier_class [OF assms(1)], where mk = ClassC])
      (simp_all add: CDNClass_DeepCopyObject_def CDNClass_DeepCopy_def)
  show "deep_copied (CDNClassList_DeepCopyObject lib) (cell_reach class_list_cell (class_list_reach lr))
      (cell_val class_list_cell (class_list_val lv)) p h"
    by (rule object_deep_copied [OF copier_class_list [OF assms(1)], where mk = ClassListC])
      (simp_all add: CDNClassList_DeepCopyObject_def CDNClassList_DeepCopy_def)
qed

definition sample_copies :: "string lib_copies" where
  "sample_copies = \<lparr>lc_ObjectMeta = hreturn, lc_ListMeta = hreturn, lc_Condition = hreturn\<rparr>"

definition sample_cells :: "string heap" where
  "sample_cells =
    [RefsC [(''prod/web'', ''Synced'')], StringsC [''www.x''], StringsC [''www.x.''], DnsC \<lparr>ds_Records = Some 2, ds_Synced = True\<rparr>,
     StatusC \<lparr>st_TypeMeta = (''CDNStatus'', ''v1alpha1''), st_ObjectMeta = ''g1'', st_Status =
       \<lparr>ss_ID = ''E1'', ss_ARN = ''arn'', ss_Ingresses = Some 0, ss_Aliases = Some 1, ss_Address = ''d.net'', ss_DNS = Some 3\<rparr>\<rparr>]"

lemma sample_copies_ok: "library_copies sample_copies plain_reach plain_val"
  by (simp add: library_copies_def sample_copies_def copier_plain)

lemma sample_cells_val: "\<exists>v. cell_val status_cell (status_val plain_val) 4 sample_cells = Some v"
  by (simp add: cell_val_def sample_cells_def status_val_def pair_val_def plain_val_def ss_val_def field_val_def dns_val_def
      refs_val_def wf_map_def)

theorem resources_deep_copied_witness:
  "\<exists>c k. CDNStatus_DeepCopyObject sample_copies rev (Some 4) sample_cells = Some (Some c, sample_cells @ k) \<and>
     cell_val status_cell (status_val plain_val) c (sample_cells @ k) =
       cell_val status_cell (status_val plain_val) 4 sample_cells"
proof -
  obtain v where v: "cell_val status_cell (status_val plain_val) 4 sample_cells = Some v" using sample_cells_val by blast
  from resources_deep_copied [OF sample_copies_ok is_order_rev, of 4 sample_cells]
  have "deep_copied (CDNStatus_DeepCopyObject sample_copies rev) (cell_reach status_cell (status_reach plain_reach))
      (cell_val status_cell (status_val plain_val)) 4 sample_cells" by (rule conjunct1)
  with v show ?thesis unfolding deep_copied_def by fastforce
qed

end
