(* ===== verification/Spec2Isabelle.thy ===== *)
theory Spec2Isabelle
  imports Served No_Panic Progress Startup Deep_Copy
begin

text \<open>
  A model of cdn-origin-controller, a Kubernetes operator in Go. For every Ingress annotated with a
  CDN class and a group it provisions one CloudFront distribution per group, the origin access
  controls (OAC) of its bucket origins, and the Route 53 records of its aliases; it records what it
  has provisioned in a \<open>CDNStatus\<close> resource and holds the Ingress back with a finalizer until the
  AWS side is clean.

  THE PROGRAM AND ITS THEORIES (paths under \<open>src/\<close>), in the order of the imports.

  \<^item> Language level. \<open>Go_Prelude\<close>: error values (\<open>go_error\<close>, with \<open>errors.Is\<close> and \<open>errors.As\<close>),
    outcomes (\<open>Ok\<close>, \<open>Err\<close>, \<open>Panic\<close>), Go maps as association lists whose iteration order is an
    argument, and effects. A computation of type \<open>'a api\<close> maps the trace of the requests made so
    far to an outcome and the longer trace. \<open>Go_Strings\<close>: the functions of package \<open>strings\<close>, of
    \<open>range\<close> over runes and of \<open>strconv\<close> that are used. \<open>Md5\<close>: \<open>crypto/md5\<close> on 32-bit words.
  \<^item> \<open>internal/strhelper\<close>: \<open>Str_Helper\<close>. \<open>internal/aws/error.go\<close>: \<open>Aws_Error\<close>.
    \<open>internal/config/config.go\<close>: \<open>Cdn_Config\<close>. \<open>api/v1alpha1\<close>: \<open>Cdn_Status\<close> (status and
    references), \<open>Cdn_Class\<close> (the class resource), \<open>Deep_Copy\<close> (the generated deep copies, over a store
    of cells).
  \<^item> \<open>internal/k8s\<close>: \<open>Function_Assoc\<close> (function associations: validation and merge),
    \<open>Ingress_Model\<close> (annotations, finalizer helpers, \<open>CDNIngress\<close>, user origins, validation) with
    its lemmas in \<open>Ingress_Props\<close>, \<open>Shared_Params\<close> (what the Ingresses of a group share), and
    \<open>Ingress_Fetcher\<close> (listing the Ingresses, reading the class).
  \<^item> \<open>internal/cloudfront\<close>, data: \<open>Cf_Function\<close> (\<open>function.go\<close>), \<open>Path_Order\<close> (\<open>sort.go\<close>),
    \<open>Origin_Model\<close> (\<open>origin.go\<close>, \<open>oac.go\<close>, \<open>service_helpers.go\<close>), \<open>Distribution_Model\<close>
    (\<open>distribution.go\<close>), \<open>Aws_Models\<close> (\<open>aws_models.go\<close>).
  \<^item> The boundary: \<open>Cloud_Api\<close> declares the data of the AWS and Kubernetes APIs, one constructor of
    \<open>api_call\<close> per request the program makes, and the \<open>world\<close>, which answers every request by an
    arbitrary function of the whole trace so far, the request itself included. A theorem over all
    worlds thus covers every failure, every concurrent change made by others, and every order of
    answers.
  \<^item> \<open>internal/cloudfront\<close>, operations: \<open>Oac_Repo\<close> (\<open>oac_lister.go\<close>, \<open>oac_repository.go\<close>),
    \<open>Dist_Repo\<close> (\<open>repository.go\<close>), \<open>Cdn_Service\<close> (\<open>service.go\<close>). \<open>internal/route53\<close>:
    \<open>Alias_Repo\<close>. \<open>internal/certificate\<close>: \<open>Certificate_Model\<close>.
  \<^item> The lemmas on the service: \<open>Desired_State\<close> (what is built from the Ingresses of a group),
    \<open>Service_Calls\<close> (which requests each part of a reconciliation makes), \<open>Service_Props\<close> (the
    service as \<open>main.go\<close> wires it, creation and deletion of distributions) and \<open>Service_Status\<close>
    (finalizer, status, DNS names), \<open>Served\<close> (what CloudFront and Route 53 hold after a success).
  \<^item> \<open>controllers/\<close>: \<open>Controllers\<close> (event filter, handling of a request, and the controller as a
    state machine over the trace: \<open>reachable\<close>).
  \<^item> Panics: \<open>Go_Safety\<close> is the calculus (\<open>safe\<close>: a computation that does not panic, with what its
    result satisfies) and \<open>No_Panic\<close> its application to the whole controller.
  \<^item> Progress: \<open>Progress\<close> has the calculus of computations that end as expected (\<open>yields\<close>) and applies it
    to everything a reconciliation does once it has a plan.
  \<^item> \<open>main.go\<close>: \<open>Startup\<close>, from \<open>init\<close> to \<open>mgr.Start\<close>, with the registration of the controller. What
    the libraries are asked at the start is a trace of its own (\<open>setup_call\<close>).

  HOW THE PARTS INTERACT. \<open>V1_Reconcile\<close> reads an Ingress and its class and calls \<open>Reconcile\<close>. That
  computes a plan (\<open>reconcile_plan\<close>: list all Ingresses, keep the active ones of the group, merge what
  they share, find the group's distribution by its tags, build the desired distribution, read the
  status, check the permission to create), carries it out in AWS (\<open>reconcile_aws\<close>: the distribution,
  then the aliases) and in the cluster (\<open>reconcile_k8s\<close>: finalizer, then status, then events).
  Go structs are records of the same fields, Go interfaces are records of their methods, and a
  pointer that may be nil is an option; a method that mutates its receiver returns it. A dereference
  of nil is the outcome \<open>Panic\<close>.

  CONTRACTS. The interfaces between components are locales: \<open>oac_repo_contract\<close>,
  \<open>dist_repo_contract\<close> and the others state which kinds of requests the methods may make; the
  client's lemmas are proved inside, and each locale is interpreted on the repositories of the
  model, in the theory that defines them. \<open>service_parts\<close> gathers them for the service and
  \<open>controller_parts\<close> for the controller; both are interpreted on the wiring of \<open>main.go\<close>.

  WHAT THE LEMMAS SHOW.
  \<^item> Over all reachable states: nothing is destroyed in AWS while deletion is disabled; a distribution
    is deleted only after a listing that has no active Ingress of its group (\<open>Controllers\<close>); the first
    also from the environment variable on, for the controller that \<open>main\<close> registers (\<open>Startup\<close>).
  \<^item> After a success: the configuration CloudFront was last sent serves every active Ingress of the
    group, each path by an origin with the Ingress's host, and every alias was pointed at
    the distribution's address (\<open>Served\<close>).
  \<^item> No panic: in a world whose answers have the shape the APIs document, no request ends in a panic
    (\<open>No_Panic\<close>); the one exception found is stated there (\<open>plain_record_panics\<close>).
  \<^item> No reconciliation stops halfway while the APIs answer (\<open>Progress\<close>): it succeeds, or it ends before
    it has changed anything.
  \<^item> The start: the manager is started only when everything before succeeded (\<open>Startup\<close>).
  \<^item> A deep copy of a resource denotes the same value and shares no cell with the original
    (\<open>Deep_Copy\<close>): each generated function is built from copiers, and \<open>copier\<close> is the contract.
  \<^item> One reconciliation: a distribution is created only with permission and for an active Ingress;
    AWS is written only after the whole plan was computed; the finalizer is removed only after the
    AWS side succeeded; what a success has recorded, request by request; how the recorded DNS names
    follow the aliases; what is left of the aliases after a failed synchronisation.
  \<^item> The desired distribution in closed form, its origins, tags, order of behaviors, and the
    referential closure of the configuration that is sent (every behavior names an origin of it).
  \<^item> Merging the paths of a group: complete, an error exactly on a genuine conflict, and independent
    of the order of the Ingresses.
  \<^item> The order of requests in the repositories: access controls are created before the update that
    uses them and deleted after it; a distribution is disabled and deployed before it is deleted;
    DNS changes go out in one batch that pairs every address record with its ownership record and
    never touches a record of others.
  \<^item> Round trips of the ownership TXT values and of the header annotation, validation of function
    associations, matching of certificates, bounds of the names of access controls.

  PARAMETERS AND HYPOTHESES. Code outside the repository is an argument: viper (\<open>viper\<close>); the YAML
  parser, the defaults library and controller-runtime's finalizer helpers (\<open>k8s_libs\<close>, hypothesis
  \<open>finalizer_spec\<close>: an added finalizer is present); go-multierror (\<open>multierr_lib\<close>, \<open>multierr_spec\<close>);
  \<open>wait.PollUntilContextTimeout\<close> (\<open>poll_spec\<close>); the deep copies of the library's own types
  (\<open>lib_copies\<close>, \<open>library_copies\<close>); flags, log levels and the manager (\<open>startup_lib\<close>); the iteration order of Go maps (\<open>wf_orders\<close>: a
  permutation of the map). Each hypothesis is met by a concrete function (\<open>sample_poll\<close>,
  \<open>sample_multierr\<close>, \<open>sample_libs\<close>, \<open>sample_orders\<close>) that the witnesses use.

  BOUNDS. Polling is the one loop that could go on: the code bounds it by a context of 60 seconds
  and a check every 10, so \<open>poll_spec\<close> allows at most seven checks (\<open>wait_bounded\<close>). No other
  definition takes fuel: loops range over lists, and pagination over the pages the world answers.

  NOT MODELLED. Logging and the message texts of events (an event is recorded with its target, type
  and reason); the formatting of arguments inside error texts; the scheme builder of
  \<open>api/v1alpha1\<close>, a library; the mocks in \<open>internal/test\<close>; charts and manifests. Two requests are handled one after the other
  (controller-runtime's default of one worker); what other writers do in between is in the \<open>world\<close>.
\<close>

end
